theory Spec2Isabelle
  imports Main "HOL-Library.Sublist" "HOL-Library.AList"
begin

text \<open>
  A model of the server in \<open>CursorPro/index.js\<close>: command validation, path validation,
  the four tool executors (\<open>ExecuteCommand\<close>, \<open>WriteFile\<close>, \<open>ReadFile\<close>, \<open>ListDirectory\<close>)
  and the handler of \<open>POST /api/build\<close> with its loop over the tool calls of the language
  model. Of the platform, the \<open>path\<close> module and the part of \<open>fs\<close> the server calls are
  modelled after Node on a POSIX system; the shell behind \<open>execSync\<close>, \<open>JSON.parse\<close>, the
  clock, the random suffix and the hosted model are parameters. One request is handled at a
  time: \<open>currentProjectId\<close>, a global of the program, is passed along as a value.
\<close>

section \<open>JavaScript strings\<close>

text \<open>
  A JavaScript string is a sequence of UTF-16 code units; \<open>s.length\<close> counts them. The
  model uses \<^typ>\<open>string\<close>, one \<^typ>\<open>char\<close> per code unit, which covers the code units
  0 to 255 (ASCII and Latin-1). \<open>String.prototype.trim\<close> removes white space and line
  terminators from both ends; in this range they are TAB, LF, VT, FF, CR, SPACE and NBSP.
\<close>

definition is_js_space :: "char \<Rightarrow> bool" where
  "is_js_space c = (c \<in> set [CHR 0x09, CHR 0x0A, CHR 0x0B, CHR 0x0C, CHR 0x0D, CHR 0x20, CHR 0xA0])"

definition trim :: "string \<Rightarrow> string" where
  "trim s = rev (dropWhile is_js_space (rev (dropWhile is_js_space s)))"

text \<open>\<open>s.split(c)\<close> for a separator of one character: never empty, \<open>"".split(c)\<close> is \<open>[""]\<close>.\<close>

fun split_on :: "char \<Rightarrow> string \<Rightarrow> string list" where
  "split_on c [] = [[]]"
| "split_on c (x # xs) =
     (if x = c then [] # split_on c xs
      else (case split_on c xs of w # ws \<Rightarrow> (x # w) # ws | [] \<Rightarrow> [[x]]))"

definition startsWith :: "string \<Rightarrow> string \<Rightarrow> bool" where
  "startsWith s p = (take (length p) s = p)"

text \<open>\<open>s.includes(sub)\<close>: \<open>sub\<close> occurs in \<open>s\<close> as a contiguous run.\<close>

fun includes_str :: "string \<Rightarrow> string \<Rightarrow> bool" where
  "includes_str [] sub = (sub = [])"
| "includes_str (x # xs) sub = (startsWith (x # xs) sub \<or> includes_str xs sub)"

fun join_with :: "string \<Rightarrow> string list \<Rightarrow> string" where
  "join_with sep [] = []"
| "join_with sep [x] = x"
| "join_with sep (x # y # ys) = x @ sep @ join_with sep (y # ys)"

section \<open>Command validation\<close>

definition allowedCommands :: "string list" where
  "allowedCommands =
     [''mkdir'', ''touch'', ''echo'', ''ls'', ''cat'', ''pwd'', ''cp'', ''mv'', ''rm'',
      ''find'', ''grep'', ''head'', ''tail'', ''wc'', ''sort'', ''uniq'']"

definition blockedCommands :: "string list" where
  "blockedCommands =
     [''sudo'', ''su'', ''chmod'', ''chown'', ''passwd'', ''useradd'', ''userdel'',
      ''systemctl'', ''service'', ''kill'', ''killall'', ''reboot'', ''shutdown'',
      ''curl'', ''wget'', ''ssh'', ''scp'', ''rsync'', ''dd'', ''format'', ''fdisk'',
      ''mount'', ''umount'', ''crontab'', ''at'', ''nohup'', ''screen'', ''tmux'']"

text \<open>\<open>command.trim().split(" ")[0]\<close>\<close>

definition commandName_of :: "string \<Rightarrow> string" where
  "commandName_of command = hd (split_on CHR '' '' (trim command))"

text \<open>
  \<open>isValidCommand\<close> throws for a blocked command name (\<open>Inl\<close> carries the message of the
  \<open>Error\<close>) and otherwise returns a boolean.
\<close>

definition isValidCommand :: "string \<Rightarrow> string + bool" where
  "isValidCommand command =
     (let commandName = commandName_of command in
      if commandName \<in> set blockedCommands
      then Inl (''Command '' @ [CHR 0x27] @ commandName @ [CHR 0x27] @ '' is not allowed for security reasons'')
      else Inr (commandName \<in> set allowedCommands \<or> startsWith commandName ''echo''))"

text \<open>The leading token of a command as the specification words it: the first maximal run
  of characters that are not white space.\<close>

definition leading_token :: "string \<Rightarrow> string" where
  "leading_token command = takeWhile (\<lambda>c. \<not> is_js_space c) (dropWhile is_js_space command)"

section \<open>Paths (Node's \<open>path\<close> module, POSIX flavour)\<close>

text \<open>
  \<open>sanitizePath\<close> and the executors call \<open>path.normalize\<close>, \<open>path.isAbsolute\<close>,
  \<open>path.join\<close> and \<open>path.dirname\<close>. Node's \<open>normalizeString\<close> scans the characters and
  acts at every separator on the segment just read; \<open>nstep\<close> is that action on the list
  of segments kept so far: an empty segment and \<open>.\<close> are dropped, \<open>..\<close> removes the
  last kept segment unless there is none or it is \<open>..\<close> itself (then \<open>..\<close> is kept when
  \<open>allowAboveRoot\<close> holds and dropped otherwise), any other segment is kept.
\<close>

definition nstep :: "bool \<Rightarrow> string list \<Rightarrow> string \<Rightarrow> string list" where
  "nstep allowAboveRoot res seg =
     (if seg = [] \<or> seg = ''.'' then res
      else if seg = ''..'' then
        (if res \<noteq> [] \<and> last res \<noteq> ''..'' then butlast res
         else if allowAboveRoot then res @ [''..''] else res)
      else res @ [seg])"

definition normalizeString :: "string \<Rightarrow> bool \<Rightarrow> string" where
  "normalizeString p allowAboveRoot =
     join_with ''/'' (foldl (nstep allowAboveRoot) [] (split_on CHR ''/'' p))"

definition path_isAbsolute :: "string \<Rightarrow> bool" where
  "path_isAbsolute p = (p \<noteq> [] \<and> hd p = CHR ''/'')"

definition path_normalize :: "string \<Rightarrow> string" where
  "path_normalize p =
     (if p = [] then ''.''
      else
        let isAbsolute = (hd p = CHR ''/'');
            trailingSeparator = (last p = CHR ''/'');
            q = normalizeString p (\<not> isAbsolute)
        in if q = [] then (if isAbsolute then ''/'' else if trailingSeparator then ''./'' else ''.'')
           else (if isAbsolute then ''/'' else []) @ q @ (if trailingSeparator then ''/'' else []))"

text \<open>\<open>path.join(a, b)\<close>: the non-empty arguments joined by a separator, then normalised.\<close>

definition path_join :: "string \<Rightarrow> string \<Rightarrow> string" where
  "path_join a b =
     (let joined = (if a = [] then b else if b = [] then a else a @ ''/'' @ b)
      in if joined = [] then ''.'' else path_normalize joined)"

text \<open>
  \<open>path.dirname\<close> scans from the right down to index 1: it skips trailing separators,
  then the last segment, and cuts before the separator it meets.
\<close>

definition path_dirname :: "string \<Rightarrow> string" where
  "path_dirname p =
     (if p = [] then ''.''
      else
        let hasRoot = (hd p = CHR ''/'');
            r = dropWhile (\<lambda>c. c \<noteq> CHR ''/'') (dropWhile (\<lambda>c. c = CHR ''/'') (rev (tl p)))
        in if r = [] then (if hasRoot then ''/'' else ''.'')
           else if hasRoot \<and> length r = 1 then ''//''
           else take (length r) p)"

definition sanitizePath :: "string \<Rightarrow> string + string" where
  "sanitizePath filePath =
     (let normalizedPath = path_normalize filePath in
      if includes_str normalizedPath ''..'' \<or> path_isAbsolute normalizedPath
      then Inl ''Invalid file path: directory traversal not allowed''
      else Inr normalizedPath)"

section \<open>The file system\<close>

text \<open>
  The state the executors act on: a finite table from absolute paths, as lists of segments,
  to nodes; the root \<open>[]\<close> is always a directory. File contents are kept as the string that
  was written. A node is a file or a directory: there are no symbolic links, so a path
  names the node found by reading its segments one after the other. Permissions, devices
  and the limits an operating system puts on names (their length, the characters allowed)
  are not part of the model either.
\<close>

type_synonym fpath = "string list"

datatype node = File string | Dir

type_synonym filesystem = "(fpath \<times> node) list"

definition lookup :: "filesystem \<Rightarrow> fpath \<Rightarrow> node option" where
  "lookup fs p = (if p = [] then Some Dir else map_of fs p)"

text \<open>A table is well formed when every entry lies in a directory.\<close>

definition wf_fs :: "filesystem \<Rightarrow> bool" where
  "wf_fs fs = list_all (\<lambda>(p, n). p = [] \<or> lookup fs (butlast p) = Some Dir) fs"

text \<open>How the operating system reads a path string: relative to the working directory
  unless it starts at the root, segment by segment.\<close>

definition os_resolve :: "string \<Rightarrow> string \<Rightarrow> fpath" where
  "os_resolve cwd p =
     foldl (nstep False) [] (split_on CHR ''/'' (if path_isAbsolute p then p else cwd @ ''/'' @ p))"

definition trailing_slash :: "string \<Rightarrow> bool" where
  "trailing_slash p = (p \<noteq> [] \<and> last p = CHR ''/'')"

text \<open>\<open>stat\<close>: the empty path names nothing, and a path that ends in a separator names
  directories only.\<close>

definition fs_stat :: "string \<Rightarrow> filesystem \<Rightarrow> string \<Rightarrow> node option" where
  "fs_stat cwd fs p =
     (if p = [] then None
      else case lookup fs (os_resolve cwd p) of
             Some (File c) \<Rightarrow> if trailing_slash p then None else Some (File c)
           | other \<Rightarrow> other)"

definition existsSync :: "string \<Rightarrow> filesystem \<Rightarrow> string \<Rightarrow> bool" where
  "existsSync cwd fs p = (fs_stat cwd fs p \<noteq> None)"

text \<open>\<open>fs.mkdirSync(p, {recursive: true})\<close>: walks the segments from the root, creates each
  missing directory and throws when a segment is a file.\<close>

fun mkdirs :: "filesystem \<Rightarrow> fpath \<Rightarrow> string list \<Rightarrow> string + filesystem" where
  "mkdirs fs pre [] = Inr fs"
| "mkdirs fs pre (s # ss) =
     (case lookup fs (pre @ [s]) of
        Some (File c) \<Rightarrow> Inl ''EEXIST: file already exists, mkdir''
      | Some Dir \<Rightarrow> mkdirs fs (pre @ [s]) ss
      | None \<Rightarrow> mkdirs (AList.update (pre @ [s]) Dir fs) (pre @ [s]) ss)"

definition mkdirSync_recursive :: "string \<Rightarrow> filesystem \<Rightarrow> string \<Rightarrow> string + filesystem" where
  "mkdirSync_recursive cwd fs p =
     (if p = [] then Inl ''ENOENT: no such file or directory, mkdir''
      else mkdirs fs [] (os_resolve cwd p))"

text \<open>\<open>fs.writeFileSync(p, data, "utf-8")\<close>: the parent must be a directory and the target
  must not be one; an existing file is replaced.\<close>

definition writeFileSync :: "string \<Rightarrow> filesystem \<Rightarrow> string \<Rightarrow> string \<Rightarrow> string + filesystem" where
  "writeFileSync cwd fs p data =
     (let t = os_resolve cwd p in
      if p = [] then Inl ''ENOENT: no such file or directory, open''
      else if t = [] \<or> lookup fs t = Some Dir then Inl ''EISDIR: illegal operation on a directory, open''
      else case lookup fs (butlast t) of
             None \<Rightarrow> Inl ''ENOENT: no such file or directory, open''
           | Some (File c) \<Rightarrow> Inl ''ENOTDIR: not a directory, open''
           | Some Dir \<Rightarrow>
               if trailing_slash p then Inl ''EISDIR: illegal operation on a directory, open''
               else Inr (AList.update t (File data) fs))"

definition readFileSync :: "string \<Rightarrow> filesystem \<Rightarrow> string \<Rightarrow> string + string" where
  "readFileSync cwd fs p =
     (case fs_stat cwd fs p of
        None \<Rightarrow> Inl ''ENOENT: no such file or directory, open''
      | Some Dir \<Rightarrow> Inl ''EISDIR: illegal operation on a directory, read''
      | Some (File c) \<Rightarrow> Inr c)"

text \<open>\<open>fs.readdirSync(p, {withFileTypes: true})\<close>: the entries directly below a directory,
  each with its name and whether it is a directory.\<close>

definition readdirSync :: "string \<Rightarrow> filesystem \<Rightarrow> string \<Rightarrow> string + (string \<times> bool) list" where
  "readdirSync cwd fs p =
     (case fs_stat cwd fs p of
        None \<Rightarrow> Inl ''ENOENT: no such file or directory, scandir''
      | Some (File c) \<Rightarrow> Inl ''ENOTDIR: not a directory, scandir''
      | Some Dir \<Rightarrow>
          Inr (map (\<lambda>(q, n). (last q, n = Dir))
                 (filter (\<lambda>(q, n). q \<noteq> [] \<and> butlast q = os_resolve cwd p) fs)))"

text \<open>The bytes \<open>writeFileSync\<close> puts on disk for a string under the \<open>utf-8\<close> encoding: one
  byte for a code unit below 128 and two for the others of the range modelled.\<close>

definition utf8_length :: "string \<Rightarrow> nat" where
  "utf8_length s = sum_list (map (\<lambda>c. if of_char c < (128::nat) then 1 else 2) s)"

section \<open>Tool arguments, tool results and the environment\<close>

text \<open>
  The arguments of a tool call are the object \<open>JSON.parse\<close> returns. The tool catalogue
  declares them as objects with string fields; a field the model left out is \<open>undefined\<close>,
  here \<open>None\<close>. \<open>JSON.parse\<close> can also return \<open>null\<close>: its result is a
  \<open>tool_args option\<close>, with \<open>None\<close> for \<open>null\<close>. A number, a string, a boolean or an
  array has none of the three fields: an executor treats it as an object without them, and
  it is modelled as that object (which the entry recorded then shows in place of the
  value). Objects whose fields are not strings are outside this type.
\<close>

record tool_args =
  arg_command :: "string option"
  arg_path :: "string option"
  arg_content :: "string option"

text \<open>How a template literal prints a value that is a string or \<open>undefined\<close>.\<close>

fun template_text :: "string option \<Rightarrow> string" where
  "template_text None = ''undefined''"
| "template_text (Some s) = s"

record file_entry =
  entry_name :: string
  entry_type :: string
  entry_path :: string

text \<open>A tool result is a plain object; a field that the object does not have is \<open>None\<close>.\<close>

record tool_result =
  success :: bool
  output_r :: "string option"
  content :: "string option"
  files :: "file_entry list option"
  error :: "string option"
  message :: "string option"
  path :: "string option"
  fullPath :: "string option"
  command :: "string option"
  size_r :: "nat option"
  count_r :: "nat option"

definition no_fields :: tool_result where
  "no_fields = \<lparr>success = False, output_r = None, content = None, files = None, error = None,
     message = None, path = None, fullPath = None, command = None, size_r = None, count_r = None\<rparr>"

record tool_call =
  call_id :: string
  call_name :: string
  call_arguments :: string

record exec_entry =
  tool :: string
  args :: "tool_args option"
  result :: tool_result

text \<open>\<open>response.choices[0].message\<close> of a chat completion.\<close>

record groq_message =
  msg_content :: "string option"
  tool_calls :: "tool_call list option"

text \<open>
  What the program takes from outside: the directory of the script, the working directory
  of the process, the shell behind \<open>execSync\<close> (command, working directory and file system
  to a thrown message or the standard output, and the file system it leaves), \<open>JSON.parse\<close>
  (a thrown message, or the parsed object, or \<open>None\<close> for \<open>null\<close>), the clock and the random suffix read by
  \<open>generateProjectId\<close>, the first chat completion (a thrown message, or \<open>choices[0]\<close> with
  its message, \<open>None\<close> when there is none) and the follow-up completion of a tool call
  (\<open>Some\<close> message when it throws).
\<close>

record env =
  dirname_js :: string
  process_cwd :: string
  execSync :: "string \<Rightarrow> string \<Rightarrow> filesystem \<Rightarrow> (string + string) \<times> filesystem"
  JSON_parse :: "string \<Rightarrow> string + tool_args option"
  Date_now :: nat
  random_suffix :: string
  groq_create :: "string \<Rightarrow> string + groq_message option"
  groq_followUp :: "tool_call \<Rightarrow> tool_result \<Rightarrow> string option"

definition WEBSITES_DIR :: "env \<Rightarrow> string" where
  "WEBSITES_DIR e = path_join (dirname_js e) ''websites''"

definition getProjectPath :: "env \<Rightarrow> string \<Rightarrow> string" where
  "getProjectPath e projectId = path_join (WEBSITES_DIR e) projectId"

fun dec :: "nat \<Rightarrow> string" where
  "dec n = (if n < 10 then [''0123456789'' ! n] else dec (n div 10) @ [''0123456789'' ! (n mod 10)])"

definition generateProjectId :: "env \<Rightarrow> string" where
  "generateProjectId e = ''website_'' @ dec (Date_now e) @ ''_'' @ random_suffix e"

text \<open>\<open>currentProjectId\<close> is \<open>null\<close> or a string, and is tested for truth: the empty string
  counts as no project.\<close>

definition active_project :: "string option \<Rightarrow> string option" where
  "active_project currentProjectId =
     (case currentProjectId of None \<Rightarrow> None | Some i \<Rightarrow> if i = [] then None else Some i)"

section \<open>The four executors\<close>

text \<open>
  The body of each executor is one \<open>try\<close> block with a \<open>catch\<close> that turns whatever was
  thrown into a result. The \<open>_try\<close> function is the block: \<open>Inl\<close> carries the message of
  what it throws. The file system is returned as the block left it. The functions named
  after the executors are these bodies, from the parameter object on; the parameter itself
  is a pattern (\<open>{ command }\<close>, \<open>{ path: filePath, content }\<close>), bound when the executor is
  called and before the body is entered.
\<close>

text \<open>
  The call \<open>f(args)\<close> of an executor: binding the parameter pattern reads a property of
  the argument, which throws a \<open>TypeError\<close> when the argument is \<open>null\<close>. The binding is
  outside the \<open>try\<close> of the body, so this exception leaves the executor. \<open>Inl\<close> carries
  its message, written without its quotation marks; \<open>prop\<close> is the first property of the
  pattern.
\<close>

definition call_executor ::
  "string \<Rightarrow> (tool_args \<Rightarrow> filesystem \<Rightarrow> tool_result \<times> filesystem) \<Rightarrow> tool_args option
     \<Rightarrow> filesystem \<Rightarrow> (string + tool_result) \<times> filesystem" where
  "call_executor prop f parsed fs =
     (case parsed of
        None \<Rightarrow> (Inl (''Cannot destructure property '' @ prop @ '' of object as it is null.''), fs)
      | Some a \<Rightarrow> (case f a fs of (r, fs') \<Rightarrow> (Inr r, fs')))"

definition ExecuteCommand_try ::
  "env \<Rightarrow> string option \<Rightarrow> tool_args \<Rightarrow> filesystem \<Rightarrow> (string + tool_result) \<times> filesystem" where
  "ExecuteCommand_try e currentProjectId a fs =
     (case arg_command a of
        None \<Rightarrow> (Inl ''Cannot read properties of undefined (reading trim)'', fs)
      | Some cmd \<Rightarrow>
          (case isValidCommand cmd of
             Inl m \<Rightarrow> (Inl m, fs)
           | Inr valid \<Rightarrow>
               if \<not> valid then (Inl (''Command not allowed: '' @ hd (split_on CHR '' '' cmd)), fs)
               else
                 let cwd = (case active_project currentProjectId of
                              Some i \<Rightarrow> getProjectPath e i | None \<Rightarrow> process_cwd e)
                 in case execSync e cmd cwd fs of
                      (Inl m, fs') \<Rightarrow> (Inl m, fs')
                    | (Inr out, fs') \<Rightarrow>
                        (Inr (no_fields\<lparr>success := True, output_r := Some (trim out),
                                command := Some cmd\<rparr>), fs')))"

definition ExecuteCommand ::
  "env \<Rightarrow> string option \<Rightarrow> tool_args \<Rightarrow> filesystem \<Rightarrow> tool_result \<times> filesystem" where
  "ExecuteCommand e currentProjectId a fs =
     (case ExecuteCommand_try e currentProjectId a fs of
        (Inr r, fs') \<Rightarrow> (r, fs')
      | (Inl m, fs') \<Rightarrow> (no_fields\<lparr>success := False, error := Some m, command := arg_command a\<rparr>, fs'))"

text \<open>The block shared by \<open>WriteFile\<close>, \<open>ReadFile\<close> and \<open>ListDirectory\<close> that computes
  \<open>fullPath\<close>; \<open>path.normalize\<close> throws a \<open>TypeError\<close> when the path is not a string.\<close>

definition fullPath_of :: "env \<Rightarrow> string option \<Rightarrow> string option \<Rightarrow> string + string" where
  "fullPath_of e currentProjectId p =
     (case p of
        None \<Rightarrow> Inl ''The path argument must be of type string. Received undefined''
      | Some filePath \<Rightarrow>
          (case sanitizePath filePath of
             Inl m \<Rightarrow> Inl m
           | Inr sp \<Rightarrow>
               (case active_project currentProjectId of
                  Some i \<Rightarrow> Inr (path_join (getProjectPath e i) sp)
                | None \<Rightarrow> Inr sp)))"

definition WriteFile_try ::
  "env \<Rightarrow> string option \<Rightarrow> tool_args \<Rightarrow> filesystem \<Rightarrow> (string + tool_result) \<times> filesystem" where
  "WriteFile_try e currentProjectId a fs =
     (case fullPath_of e currentProjectId (arg_path a) of
        Inl m \<Rightarrow> (Inl m, fs)
      | Inr full \<Rightarrow>
          (case arg_content a of
             None \<Rightarrow> (Inl ''Cannot read properties of undefined (reading length)'', fs)
           | Some c \<Rightarrow>
               if length c > 1024 * 1024 then (Inl ''File content too large (max 1MB)'', fs)
               else
                 let dir = path_dirname full in
                 case (if \<not> existsSync (process_cwd e) fs dir
                       then mkdirSync_recursive (process_cwd e) fs dir else Inr fs) of
                   Inl m \<Rightarrow> (Inl m, fs)
                 | Inr fs1 \<Rightarrow>
                     (case writeFileSync (process_cwd e) fs1 full c of
                        Inl m \<Rightarrow> (Inl m, fs1)
                      | Inr fs2 \<Rightarrow>
                          (Inr (no_fields\<lparr>success := True,
                                  message := Some (''Successfully written to '' @ template_text (arg_path a)),
                                  path := arg_path a, fullPath := Some full,
                                  size_r := Some (length c)\<rparr>), fs2))))"

definition WriteFile ::
  "env \<Rightarrow> string option \<Rightarrow> tool_args \<Rightarrow> filesystem \<Rightarrow> tool_result \<times> filesystem" where
  "WriteFile e currentProjectId a fs =
     (case WriteFile_try e currentProjectId a fs of
        (Inr r, fs') \<Rightarrow> (r, fs')
      | (Inl m, fs') \<Rightarrow> (no_fields\<lparr>success := False, error := Some m, path := arg_path a\<rparr>, fs'))"

definition ReadFile_try ::
  "env \<Rightarrow> string option \<Rightarrow> tool_args \<Rightarrow> filesystem \<Rightarrow> string + tool_result" where
  "ReadFile_try e currentProjectId a fs =
     (case fullPath_of e currentProjectId (arg_path a) of
        Inl m \<Rightarrow> Inl m
      | Inr full \<Rightarrow>
          if \<not> existsSync (process_cwd e) fs full
          then Inl (''File does not exist: '' @ template_text (arg_path a))
          else case readFileSync (process_cwd e) fs full of
                 Inl m \<Rightarrow> Inl m
               | Inr c \<Rightarrow>
                   Inr (no_fields\<lparr>success := True, content := Some c, path := arg_path a,
                          size_r := Some (length c)\<rparr>))"

definition ReadFile ::
  "env \<Rightarrow> string option \<Rightarrow> tool_args \<Rightarrow> filesystem \<Rightarrow> tool_result \<times> filesystem" where
  "ReadFile e currentProjectId a fs =
     (case ReadFile_try e currentProjectId a fs of
        Inr r \<Rightarrow> (r, fs)
      | Inl m \<Rightarrow> (no_fields\<lparr>success := False, error := Some m, path := arg_path a\<rparr>, fs))"

text \<open>\<open>ListDirectory\<close> defaults a missing path to \<open>"."\<close>.\<close>

definition ListDirectory_try ::
  "env \<Rightarrow> string option \<Rightarrow> string \<Rightarrow> filesystem \<Rightarrow> string + tool_result" where
  "ListDirectory_try e currentProjectId dirPath fs =
     (case fullPath_of e currentProjectId (Some dirPath) of
        Inl m \<Rightarrow> Inl m
      | Inr full \<Rightarrow>
          if \<not> existsSync (process_cwd e) fs full
          then Inl (''Directory does not exist: '' @ dirPath)
          else if fs_stat (process_cwd e) fs full \<noteq> Some Dir
          then Inl (''Path is not a directory: '' @ dirPath)
          else case readdirSync (process_cwd e) fs full of
                 Inl m \<Rightarrow> Inl m
               | Inr ents \<Rightarrow>
                   let res = map (\<lambda>(n, d). \<lparr>entry_name = n,
                                   entry_type = (if d then ''directory'' else ''file''),
                                   entry_path = path_join dirPath n\<rparr>) ents
                   in Inr (no_fields\<lparr>success := True, files := Some res, path := Some dirPath,
                             count_r := Some (length res)\<rparr>))"

definition ListDirectory ::
  "env \<Rightarrow> string option \<Rightarrow> tool_args \<Rightarrow> filesystem \<Rightarrow> tool_result \<times> filesystem" where
  "ListDirectory e currentProjectId a fs =
     (let dirPath = (case arg_path a of None \<Rightarrow> ''.'' | Some p \<Rightarrow> p) in
      case ListDirectory_try e currentProjectId dirPath fs of
        Inr r \<Rightarrow> (r, fs)
      | Inl m \<Rightarrow> (no_fields\<lparr>success := False, error := Some m, path := Some dirPath\<rparr>, fs))"

section \<open>The build endpoint\<close>

text \<open>The value of \<open>req.body.userPrompt\<close>: any JSON value, or \<open>undefined\<close> when the body has
  no such field.\<close>

datatype jsval = JUndefined | JNull | JBool bool | JNum int | JStr string | JArray | JObject

text \<open>The handler first logs \<open>userPrompt?.substring(0, 100)\<close>. The optional chain stops at
  \<open>undefined\<close> and \<open>null\<close>; on any other value it calls the \<open>substring\<close> property, which only
  a string has, so the call throws a \<open>TypeError\<close> for the rest.\<close>

fun log_prompt_throws :: "jsval \<Rightarrow> bool" where
  "log_prompt_throws JUndefined = False"
| "log_prompt_throws JNull = False"
| "log_prompt_throws (JStr s) = False"
| "log_prompt_throws v = True"

fun js_falsy :: "jsval \<Rightarrow> bool" where
  "js_falsy JUndefined = True"
| "js_falsy JNull = True"
| "js_falsy (JBool b) = (\<not> b)"
| "js_falsy (JNum n) = (n = 0)"
| "js_falsy (JStr s) = (s = [])"
| "js_falsy v = False"

fun typeof_string :: "jsval \<Rightarrow> bool" where
  "typeof_string (JStr s) = True"
| "typeof_string v = False"

record build_body =
  ok_success :: bool
  ok_message :: "string option"
  projectId :: string
  previewUrl :: "string option"
  executionResults :: "exec_entry list"
  toolCallsExecuted :: nat
  hasIndexFile :: bool

datatype http_body = BuildBody build_body | ErrorBody bool string

record http_response =
  status :: nat
  body :: http_body

fun body_success :: "http_body \<Rightarrow> bool" where
  "body_success (BuildBody b) = ok_success b"
| "body_success (ErrorBody ok m) = ok"

definition error_response :: "nat \<Rightarrow> string \<Rightarrow> http_response" where
  "error_response code m = \<lparr>status = code, body = ErrorBody False m\<rparr>"

definition PREVIEW_PORT :: string where
  "PREVIEW_PORT = ''5000''"

text \<open>The \<open>switch\<close> on the tool name, which calls the executor on the parsed arguments:
  \<open>Inl\<close> is what the call throws, \<open>Inr\<close> the value of \<open>toolResult\<close>.\<close>

definition dispatch ::
  "env \<Rightarrow> string option \<Rightarrow> string \<Rightarrow> tool_args option \<Rightarrow> filesystem
     \<Rightarrow> (string + tool_result) \<times> filesystem" where
  "dispatch e currentProjectId n parsed fs =
     (if n = ''ExecuteCommand''
      then call_executor ''command'' (ExecuteCommand e currentProjectId) parsed fs
      else if n = ''WriteFile''
      then call_executor ''path'' (WriteFile e currentProjectId) parsed fs
      else if n = ''ReadFile''
      then call_executor ''path'' (ReadFile e currentProjectId) parsed fs
      else if n = ''ListDirectory''
      then call_executor ''path'' (ListDirectory e currentProjectId) parsed fs
      else (Inr (no_fields\<lparr>success := False, error := Some (''Unknown tool: '' @ n)\<rparr>), fs))"

text \<open>
  One round of the loop over the tool calls: the entries it pushes on \<open>executionResults\<close>
  and the file system it leaves. The inner \<open>try\<close> covers \<open>JSON.parse\<close>, the executor, the
  push of the entry and the follow-up completion; its \<open>catch\<close> pushes an entry with
  \<open>args: null\<close>. So an executor call that throws leaves that entry alone, and a follow-up
  that throws adds a second entry after the first. The entry pushed after the executor
  holds the parsed arguments as they are, \<open>None\<close> when they are \<open>null\<close>.
\<close>

definition caught_entry :: "string \<Rightarrow> string \<Rightarrow> exec_entry" where
  "caught_entry n m =
     \<lparr>tool = n, args = None, result = no_fields\<lparr>success := False, error := Some m\<rparr>\<rparr>"

definition run_call ::
  "env \<Rightarrow> string option \<Rightarrow> tool_call \<Rightarrow> filesystem \<Rightarrow> exec_entry list \<times> filesystem" where
  "run_call e currentProjectId tc fs =
     (let n = call_name tc in
      case JSON_parse e (call_arguments tc) of
        Inl m \<Rightarrow> ([caught_entry n m], fs)
      | Inr parsed \<Rightarrow>
          (case dispatch e currentProjectId n parsed fs of
             (Inl m, fs') \<Rightarrow> ([caught_entry n m], fs')
           | (Inr toolResult, fs') \<Rightarrow>
               let pushed = \<lparr>tool = n, args = parsed, result = toolResult\<rparr> in
               case groq_followUp e tc toolResult of
                 None \<Rightarrow> ([pushed], fs')
               | Some m \<Rightarrow> ([pushed, caught_entry n m], fs')))"

fun run_tool_calls ::
  "env \<Rightarrow> string option \<Rightarrow> tool_call list \<Rightarrow> filesystem \<Rightarrow> exec_entry list
     \<Rightarrow> exec_entry list \<times> filesystem" where
  "run_tool_calls e currentProjectId [] fs results = (results, fs)"
| "run_tool_calls e currentProjectId (tc # tcs) fs results =
     (case run_call e currentProjectId tc fs of
        (pushed, fs') \<Rightarrow> run_tool_calls e currentProjectId tcs fs' (results @ pushed))"

text \<open>
  The handler after validation: project directory, first completion, the loop, the check
  for \<open>index.html\<close> and the response. Whatever is thrown on the way reaches the outer
  \<open>catch\<close>, which answers 500. The time fields of \<open>stats\<close> are left out.
\<close>

definition build_project :: "env \<Rightarrow> string \<Rightarrow> filesystem \<Rightarrow> http_response \<times> filesystem" where
  "build_project e userPrompt fs =
     (let currentProjectId = generateProjectId e;
          projectPath = getProjectPath e currentProjectId
      in case mkdirSync_recursive (process_cwd e) fs projectPath of
           Inl m \<Rightarrow> (error_response 500 m, fs)
         | Inr fs1 \<Rightarrow>
             (case groq_create e userPrompt of
                Inl m \<Rightarrow> (error_response 500 m, fs1)
              | Inr choice \<Rightarrow>
                  let toolCalls = (case choice of None \<Rightarrow> None | Some msg \<Rightarrow> tool_calls msg);
                      looped = (case toolCalls of
                                  None \<Rightarrow> ([], fs1)
                                | Some tcs \<Rightarrow>
                                    if length tcs > 0
                                    then run_tool_calls e (Some currentProjectId) tcs fs1 []
                                    else ([], fs1));
                      fs2 = snd looped;
                      indexPath = path_join projectPath ''index.html'';
                      hasIndex = existsSync (process_cwd e) fs2 indexPath;
                      url = (if hasIndex
                             then Some (''http://localhost:'' @ PREVIEW_PORT @ ''/'' @ currentProjectId @ ''/'')
                             else None)
                  in case choice of
                       None \<Rightarrow>
                         (error_response 500 ''Cannot read properties of undefined (reading message)'', fs2)
                     | Some msg \<Rightarrow>
                         (\<lparr>status = 200,
                           body = BuildBody
                             \<lparr>ok_success = True, ok_message = msg_content msg,
                              projectId = currentProjectId, previewUrl = url,
                              executionResults = fst looped,
                              toolCallsExecuted = (case toolCalls of None \<Rightarrow> 0 | Some tcs \<Rightarrow> length tcs),
                              hasIndexFile = hasIndex\<rparr>\<rparr>, fs2)))"

definition build :: "env \<Rightarrow> jsval \<Rightarrow> filesystem \<Rightarrow> http_response \<times> filesystem" where
  "build e userPrompt fs =
     (if log_prompt_throws userPrompt
      then (error_response 500 ''userPrompt?.substring is not a function'', fs)
      else if js_falsy userPrompt \<or> \<not> typeof_string userPrompt
      then (error_response 400 ''Valid userPrompt is required'', fs)
      else case userPrompt of
             JStr s \<Rightarrow>
               if length s > 2000
               then (error_response 400 ''Prompt too long (max 2000 characters)'', fs)
               else build_project e s fs
           | other \<Rightarrow> (error_response 400 ''Valid userPrompt is required'', fs))"

section \<open>A concrete environment\<close>

text \<open>
  A small environment on which the functions can be run. Its shell knows one command,
  \<open>cat FILE\<close>, which prints the file as a POSIX \<open>cat\<close> does; its \<open>JSON.parse\<close> knows the
  argument texts used below, written here without their quotation marks, and the text
  \<open>null\<close>, and throws on any other text.
\<close>

definition cat_shell :: "string \<Rightarrow> string \<Rightarrow> filesystem \<Rightarrow> (string + string) \<times> filesystem" where
  "cat_shell cmd cwd fs =
     (if startsWith cmd ''cat ''
      then (case readFileSync cwd fs (drop 4 cmd) of
              Inl m \<Rightarrow> (Inl (''Command failed: '' @ cmd), fs)
            | Inr c \<Rightarrow> (Inr c, fs))
      else (Inl (''Command failed: '' @ cmd), fs))"

definition args_curl :: tool_args where
  "args_curl = \<lparr>arg_command = Some ''curl http://evil'', arg_path = None, arg_content = None\<rparr>"

definition args_index :: tool_args where
  "args_index = \<lparr>arg_command = None, arg_path = Some ''index.html'', arg_content = Some ''<!DOCTYPE html>''\<rparr>"

definition args_nested :: tool_args where
  "args_nested = \<lparr>arg_command = None, arg_path = Some ''index.html/a.txt'', arg_content = Some ''x''\<rparr>"

definition demo_parse :: "string \<Rightarrow> string + tool_args option" where
  "demo_parse s =
     (if s = ''{command:curl http://evil}'' then Inr (Some args_curl)
      else if s = ''{path:index.html,content:<!DOCTYPE html>}'' then Inr (Some args_index)
      else if s = ''{path:index.html/a.txt,content:x}'' then Inr (Some args_nested)
      else if s = ''{}'' then Inr (Some \<lparr>arg_command = None, arg_path = None, arg_content = None\<rparr>)
      else if s = ''null'' then Inr None
      else Inl ''Unexpected token in JSON'')"

definition demo_env :: "tool_call list \<Rightarrow> env" where
  "demo_env tcs =
     \<lparr>dirname_js = ''/app'', process_cwd = ''/app'', execSync = cat_shell,
      JSON_parse = demo_parse, Date_now = 7, random_suffix = ''k3x9qa'',
      groq_create = (\<lambda>p. Inr (Some \<lparr>msg_content = Some ''Site built.'', tool_calls = Some tcs\<rparr>)),
      groq_followUp = (\<lambda>tc r. None)\<rparr>"

definition demo_calls :: "tool_call list" where
  "demo_calls =
     [\<lparr>call_id = ''c1'', call_name = ''ExecuteCommand'', call_arguments = ''{command:curl http://evil}''\<rparr>,
      \<lparr>call_id = ''c2'', call_name = ''DeleteFile'', call_arguments = ''{}''\<rparr>,
      \<lparr>call_id = ''c3'', call_name = ''ListDirectory'', call_arguments = ''{path''\<rparr>,
      \<lparr>call_id = ''c4'', call_name = ''WriteFile'',
        call_arguments = ''{path:index.html,content:<!DOCTYPE html>}''\<rparr>]"

definition big_content :: string where
  "big_content = replicate (1024 * 1024 + 1) CHR ''a''"

definition args_bad :: tool_args where
  "args_bad = \<lparr>arg_command = Some ''python x'', arg_path = Some ''missing.txt'',
                arg_content = Some big_content\<rparr>"

definition args_cat_missing :: tool_args where
  "args_cat_missing = \<lparr>arg_command = Some ''cat nofile'', arg_path = None, arg_content = None\<rparr>"

definition over_content :: string where
  "over_content = replicate (1024 * 1024 - 1) CHR ''a'' @ [CHR 0xE9]"

definition args_over :: tool_args where
  "args_over = \<lparr>arg_command = None, arg_path = Some ''index.html'', arg_content = Some over_content\<rparr>"

definition args_cat_passwd :: tool_args where
  "args_cat_passwd = \<lparr>arg_command = Some ''cat /etc/passwd'', arg_path = None, arg_content = None\<rparr>"

definition calls_nested :: "tool_call list" where
  "calls_nested =
     [\<lparr>call_id = ''c1'', call_name = ''WriteFile'', call_arguments = ''{path:index.html/a.txt,content:x}''\<rparr>]"

definition calls_null :: "tool_call list" where
  "calls_null =
     [\<lparr>call_id = ''c1'', call_name = ''ReadFile'', call_arguments = ''null''\<rparr>,
      \<lparr>call_id = ''c2'', call_name = ''ListDirectory'', call_arguments = ''{path''\<rparr>,
      \<lparr>call_id = ''c3'', call_name = ''WriteFile'',
        call_arguments = ''{path:index.html,content:<!DOCTYPE html>}''\<rparr>]"

definition demo_root :: fpath where
  "demo_root = [''app'', ''websites'', ''website_7_k3x9qa'']"

definition demo_built :: filesystem where
  "demo_built = [([''app''], Dir), ([''app'', ''websites''], Dir),
                 ([''etc''], Dir), ([''etc'', ''passwd''], File ''root:x:0:0''),
                 ([''app'', ''websites'', ''website_7_k3x9qa''], Dir)]"

definition demo_fs :: filesystem where
  "demo_fs = [([''app''], Dir), ([''app'', ''websites''], Dir),
              ([''etc''], Dir), ([''etc'', ''passwd''], File ''root:x:0:0'')]"

definition demo_project :: string where
  "demo_project = ''website_7_k3x9qa''"

text \<open>A project directory that holds a page, an argument object with every field, and one
  with none.\<close>

definition demo_site :: filesystem where
  "demo_site = [([''app''], Dir), ([''app'', ''websites''], Dir),
                ([''etc''], Dir), ([''etc'', ''passwd''], File ''root:x:0:0''),
                ([''app'', ''websites'', ''website_7_k3x9qa''], Dir),
                ([''app'', ''websites'', ''website_7_k3x9qa'', ''index.html''], File ''<p>old</p>'')]"

definition args_all :: tool_args where
  "args_all = \<lparr>arg_command = Some ''cat index.html'', arg_path = Some ''index.html'',
                arg_content = Some ''<p>new</p>''\<rparr>"

definition args_none :: tool_args where
  "args_none = \<lparr>arg_command = None, arg_path = None, arg_content = None\<rparr>"

section \<open>Command validation: properties\<close>

lemma split_on_nonempty: "split_on c s \<noteq> []"
  by (induction s) (auto split: list.splits)

lemma hd_split_on: "hd (split_on c s) = takeWhile (\<lambda>x. x \<noteq> c) s"
  using split_on_nonempty [of c] by (induction s) (auto split: list.splits)

lemma commandName_of_takeWhile:
  "commandName_of cmd = takeWhile (\<lambda>x. x \<noteq> CHR '' '') (trim cmd)"
  by (simp add: commandName_of_def hd_split_on)

lemma takeWhile_weaker:
  "(\<And>x. Q x \<Longrightarrow> P x) \<Longrightarrow> takeWhile P xs = takeWhile Q xs @ takeWhile P (dropWhile Q xs)"
  by (induction xs) auto

lemma takeWhile_strip_trailing:
  "takeWhile (\<lambda>c. \<not> P c) (rev (dropWhile P (rev d))) = takeWhile (\<lambda>c. \<not> P c) d"
proof (induction d rule: rev_induct)
  case Nil
  show ?case by simp
next
  case (snoc x d)
  show ?case
  proof (cases "P x")
    case True
    have "takeWhile (\<lambda>c. \<not> P c) (d @ [x]) = takeWhile (\<lambda>c. \<not> P c) d"
      using True by (simp add: takeWhile_tail)
    with snoc True show ?thesis by simp
  next
    case False
    then show ?thesis by simp
  qed
qed

lemma leading_token_trim:
  "leading_token cmd = takeWhile (\<lambda>c. \<not> is_js_space c) (trim cmd)"
  by (simp add: leading_token_def trim_def takeWhile_strip_trailing)

lemma space_is_js_space: "is_js_space CHR '' ''"
  by (simp add: is_js_space_def)

text \<open>The command name extends the leading token by nothing, or by a run that starts with a
  white-space character other than the space.\<close>

lemma commandName_of_leading_token:
  "\<exists>rest. commandName_of cmd = leading_token cmd @ rest \<and>
     (rest = [] \<or> is_js_space (hd rest))"
proof -
  let ?T = "trim cmd"
  let ?rest = "takeWhile (\<lambda>x. x \<noteq> CHR '' '') (dropWhile (\<lambda>c. \<not> is_js_space c) ?T)"
  have "\<And>x. \<not> is_js_space x \<Longrightarrow> x \<noteq> CHR '' ''"
    using space_is_js_space by auto
  then have "commandName_of cmd = leading_token cmd @ ?rest"
    unfolding commandName_of_takeWhile leading_token_trim
    by (rule takeWhile_weaker)
  moreover have "?rest = [] \<or> is_js_space (hd ?rest)"
  proof (cases "dropWhile (\<lambda>c. \<not> is_js_space c) ?T")
    case Nil
    show ?thesis unfolding Nil by simp
  next
    case (Cons y ys)
    then have "is_js_space y"
      using hd_dropWhile [of "\<lambda>c. \<not> is_js_space c" ?T] by auto
    with Cons show ?thesis by auto
  qed
  ultimately show ?thesis by blast
qed

lemma allowed_no_space: "n \<in> set allowedCommands \<Longrightarrow> c \<in> set n \<Longrightarrow> \<not> is_js_space c"
  by (auto simp: allowedCommands_def is_js_space_def)

lemma blocked_not_e: "n \<in> set blockedCommands \<Longrightarrow> n \<noteq> [] \<and> hd n \<noteq> CHR ''e''"
  by (auto simp: blockedCommands_def)

lemma startsWith_echo_hd: "startsWith s ''echo'' \<Longrightarrow> s \<noteq> [] \<and> hd s = CHR ''e''"
  by (cases s) (auto simp: startsWith_def)

lemma blocked_leading_token_rejected:
  assumes "leading_token cmd \<in> set blockedCommands"
  shows "isValidCommand cmd \<noteq> Inr True"
proof -
  obtain rest where cn: "commandName_of cmd = leading_token cmd @ rest"
    and rest: "rest = [] \<or> is_js_space (hd rest)"
    using commandName_of_leading_token by blast
  show ?thesis
  proof (cases "rest = []")
    case True
    with cn assms show ?thesis by (simp add: isValidCommand_def)
  next
    case False
    with rest have "hd rest \<in> set (commandName_of cmd)" "is_js_space (hd rest)"
      using cn by auto
    then have notallowed: "commandName_of cmd \<notin> set allowedCommands"
      using allowed_no_space by blast
    have "leading_token cmd \<noteq> []" "hd (leading_token cmd) \<noteq> CHR ''e''"
      using blocked_not_e [OF assms] by auto
    then have "hd (commandName_of cmd) \<noteq> CHR ''e''"
      using cn by simp
    then have "\<not> startsWith (commandName_of cmd) ''echo''"
      using startsWith_echo_hd by blast
    with notallowed show ?thesis
      by (simp add: isValidCommand_def Let_def)
  qed
qed

text \<open>
  C10. Command validation accepts every command whose first token starts with the four
  characters \<open>echo\<close>: whatever the suffix \<open>s\<close>, a command whose command name is
  \<open>echo\<close> followed by \<open>s\<close> passes \<open>isValidCommand\<close>, although that name is not in the denylist
  and, unless \<open>s\<close> is empty, not in the allowlist either.
\<close>

theorem echo_prefix_accepted:
  assumes "commandName_of cmd = ''echo'' @ s"
  shows "isValidCommand cmd = Inr True \<and> ''echo'' @ s \<notin> set blockedCommands \<and>
         (s \<noteq> [] \<longrightarrow> ''echo'' @ s \<notin> set allowedCommands)"
proof -
  have nb: "''echo'' @ s \<notin> set blockedCommands"
    using blocked_not_e [of "''echo'' @ s"] by auto
  have "startsWith (''echo'' @ s) ''echo''"
    by (simp add: startsWith_def)
  with nb assms have "isValidCommand cmd = Inr True"
    by (simp add: isValidCommand_def)
  moreover have "s \<noteq> [] \<longrightarrow> ''echo'' @ s \<notin> set allowedCommands"
    by (auto simp: allowedCommands_def)
  ultimately show ?thesis using nb by blast
qed

theorem echo_prefix_accepted_witness:
  "commandName_of ''echofoo bar'' = ''echo'' @ ''foo'' \<and>
   isValidCommand ''echofoo bar'' = Inr True \<and>
   ''echofoo'' \<notin> set blockedCommands \<and> ''echofoo'' \<notin> set allowedCommands"
proof -
  have h: "commandName_of ''echofoo bar'' = ''echo'' @ ''foo''"
    by (simp add: commandName_of_def trim_def is_js_space_def)
  show ?thesis using h echo_prefix_accepted [OF h] by simp
qed

section \<open>The loop over the tool calls: properties\<close>

lemma run_tool_calls_append:
  "run_tool_calls e cur (xs @ ys) fs acc =
     (case run_tool_calls e cur xs fs acc of (r, fs') \<Rightarrow> run_tool_calls e cur ys fs' r)"
  by (induction xs arbitrary: fs acc) (auto split: prod.splits)

lemma run_tool_calls_acc:
  "run_tool_calls e cur tcs fs acc =
     (acc @ fst (run_tool_calls e cur tcs fs []), snd (run_tool_calls e cur tcs fs []))"
proof (induction tcs arbitrary: fs acc)
  case Nil
  show ?case by simp
next
  case (Cons tc tcs)
  obtain pushed fs' where rc: "run_call e cur tc fs = (pushed, fs')"
    by (cases "run_call e cur tc fs")
  show ?case
    using Cons.IH [of fs' "acc @ pushed"] Cons.IH [of fs' pushed] rc by simp
qed

lemma run_tool_calls_snoc:
  "fst (run_tool_calls e cur (xs @ [x]) fs []) =
     fst (run_tool_calls e cur xs fs []) @
     fst (run_call e cur x (snd (run_tool_calls e cur xs fs [])))"
proof -
  obtain r fs' where a: "run_tool_calls e cur xs fs [] = (r, fs')"
    by (cases "run_tool_calls e cur xs fs []")
  obtain pushed fs'' where b: "run_call e cur x fs' = (pushed, fs'')"
    by (cases "run_call e cur x fs'")
  show ?thesis
    by (simp add: run_tool_calls_append a b)
qed

text \<open>The entries one round pushes: one for the call, and after it at most one more, from
  the \<open>catch\<close>, when the follow-up throws.\<close>

lemma run_call_shape:
  "\<exists>x rest. fst (run_call e cur tc fs) = x # rest \<and> tool x = call_name tc \<and>
     (rest = [] \<or> (\<exists>m. rest = [caught_entry (call_name tc) m]))"
  by (auto simp: run_call_def Let_def caught_entry_def split: sum.splits prod.splits option.splits)

lemma run_tool_calls_groups:
  "fst (run_tool_calls e cur tcs fs []) =
     concat (map (\<lambda>i. fst (run_call e cur (tcs ! i) (snd (run_tool_calls e cur (take i tcs) fs []))))
               [0..<length tcs])"
proof (induction tcs rule: rev_induct)
  case Nil
  show ?case by simp
next
  case (snoc x xs)
  let ?g = "\<lambda>ys i. fst (run_call e cur (ys ! i) (snd (run_tool_calls e cur (take i ys) fs [])))"
  have eq: "map (?g (xs @ [x])) [0..<length xs] = map (?g xs) [0..<length xs]"
    by (rule map_cong) (simp_all add: nth_append)
  have lst: "?g (xs @ [x]) (length xs) = fst (run_call e cur x (snd (run_tool_calls e cur xs fs [])))"
    by simp
  have "concat (map (?g (xs @ [x])) [0..<length (xs @ [x])])
        = concat (map (?g (xs @ [x])) [0..<length xs]) @ ?g (xs @ [x]) (length xs)"
    by simp
  also have "\<dots> = concat (map (?g xs) [0..<length xs]) @
                  fst (run_call e cur x (snd (run_tool_calls e cur xs fs [])))"
    by (simp only: eq lst)
  also have "\<dots> = fst (run_tool_calls e cur (xs @ [x]) fs [])"
    by (simp only: snoc.IH [symmetric] run_tool_calls_snoc)
  finally show ?case by simp
qed

lemma run_tool_calls_recorded:
  assumes "tc \<in> set tcs"
  shows "\<exists>fs0. set (fst (run_call e cur tc fs0)) \<subseteq> set (fst (run_tool_calls e cur tcs fs []))"
proof -
  from assms obtain i where i: "i < length tcs" "tcs ! i = tc"
    by (auto simp: in_set_conv_nth)
  let ?fs0 = "snd (run_tool_calls e cur (take i tcs) fs [])"
  have "fst (run_call e cur (tcs ! i) ?fs0)
        \<in> set (map (\<lambda>i. fst (run_call e cur (tcs ! i) (snd (run_tool_calls e cur (take i tcs) fs []))))
                 [0..<length tcs])"
    using i by auto
  then have "set (fst (run_call e cur tc ?fs0)) \<subseteq> set (fst (run_tool_calls e cur tcs fs []))"
    unfolding run_tool_calls_groups [of e cur tcs fs] using i by auto
  then show ?thesis by blast
qed


section \<open>The build endpoint: properties\<close>

lemma build_valid_prompt:
  "s \<noteq> [] \<Longrightarrow> length s \<le> 2000 \<Longrightarrow> build e (JStr s) fs = build_project e s fs"
  by (simp add: build_def)

text \<open>Once the project directory is made and the first completion has a message, the
  handler answers 200 whatever the tool calls do.\<close>

lemma build_project_completes:
  assumes mk: "mkdirSync_recursive (process_cwd e) fs (getProjectPath e (generateProjectId e)) = Inr fs1"
    and gc: "groq_create e s = Inr (Some msg)"
  shows "\<exists>b. fst (build_project e s fs) = \<lparr>status = 200, body = BuildBody b\<rparr> \<and> ok_success b \<and>
           executionResults b =
             (case tool_calls msg of None \<Rightarrow> []
              | Some tcs \<Rightarrow> fst (run_tool_calls e (Some (generateProjectId e)) tcs fs1 []))"
proof (cases "tool_calls msg")
  case None
  then show ?thesis
    by (simp add: build_project_def Let_def mk gc)
next
  case (Some tcs)
  then show ?thesis
    by (cases tcs) (simp_all add: build_project_def Let_def mk gc)
qed

text \<open>The state after the first \<open>i + 1\<close> calls is what the round of call \<open>i\<close> leaves.\<close>

lemma run_tool_calls_state_step:
  assumes "i < length tcs"
  shows "snd (run_tool_calls e cur (take (Suc i) tcs) fs []) =
         snd (run_call e cur (tcs ! i) (snd (run_tool_calls e cur (take i tcs) fs [])))"
proof -
  obtain r fs' where a: "run_tool_calls e cur (take i tcs) fs [] = (r, fs')"
    by (cases "run_tool_calls e cur (take i tcs) fs []")
  obtain pushed fs'' where b: "run_call e cur (tcs ! i) fs' = (pushed, fs'')"
    by (cases "run_call e cur (tcs ! i) fs'")
  show ?thesis
    using assms by (simp add: take_Suc_conv_app_nth run_tool_calls_append a b)
qed

text \<open>What one round records, by the outcome of \<open>JSON.parse\<close>: a thrown message, an
  object, or \<open>null\<close>.\<close>

lemma run_call_parse_error:
  "JSON_parse e (call_arguments tc) = Inl m \<Longrightarrow>
   run_call e cur tc fs =
     ([\<lparr>tool = call_name tc, args = None,
        result = no_fields\<lparr>success := False, error := Some m\<rparr>\<rparr>], fs)"
  by (simp add: run_call_def caught_entry_def)

lemma run_call_object:
  assumes "JSON_parse e (call_arguments tc) = Inr (Some a)"
  shows "\<exists>r fs'. (r, fs') =
            (if call_name tc = ''ExecuteCommand'' then ExecuteCommand e cur a fs
             else if call_name tc = ''WriteFile'' then WriteFile e cur a fs
             else if call_name tc = ''ReadFile'' then ReadFile e cur a fs
             else if call_name tc = ''ListDirectory'' then ListDirectory e cur a fs
             else (no_fields\<lparr>success := False,
                              error := Some (''Unknown tool: '' @ call_name tc)\<rparr>, fs)) \<and>
          run_call e cur tc fs =
            (\<lparr>tool = call_name tc, args = Some a, result = r\<rparr> #
             (case groq_followUp e tc r of
                None \<Rightarrow> []
              | Some m \<Rightarrow> [\<lparr>tool = call_name tc, args = None,
                             result = no_fields\<lparr>success := False, error := Some m\<rparr>\<rparr>]), fs')"
  using assms
  by (auto simp: run_call_def dispatch_def call_executor_def caught_entry_def Let_def
           split: prod.splits option.splits)

lemma run_call_null:
  assumes "JSON_parse e (call_arguments tc) = Inr None"
  shows "snd (run_call e cur tc fs) = fs \<and>
         (if call_name tc \<in> {''ExecuteCommand'', ''WriteFile'', ''ReadFile'', ''ListDirectory''}
          then \<exists>m. fst (run_call e cur tc fs) =
                    [\<lparr>tool = call_name tc, args = None,
                      result = no_fields\<lparr>success := False, error := Some m\<rparr>\<rparr>]
          else hd (fst (run_call e cur tc fs)) =
                 \<lparr>tool = call_name tc, args = None,
                  result = no_fields\<lparr>success := False,
                             error := Some (''Unknown tool: '' @ call_name tc)\<rparr>\<rparr>)"
  using assms
  by (auto simp: run_call_def dispatch_def call_executor_def caught_entry_def Let_def
           split: prod.splits option.splits)

text \<open>
  C8. Within one batch of tool calls no failure aborts the loop. The entries recorded are
  the groups \<open>gs ! i\<close>, one for each call and in the order received, and \<open>fss ! i\<close> is the
  file system before call \<open>i\<close>: the one the calls before it left, whether they failed or
  not. Every call is attempted on that file system and has an entry with its tool name.
  When its arguments do not parse, the entry holds \<open>args: null\<close> and the parse message, and
  the file system stays. When they parse to an object, the first entry of the group holds
  the arguments and the result of the executor named by the call, run on \<open>fss ! i\<close> (or the
  unknown-tool result), the file system after the call is the one that executor left, and
  the group has a second entry only when the follow-up completion throws. When they parse
  to \<open>null\<close>, the file system stays and the entry records a failure. When no follow-up
  throws there is exactly one entry for each call.
\<close>

theorem batch_never_aborts:
  "\<exists>gs fss.
     fst (run_tool_calls e cur tcs fs []) = concat gs \<and>
     snd (run_tool_calls e cur tcs fs []) = fss ! length tcs \<and>
     length gs = length tcs \<and> length fss = Suc (length tcs) \<and> fss ! 0 = fs \<and>
     (\<forall>i<length tcs.
        fss ! i = snd (run_tool_calls e cur (take i tcs) fs []) \<and>
        gs ! i = fst (run_call e cur (tcs ! i) (fss ! i)) \<and>
        fss ! Suc i = snd (run_call e cur (tcs ! i) (fss ! i)) \<and>
        gs ! i \<noteq> [] \<and> tool (hd (gs ! i)) = call_name (tcs ! i) \<and>
        (\<forall>m. JSON_parse e (call_arguments (tcs ! i)) = Inl m \<longrightarrow>
           gs ! i = [\<lparr>tool = call_name (tcs ! i), args = None,
                      result = no_fields\<lparr>success := False, error := Some m\<rparr>\<rparr>] \<and>
           fss ! Suc i = fss ! i) \<and>
        (\<forall>a. JSON_parse e (call_arguments (tcs ! i)) = Inr (Some a) \<longrightarrow>
           (\<exists>r. (r, fss ! Suc i) =
                  (if call_name (tcs ! i) = ''ExecuteCommand'' then ExecuteCommand e cur a (fss ! i)
                   else if call_name (tcs ! i) = ''WriteFile'' then WriteFile e cur a (fss ! i)
                   else if call_name (tcs ! i) = ''ReadFile'' then ReadFile e cur a (fss ! i)
                   else if call_name (tcs ! i) = ''ListDirectory'' then ListDirectory e cur a (fss ! i)
                   else (no_fields\<lparr>success := False,
                                    error := Some (''Unknown tool: '' @ call_name (tcs ! i))\<rparr>,
                         fss ! i)) \<and>
                hd (gs ! i) = \<lparr>tool = call_name (tcs ! i), args = Some a, result = r\<rparr> \<and>
                tl (gs ! i) =
                  (case groq_followUp e (tcs ! i) r of
                     None \<Rightarrow> []
                   | Some m \<Rightarrow> [\<lparr>tool = call_name (tcs ! i), args = None,
                                  result = no_fields\<lparr>success := False, error := Some m\<rparr>\<rparr>]))) \<and>
        (JSON_parse e (call_arguments (tcs ! i)) = Inr None \<longrightarrow>
           fss ! Suc i = fss ! i \<and>
           (if call_name (tcs ! i) \<in> {''ExecuteCommand'', ''WriteFile'', ''ReadFile'', ''ListDirectory''}
            then \<exists>m. gs ! i = [\<lparr>tool = call_name (tcs ! i), args = None,
                                 result = no_fields\<lparr>success := False, error := Some m\<rparr>\<rparr>]
            else hd (gs ! i) =
                   \<lparr>tool = call_name (tcs ! i), args = None,
                    result = no_fields\<lparr>success := False,
                               error := Some (''Unknown tool: '' @ call_name (tcs ! i))\<rparr>\<rparr>))) \<and>
     ((\<forall>tc r. groq_followUp e tc r = None) \<longrightarrow> (\<forall>i<length tcs. length (gs ! i) = 1))"
proof -
  let ?st = "\<lambda>i. snd (run_tool_calls e cur (take i tcs) fs [])"
  let ?g = "\<lambda>i. fst (run_call e cur (tcs ! i) (?st i))"
  let ?gs = "map ?g [0..<length tcs]"
  let ?fss = "map ?st [0..<Suc (length tcs)]"
  have st: "?fss ! i = ?st i" if "i \<le> length tcs" for i
    using that nth_map_upt [of i "Suc (length tcs)" 0 ?st] by simp
  have a: "fst (run_tool_calls e cur tcs fs []) = concat ?gs"
    by (rule run_tool_calls_groups)
  have a2: "snd (run_tool_calls e cur tcs fs []) = ?fss ! length tcs"
    using st [of "length tcs"] by simp
  have b: "length ?gs = length tcs" "length ?fss = Suc (length tcs)" by simp_all
  have b0: "?fss ! 0 = fs" using st [of 0] by simp
  have c: "?fss ! i = ?st i \<and>
        ?gs ! i = fst (run_call e cur (tcs ! i) (?fss ! i)) \<and>
        ?fss ! Suc i = snd (run_call e cur (tcs ! i) (?fss ! i)) \<and>
        ?gs ! i \<noteq> [] \<and> tool (hd (?gs ! i)) = call_name (tcs ! i) \<and>
        (\<forall>m. JSON_parse e (call_arguments (tcs ! i)) = Inl m \<longrightarrow>
           ?gs ! i = [\<lparr>tool = call_name (tcs ! i), args = None,
                      result = no_fields\<lparr>success := False, error := Some m\<rparr>\<rparr>] \<and>
           ?fss ! Suc i = ?fss ! i) \<and>
        (\<forall>a. JSON_parse e (call_arguments (tcs ! i)) = Inr (Some a) \<longrightarrow>
           (\<exists>r. (r, ?fss ! Suc i) =
                  (if call_name (tcs ! i) = ''ExecuteCommand'' then ExecuteCommand e cur a (?fss ! i)
                   else if call_name (tcs ! i) = ''WriteFile'' then WriteFile e cur a (?fss ! i)
                   else if call_name (tcs ! i) = ''ReadFile'' then ReadFile e cur a (?fss ! i)
                   else if call_name (tcs ! i) = ''ListDirectory'' then ListDirectory e cur a (?fss ! i)
                   else (no_fields\<lparr>success := False,
                                    error := Some (''Unknown tool: '' @ call_name (tcs ! i))\<rparr>,
                         ?fss ! i)) \<and>
                hd (?gs ! i) = \<lparr>tool = call_name (tcs ! i), args = Some a, result = r\<rparr> \<and>
                tl (?gs ! i) =
                  (case groq_followUp e (tcs ! i) r of
                     None \<Rightarrow> []
                   | Some m \<Rightarrow> [\<lparr>tool = call_name (tcs ! i), args = None,
                                  result = no_fields\<lparr>success := False, error := Some m\<rparr>\<rparr>]))) \<and>
        (JSON_parse e (call_arguments (tcs ! i)) = Inr None \<longrightarrow>
           ?fss ! Suc i = ?fss ! i \<and>
           (if call_name (tcs ! i) \<in> {''ExecuteCommand'', ''WriteFile'', ''ReadFile'', ''ListDirectory''}
            then \<exists>m. ?gs ! i = [\<lparr>tool = call_name (tcs ! i), args = None,
                                 result = no_fields\<lparr>success := False, error := Some m\<rparr>\<rparr>]
            else hd (?gs ! i) =
                   \<lparr>tool = call_name (tcs ! i), args = None,
                    result = no_fields\<lparr>success := False,
                               error := Some (''Unknown tool: '' @ call_name (tcs ! i))\<rparr>\<rparr>))"
    if i: "i < length tcs" for i
  proof -
    have s0: "?fss ! i = ?st i" using st [of i] i by simp
    have s1: "?fss ! Suc i = snd (run_call e cur (tcs ! i) (?st i))"
      using st [of "Suc i"] i run_tool_calls_state_step [OF i, of e cur fs] by simp
    have g: "?gs ! i = fst (run_call e cur (tcs ! i) (?st i))"
      using i by simp
    obtain x rest where sh: "fst (run_call e cur (tcs ! i) (?st i)) = x # rest"
      "tool x = call_name (tcs ! i)"
      using run_call_shape by blast
    have p1: "?gs ! i = [\<lparr>tool = call_name (tcs ! i), args = None,
                      result = no_fields\<lparr>success := False, error := Some m\<rparr>\<rparr>] \<and>
           ?fss ! Suc i = ?fss ! i"
      if "JSON_parse e (call_arguments (tcs ! i)) = Inl m" for m
      unfolding g s1 s0 by (simp add: run_call_parse_error [OF that])
    have p2: "\<exists>r. (r, ?fss ! Suc i) =
                  (if call_name (tcs ! i) = ''ExecuteCommand'' then ExecuteCommand e cur a (?fss ! i)
                   else if call_name (tcs ! i) = ''WriteFile'' then WriteFile e cur a (?fss ! i)
                   else if call_name (tcs ! i) = ''ReadFile'' then ReadFile e cur a (?fss ! i)
                   else if call_name (tcs ! i) = ''ListDirectory'' then ListDirectory e cur a (?fss ! i)
                   else (no_fields\<lparr>success := False,
                                    error := Some (''Unknown tool: '' @ call_name (tcs ! i))\<rparr>,
                         ?fss ! i)) \<and>
                hd (?gs ! i) = \<lparr>tool = call_name (tcs ! i), args = Some a, result = r\<rparr> \<and>
                tl (?gs ! i) =
                  (case groq_followUp e (tcs ! i) r of
                     None \<Rightarrow> []
                   | Some m \<Rightarrow> [\<lparr>tool = call_name (tcs ! i), args = None,
                                  result = no_fields\<lparr>success := False, error := Some m\<rparr>\<rparr>])"
      if pa: "JSON_parse e (call_arguments (tcs ! i)) = Inr (Some a)" for a
    proof -
      obtain r fs' where rf: "(r, fs') =
            (if call_name (tcs ! i) = ''ExecuteCommand'' then ExecuteCommand e cur a (?st i)
             else if call_name (tcs ! i) = ''WriteFile'' then WriteFile e cur a (?st i)
             else if call_name (tcs ! i) = ''ReadFile'' then ReadFile e cur a (?st i)
             else if call_name (tcs ! i) = ''ListDirectory'' then ListDirectory e cur a (?st i)
             else (no_fields\<lparr>success := False,
                              error := Some (''Unknown tool: '' @ call_name (tcs ! i))\<rparr>, ?st i))"
        and rc: "run_call e cur (tcs ! i) (?st i) =
            (\<lparr>tool = call_name (tcs ! i), args = Some a, result = r\<rparr> #
             (case groq_followUp e (tcs ! i) r of
                None \<Rightarrow> []
              | Some m \<Rightarrow> [\<lparr>tool = call_name (tcs ! i), args = None,
                             result = no_fields\<lparr>success := False, error := Some m\<rparr>\<rparr>]), fs')"
        using run_call_object [OF pa, of cur "?st i"] by blast
      show ?thesis
        unfolding g s1 s0 rc using rf by (intro exI [of _ r]) simp
    qed
    have p3: "?fss ! Suc i = ?fss ! i \<and>
           (if call_name (tcs ! i) \<in> {''ExecuteCommand'', ''WriteFile'', ''ReadFile'', ''ListDirectory''}
            then \<exists>m. ?gs ! i = [\<lparr>tool = call_name (tcs ! i), args = None,
                                 result = no_fields\<lparr>success := False, error := Some m\<rparr>\<rparr>]
            else hd (?gs ! i) =
                   \<lparr>tool = call_name (tcs ! i), args = None,
                    result = no_fields\<lparr>success := False,
                               error := Some (''Unknown tool: '' @ call_name (tcs ! i))\<rparr>\<rparr>)"
      if "JSON_parse e (call_arguments (tcs ! i)) = Inr None"
      unfolding g s1 s0 using run_call_null [OF that, of cur "?st i"] by simp
    have p0: "?gs ! i \<noteq> [] \<and> tool (hd (?gs ! i)) = call_name (tcs ! i)"
      unfolding g using sh by simp
    have q: "?gs ! i = fst (run_call e cur (tcs ! i) (?fss ! i))"
      unfolding g s0 ..
    have q2: "?fss ! Suc i = snd (run_call e cur (tcs ! i) (?fss ! i))"
      unfolding s1 s0 ..
    show ?thesis
      using s0 q q2 p0 p1 p2 p3 by blast
  qed
  have d: "length (?gs ! i) = 1" if "\<forall>tc r. groq_followUp e tc r = None" "i < length tcs" for i
    using that by (simp add: run_call_def Let_def split: sum.splits prod.splits)
  show ?thesis
    apply (rule exI [of _ ?gs])
    apply (rule exI [of _ ?fss])
    using a a2 b b0 c d by blast
qed


lemmas model_defs = build_def build_project_def run_call_def dispatch_def call_executor_def
  ExecuteCommand_def ExecuteCommand_try_def WriteFile_def WriteFile_try_def
  ReadFile_def ReadFile_try_def ListDirectory_def ListDirectory_try_def
  fullPath_of_def sanitizePath_def active_project_def
  getProjectPath_def WEBSITES_DIR_def generateProjectId_def path_join_def path_normalize_def
  normalizeString_def nstep_def path_dirname_def path_isAbsolute_def
  existsSync_def fs_stat_def lookup_def os_resolve_def trailing_slash_def
  mkdirSync_recursive_def writeFileSync_def readFileSync_def readdirSync_def
  isValidCommand_def commandName_of_def trim_def is_js_space_def startsWith_def
  allowedCommands_def blockedCommands_def caught_entry_def no_fields_def
  error_response_def PREVIEW_PORT_def Let_def

lemmas demo_defs = demo_env_def demo_parse_def demo_calls_def demo_fs_def demo_project_def
  args_curl_def args_index_def args_nested_def cat_shell_def args_bad_def args_cat_missing_def
  args_over_def args_cat_passwd_def calls_nested_def demo_root_def demo_built_def calls_null_def
  demo_site_def args_all_def args_none_def

theorem batch_never_aborts_witness:
  "(2::nat) < length calls_null \<and>
   JSON_parse (demo_env calls_null) (call_arguments (calls_null ! 0)) = Inr None \<and>
   JSON_parse (demo_env calls_null) (call_arguments (calls_null ! 1)) = Inl ''Unexpected token in JSON'' \<and>
   JSON_parse (demo_env calls_null) (call_arguments (calls_null ! 2)) = Inr (Some args_index) \<and>
   (\<forall>tc r. groq_followUp (demo_env calls_null) tc r = None) \<and>
   (\<exists>gs fss.
      fst (run_tool_calls (demo_env calls_null) (Some demo_project) calls_null demo_built []) = concat gs \<and>
      snd (run_tool_calls (demo_env calls_null) (Some demo_project) calls_null demo_built []) = fss ! 3 \<and>
      length gs = 3 \<and> length (gs ! 0) = 1 \<and> fss ! 0 = demo_built \<and>
      (\<exists>m. gs ! 0 = [\<lparr>tool = ''ReadFile'', args = None,
                         result = no_fields\<lparr>success := False, error := Some m\<rparr>\<rparr>]) \<and>
      fss ! 1 = demo_built \<and>
      gs ! 1 = [\<lparr>tool = ''ListDirectory'', args = None,
                 result = no_fields\<lparr>success := False, error := Some ''Unexpected token in JSON''\<rparr>\<rparr>] \<and>
      fss ! 2 = demo_built \<and>
      gs ! 2 = [\<lparr>tool = ''WriteFile'', args = Some args_index,
                 result = fst (WriteFile (demo_env calls_null) (Some demo_project) args_index demo_built)\<rparr>] \<and>
      fss ! 3 = snd (WriteFile (demo_env calls_null) (Some demo_project) args_index demo_built) \<and>
      success (fst (WriteFile (demo_env calls_null) (Some demo_project) args_index demo_built)) \<and>
      lookup (fss ! 3) (demo_root @ [''index.html'']) = Some (File ''<!DOCTYPE html>''))"
proof -
  let ?e = "demo_env calls_null"
  let ?cur = "Some demo_project"
  have len: "length calls_null = 3"
    by (simp add: calls_null_def)
  have n0: "call_name (calls_null ! 0) = ''ReadFile''"
    and n1: "call_name (calls_null ! 1) = ''ListDirectory''"
    and n2: "call_name (calls_null ! 2) = ''WriteFile''"
    by (simp_all add: calls_null_def)
  have j0: "JSON_parse ?e (call_arguments (calls_null ! 0)) = Inr None"
    and j1: "JSON_parse ?e (call_arguments (calls_null ! 1)) = Inl ''Unexpected token in JSON''"
    and j2: "JSON_parse ?e (call_arguments (calls_null ! 2)) = Inr (Some args_index)"
    by (simp_all add: demo_defs)
  have fu: "groq_followUp ?e tc r = None" for tc r
    by (simp add: demo_env_def)
  have wr: "success (fst (WriteFile ?e ?cur args_index demo_built))"
    and lk: "lookup (snd (WriteFile ?e ?cur args_index demo_built)) (demo_root @ [''index.html''])
               = Some (File ''<!DOCTYPE html>'')"
    by (simp_all add: model_defs demo_defs)
  obtain gs fss where
    cc: "fst (run_tool_calls ?e ?cur calls_null demo_built []) = concat gs"
    and ss: "snd (run_tool_calls ?e ?cur calls_null demo_built []) = fss ! length calls_null"
    and lg: "length gs = length calls_null"
    and f0: "fss ! 0 = demo_built"
    and al: "\<forall>i<length calls_null.
        gs ! i \<noteq> [] \<and>
        (\<forall>m. JSON_parse ?e (call_arguments (calls_null ! i)) = Inl m \<longrightarrow>
           gs ! i = [\<lparr>tool = call_name (calls_null ! i), args = None,
                      result = no_fields\<lparr>success := False, error := Some m\<rparr>\<rparr>] \<and>
           fss ! Suc i = fss ! i) \<and>
        (\<forall>a. JSON_parse ?e (call_arguments (calls_null ! i)) = Inr (Some a) \<longrightarrow>
           (\<exists>r. (r, fss ! Suc i) =
                  (if call_name (calls_null ! i) = ''ExecuteCommand'' then ExecuteCommand ?e ?cur a (fss ! i)
                   else if call_name (calls_null ! i) = ''WriteFile'' then WriteFile ?e ?cur a (fss ! i)
                   else if call_name (calls_null ! i) = ''ReadFile'' then ReadFile ?e ?cur a (fss ! i)
                   else if call_name (calls_null ! i) = ''ListDirectory'' then ListDirectory ?e ?cur a (fss ! i)
                   else (no_fields\<lparr>success := False,
                                    error := Some (''Unknown tool: '' @ call_name (calls_null ! i))\<rparr>,
                         fss ! i)) \<and>
                hd (gs ! i) = \<lparr>tool = call_name (calls_null ! i), args = Some a, result = r\<rparr> \<and>
                tl (gs ! i) =
                  (case groq_followUp ?e (calls_null ! i) r of
                     None \<Rightarrow> []
                   | Some m \<Rightarrow> [\<lparr>tool = call_name (calls_null ! i), args = None,
                                  result = no_fields\<lparr>success := False, error := Some m\<rparr>\<rparr>]))) \<and>
        (JSON_parse ?e (call_arguments (calls_null ! i)) = Inr None \<longrightarrow>
           fss ! Suc i = fss ! i \<and>
           (if call_name (calls_null ! i) \<in> {''ExecuteCommand'', ''WriteFile'', ''ReadFile'', ''ListDirectory''}
            then \<exists>m. gs ! i = [\<lparr>tool = call_name (calls_null ! i), args = None,
                                 result = no_fields\<lparr>success := False, error := Some m\<rparr>\<rparr>]
            else hd (gs ! i) =
                   \<lparr>tool = call_name (calls_null ! i), args = None,
                    result = no_fields\<lparr>success := False,
                               error := Some (''Unknown tool: '' @ call_name (calls_null ! i))\<rparr>\<rparr>))"
    and fl: "(\<forall>tc r. groq_followUp ?e tc r = None) \<longrightarrow> (\<forall>i<length calls_null. length (gs ! i) = 1)"
    using batch_never_aborts [of ?e ?cur calls_null demo_built] by blast
  have i0: "(0::nat) < length calls_null" and i1: "(1::nat) < length calls_null"
    and i2: "(2::nat) < length calls_null"
    using len by simp_all
  from al i0 j0 n0 have a0: "fss ! Suc 0 = fss ! 0"
    and g0: "\<exists>m. gs ! 0 = [\<lparr>tool = ''ReadFile'', args = None,
                         result = no_fields\<lparr>success := False, error := Some m\<rparr>\<rparr>]"
    by auto
  from al i1 j1 n1 have a1: "fss ! Suc 1 = fss ! 1"
    and g1: "gs ! 1 = [\<lparr>tool = ''ListDirectory'', args = None,
                 result = no_fields\<lparr>success := False, error := Some ''Unexpected token in JSON''\<rparr>\<rparr>]"
    by auto
  have s1: "fss ! 1 = demo_built" using a0 f0 by simp
  have s2: "fss ! 2 = demo_built" using a1 s1 by (simp add: numeral_2_eq_2)
  from al i2 j2 have "\<exists>r. (r, fss ! Suc 2) =
                  (if call_name (calls_null ! 2) = ''ExecuteCommand'' then ExecuteCommand ?e ?cur args_index (fss ! 2)
                   else if call_name (calls_null ! 2) = ''WriteFile'' then WriteFile ?e ?cur args_index (fss ! 2)
                   else if call_name (calls_null ! 2) = ''ReadFile'' then ReadFile ?e ?cur args_index (fss ! 2)
                   else if call_name (calls_null ! 2) = ''ListDirectory'' then ListDirectory ?e ?cur args_index (fss ! 2)
                   else (no_fields\<lparr>success := False,
                                    error := Some (''Unknown tool: '' @ call_name (calls_null ! 2))\<rparr>,
                         fss ! 2)) \<and>
                hd (gs ! 2) = \<lparr>tool = call_name (calls_null ! 2), args = Some args_index, result = r\<rparr> \<and>
                tl (gs ! 2) =
                  (case groq_followUp ?e (calls_null ! 2) r of
                     None \<Rightarrow> []
                   | Some m \<Rightarrow> [\<lparr>tool = call_name (calls_null ! 2), args = None,
                                  result = no_fields\<lparr>success := False, error := Some m\<rparr>\<rparr>])"
    by blast
  then obtain r where
    r: "(r, fss ! Suc 2) = WriteFile ?e ?cur args_index demo_built"
    and h: "hd (gs ! 2) = \<lparr>tool = ''WriteFile'', args = Some args_index, result = r\<rparr>"
    and t: "tl (gs ! 2) = []"
    unfolding n2 s2 fu by auto
  from al i2 have ne: "gs ! 2 \<noteq> []" by blast
  have r1: "r = fst (WriteFile ?e ?cur args_index demo_built)"
    and s3: "fss ! 3 = snd (WriteFile ?e ?cur args_index demo_built)"
    using r [symmetric] by (simp_all add: eval_nat_numeral)
  have g2: "gs ! 2 = [\<lparr>tool = ''WriteFile'', args = Some args_index,
                 result = fst (WriteFile ?e ?cur args_index demo_built)\<rparr>]"
    using ne h t r1 by (cases "gs ! 2") simp_all
  have ss3: "snd (run_tool_calls ?e ?cur calls_null demo_built []) = fss ! 3"
    using ss len by simp
  have lg3: "length gs = 3" using lg len by simp
  have fua: "\<forall>tc r. groq_followUp ?e tc r = None" using fu by blast
  have l0: "length (gs ! 0) = 1" using fl fua i0 by blast
  have lk3: "lookup (fss ! 3) (demo_root @ [''index.html'']) = Some (File ''<!DOCTYPE html>'')"
    unfolding s3 by (rule lk)
  have ex: "\<exists>gs fss.
      fst (run_tool_calls ?e ?cur calls_null demo_built []) = concat gs \<and>
      snd (run_tool_calls ?e ?cur calls_null demo_built []) = fss ! 3 \<and>
      length gs = 3 \<and> length (gs ! 0) = 1 \<and> fss ! 0 = demo_built \<and>
      (\<exists>m. gs ! 0 = [\<lparr>tool = ''ReadFile'', args = None,
                         result = no_fields\<lparr>success := False, error := Some m\<rparr>\<rparr>]) \<and>
      fss ! 1 = demo_built \<and>
      gs ! 1 = [\<lparr>tool = ''ListDirectory'', args = None,
                 result = no_fields\<lparr>success := False, error := Some ''Unexpected token in JSON''\<rparr>\<rparr>] \<and>
      fss ! 2 = demo_built \<and>
      gs ! 2 = [\<lparr>tool = ''WriteFile'', args = Some args_index,
                 result = fst (WriteFile ?e ?cur args_index demo_built)\<rparr>] \<and>
      fss ! 3 = snd (WriteFile ?e ?cur args_index demo_built) \<and>
      success (fst (WriteFile ?e ?cur args_index demo_built)) \<and>
      lookup (fss ! 3) (demo_root @ [''index.html'']) = Some (File ''<!DOCTYPE html>'')"
    apply (rule exI [of _ gs])
    apply (rule exI [of _ fss])
    using cc ss3 lg3 l0 f0 g0 s1 g1 s2 g2 s3 wr lk3 by (intro conjI)
  show ?thesis
    using i2 j0 j1 j2 fua ex by (intro conjI)
qed


lemma demo_mkdir:
  "mkdirSync_recursive (process_cwd (demo_env tcs)) demo_fs
     (getProjectPath (demo_env tcs) (generateProjectId (demo_env tcs)))
   = Inr (demo_fs @ [([''app'', ''websites'', ''website_7_k3x9qa''], Dir)])"
  by (simp add: model_defs demo_defs)

lemma demo_groq:
  "groq_create (demo_env tcs) s = Inr (Some \<lparr>msg_content = Some ''Site built.'', tool_calls = Some tcs\<rparr>)"
  by (simp add: demo_env_def)


text \<open>
  C2. A command whose leading token (the first run of characters that are not white space)
  is in the denylist never passes validation, whatever follows the token:
  \<open>isValidCommand\<close> throws or returns false. \<open>ExecuteCommand\<close> then returns a result with
  \<open>success: false\<close> and an error message and leaves the file system as it was, and a build
  whose batch holds such a call still answers 200 with \<open>success: true\<close>, the rejected call
  recorded among its results.
\<close>

theorem denied_command_rejected:
  assumes "leading_token cmd \<in> set blockedCommands"
  shows "isValidCommand cmd \<noteq> Inr True \<and>
         (arg_command a = Some cmd \<longrightarrow>
            (\<exists>m. ExecuteCommand e cur a fs
                  = (no_fields\<lparr>success := False, error := Some m, command := Some cmd\<rparr>, fs))) \<and>
         (s \<noteq> [] \<and> length s \<le> 2000 \<and>
          mkdirSync_recursive (process_cwd e) fs (getProjectPath e (generateProjectId e)) = Inr made \<and>
          groq_create e s = Inr (Some msg) \<and> tool_calls msg = Some tcs \<and> tc \<in> set tcs \<and>
          call_name tc = ''ExecuteCommand'' \<and> JSON_parse e (call_arguments tc) = Inr (Some a) \<and>
          arg_command a = Some cmd \<longrightarrow>
            (\<exists>b m. fst (build e (JStr s) fs) = \<lparr>status = 200, body = BuildBody b\<rparr> \<and> ok_success b \<and>
                  \<lparr>tool = ''ExecuteCommand'', args = Some a,
                   result = no_fields\<lparr>success := False, error := Some m, command := Some cmd\<rparr>\<rparr>
                  \<in> set (executionResults b)))"
proof -
  have v: "isValidCommand cmd \<noteq> Inr True"
    using assms by (rule blocked_leading_token_rejected)
  have ex: "\<exists>m. \<forall>e cur fs. ExecuteCommand e cur a fs
              = (no_fields\<lparr>success := False, error := Some m, command := Some cmd\<rparr>, fs)"
    if "arg_command a = Some cmd"
  proof (cases "isValidCommand cmd")
    case (Inl m)
    with that show ?thesis
      by (intro exI [of _ m]) (simp add: ExecuteCommand_def ExecuteCommand_try_def)
  next
    case (Inr ok)
    with v have "\<not> ok" by auto
    with Inr that show ?thesis
      by (intro exI [of _ "''Command not allowed: '' @ hd (split_on CHR '' '' cmd)"])
         (simp add: ExecuteCommand_def ExecuteCommand_try_def)
  qed
  have bd: "\<exists>b m. fst (build e (JStr s) fs) = \<lparr>status = 200, body = BuildBody b\<rparr> \<and> ok_success b \<and>
              \<lparr>tool = ''ExecuteCommand'', args = Some a,
               result = no_fields\<lparr>success := False, error := Some m, command := Some cmd\<rparr>\<rparr>
              \<in> set (executionResults b)"
    if h: "s \<noteq> []" "length s \<le> 2000"
      "mkdirSync_recursive (process_cwd e) fs (getProjectPath e (generateProjectId e)) = Inr made"
      "groq_create e s = Inr (Some msg)" "tool_calls msg = Some tcs" "tc \<in> set tcs"
      "call_name tc = ''ExecuteCommand''" "JSON_parse e (call_arguments tc) = Inr (Some a)"
      "arg_command a = Some cmd"
  proof -
    let ?cur = "Some (generateProjectId e)"
    let ?rs = "fst (run_tool_calls e ?cur tcs made [])"
    obtain b where b: "fst (build e (JStr s) fs) = \<lparr>status = 200, body = BuildBody b\<rparr>"
      "ok_success b" "executionResults b = ?rs"
      using build_project_completes [OF h(3) h(4)] h(1,2,5)
      by (auto simp: build_valid_prompt)
    obtain m where m: "\<forall>e cur fs. ExecuteCommand e cur a fs
              = (no_fields\<lparr>success := False, error := Some m, command := Some cmd\<rparr>, fs)"
      using ex [OF h(9)] by blast
    obtain fs0 where sub: "set (fst (run_call e ?cur tc fs0)) \<subseteq> set ?rs"
      using run_tool_calls_recorded [OF h(6)] by blast
    have "\<lparr>tool = ''ExecuteCommand'', args = Some a,
            result = no_fields\<lparr>success := False, error := Some m, command := Some cmd\<rparr>\<rparr>
          \<in> set (fst (run_call e ?cur tc fs0))"
      using h(7,8) m by (auto simp: run_call_def dispatch_def call_executor_def Let_def split: option.splits)
    with sub b show ?thesis by auto
  qed
  show ?thesis
    using v ex bd by blast
qed

theorem denied_command_rejected_witness:
  "leading_token ''curl http://evil'' \<in> set blockedCommands \<and>
   isValidCommand ''curl http://evil'' \<noteq> Inr True \<and>
   (\<exists>m. ExecuteCommand (demo_env demo_calls) (Some demo_project) args_curl demo_fs
         = (no_fields\<lparr>success := False, error := Some m, command := Some ''curl http://evil''\<rparr>, demo_fs)) \<and>
   (\<exists>b m. fst (build (demo_env demo_calls) (JStr ''Build a page'') demo_fs)
            = \<lparr>status = 200, body = BuildBody b\<rparr> \<and> ok_success b \<and>
          \<lparr>tool = ''ExecuteCommand'', args = Some args_curl,
           result = no_fields\<lparr>success := False, error := Some m, command := Some ''curl http://evil''\<rparr>\<rparr>
          \<in> set (executionResults b))"
proof -
  have h0: "leading_token ''curl http://evil'' \<in> set blockedCommands"
    by (simp add: leading_token_def is_js_space_def blockedCommands_def)
  have a: "arg_command args_curl = Some ''curl http://evil''"
    by (simp add: args_curl_def)
  have hyps: "''Build a page'' \<noteq> [] \<and> length ''Build a page'' \<le> 2000 \<and>
      mkdirSync_recursive (process_cwd (demo_env demo_calls)) demo_fs
        (getProjectPath (demo_env demo_calls) (generateProjectId (demo_env demo_calls)))
        = Inr (demo_fs @ [([''app'', ''websites'', ''website_7_k3x9qa''], Dir)]) \<and>
      groq_create (demo_env demo_calls) ''Build a page''
        = Inr (Some \<lparr>msg_content = Some ''Site built.'', tool_calls = Some demo_calls\<rparr>) \<and>
      tool_calls \<lparr>msg_content = Some ''Site built.'', tool_calls = Some demo_calls\<rparr> = Some demo_calls \<and>
      demo_calls ! 0 \<in> set demo_calls \<and>
      call_name (demo_calls ! 0) = ''ExecuteCommand'' \<and>
      JSON_parse (demo_env demo_calls) (call_arguments (demo_calls ! 0)) = Inr (Some args_curl) \<and>
      arg_command args_curl = Some ''curl http://evil''"
    using demo_mkdir [of demo_calls] demo_groq [of demo_calls "''Build a page''"] a
    by (simp add: demo_calls_def demo_env_def demo_parse_def)
  note inst = denied_command_rejected [OF h0, where a = args_curl and e = "demo_env demo_calls"
      and s = "''Build a page''" and fs = demo_fs and tc = "demo_calls ! 0" and tcs = demo_calls
      and msg = "\<lparr>msg_content = Some ''Site built.'', tool_calls = Some demo_calls\<rparr>"
      and made = "demo_fs @ [([''app'', ''websites'', ''website_7_k3x9qa''], Dir)]"
      and cur = "Some demo_project"]
  from inst have 1: "isValidCommand ''curl http://evil'' \<noteq> Inr True" by blast
  from inst a have 2: "\<exists>m. ExecuteCommand (demo_env demo_calls) (Some demo_project) args_curl demo_fs
         = (no_fields\<lparr>success := False, error := Some m, command := Some ''curl http://evil''\<rparr>, demo_fs)"
    by blast
  from inst hyps have 3: "\<exists>b m. fst (build (demo_env demo_calls) (JStr ''Build a page'') demo_fs)
            = \<lparr>status = 200, body = BuildBody b\<rparr> \<and> ok_success b \<and>
          \<lparr>tool = ''ExecuteCommand'', args = Some args_curl,
           result = no_fields\<lparr>success := False, error := Some m, command := Some ''curl http://evil''\<rparr>\<rparr>
          \<in> set (executionResults b)"
    by blast
  show ?thesis using h0 1 2 3 by blast
qed

text \<open>
  C6. The build endpoint is meant to answer 400 to every request whose \<open>userPrompt\<close> is
  missing, not a string, empty or longer than 2000 characters. The handler does so for a
  missing, \<open>null\<close>, empty or over-long prompt, and creates no directory. For a prompt that
  is a number it answers 500: the log line before the validation calls \<open>substring\<close> on it
  and throws.
\<close>

theorem build_number_prompt:
  "build e (JNum 123) fs = (error_response 500 ''userPrompt?.substring is not a function'', fs) \<and>
   status (fst (build e (JNum 123) fs)) = 500"
  by (simp add: build_def error_response_def)

text \<open>What the validation does answer with 400, leaving the file system alone.\<close>

lemma build_rejects_bad_prompt:
  "u = JUndefined \<or> u = JNull \<or> u = JStr [] \<or> (\<exists>s. u = JStr s \<and> length s > 2000) \<Longrightarrow>
   status (fst (build e u fs)) = 400 \<and> \<not> body_success (body (fst (build e u fs))) \<and>
   (\<exists>m. body (fst (build e u fs)) = ErrorBody False m \<and> m \<noteq> []) \<and> snd (build e u fs) = fs"
  by (auto simp: build_def error_response_def)

lemma build_non_string_prompt:
  "u = JBool b \<or> u = JNum n \<or> u = JArray \<or> u = JObject \<Longrightarrow>
   status (fst (build e u fs)) = 500 \<and> snd (build e u fs) = fs"
  by (auto simp: build_def error_response_def)

section \<open>The executors: properties\<close>

text \<open>
  On every argument object and every file system the body of each executor returns a
  result object with a success flag, carrying the output, the content or the files when
  the flag is true and an error message when it is false. In particular an invalid command,
  a failed subprocess, over-long content, a missing file and a path that is not a directory
  each give a result with \<open>success: false\<close>.
\<close>

lemma executor_bodies_return_results:
  "(if success (fst (ExecuteCommand e cur a fs))
    then output_r (fst (ExecuteCommand e cur a fs)) \<noteq> None \<and> error (fst (ExecuteCommand e cur a fs)) = None
    else error (fst (ExecuteCommand e cur a fs)) \<noteq> None \<and> output_r (fst (ExecuteCommand e cur a fs)) = None) \<and>
   (if success (fst (WriteFile e cur a fs))
    then size_r (fst (WriteFile e cur a fs)) \<noteq> None \<and> error (fst (WriteFile e cur a fs)) = None
    else error (fst (WriteFile e cur a fs)) \<noteq> None \<and> size_r (fst (WriteFile e cur a fs)) = None) \<and>
   (if success (fst (ReadFile e cur a fs))
    then content (fst (ReadFile e cur a fs)) \<noteq> None \<and> error (fst (ReadFile e cur a fs)) = None
    else error (fst (ReadFile e cur a fs)) \<noteq> None \<and> content (fst (ReadFile e cur a fs)) = None) \<and>
   (if success (fst (ListDirectory e cur a fs))
    then files (fst (ListDirectory e cur a fs)) \<noteq> None \<and> error (fst (ListDirectory e cur a fs)) = None
    else error (fst (ListDirectory e cur a fs)) \<noteq> None \<and> files (fst (ListDirectory e cur a fs)) = None) \<and>
   (arg_command a = Some cmd \<and> isValidCommand cmd \<noteq> Inr True \<longrightarrow>
      \<not> success (fst (ExecuteCommand e cur a fs)) \<and> snd (ExecuteCommand e cur a fs) = fs) \<and>
   (arg_command a = Some cmd \<and> isValidCommand cmd = Inr True \<and>
    fst (execSync e cmd (case active_project cur of Some i \<Rightarrow> getProjectPath e i | None \<Rightarrow> process_cwd e) fs) = Inl m \<longrightarrow>
      \<not> success (fst (ExecuteCommand e cur a fs)) \<and> error (fst (ExecuteCommand e cur a fs)) = Some m) \<and>
   (fullPath_of e cur (arg_path a) = Inr full \<and> arg_content a = Some c \<and> length c > 1024 * 1024 \<longrightarrow>
      WriteFile e cur a fs
        = (no_fields\<lparr>success := False, error := Some ''File content too large (max 1MB)'',
                     path := arg_path a\<rparr>, fs)) \<and>
   (fullPath_of e cur (arg_path a) = Inr full \<and> \<not> existsSync (process_cwd e) fs full \<longrightarrow>
      \<not> success (fst (ReadFile e cur a fs)) \<and> \<not> success (fst (ListDirectory e cur a fs))) \<and>
   (fullPath_of e cur (arg_path a) = Inr full \<and> fs_stat (process_cwd e) fs full \<noteq> Some Dir \<longrightarrow>
      \<not> success (fst (ListDirectory e cur a fs)))"
proof -
  have 1: "if success (fst (ExecuteCommand e cur a fs))
    then output_r (fst (ExecuteCommand e cur a fs)) \<noteq> None \<and> error (fst (ExecuteCommand e cur a fs)) = None
    else error (fst (ExecuteCommand e cur a fs)) \<noteq> None \<and> output_r (fst (ExecuteCommand e cur a fs)) = None"
    by (simp add: ExecuteCommand_def ExecuteCommand_try_def no_fields_def Let_def
          split: option.splits sum.splits prod.splits)
  have 2: "if success (fst (WriteFile e cur a fs))
    then size_r (fst (WriteFile e cur a fs)) \<noteq> None \<and> error (fst (WriteFile e cur a fs)) = None
    else error (fst (WriteFile e cur a fs)) \<noteq> None \<and> size_r (fst (WriteFile e cur a fs)) = None"
    by (simp add: WriteFile_def WriteFile_try_def no_fields_def Let_def
          split: option.splits sum.splits prod.splits)
  have 3: "if success (fst (ReadFile e cur a fs))
    then content (fst (ReadFile e cur a fs)) \<noteq> None \<and> error (fst (ReadFile e cur a fs)) = None
    else error (fst (ReadFile e cur a fs)) \<noteq> None \<and> content (fst (ReadFile e cur a fs)) = None"
    by (simp add: ReadFile_def ReadFile_try_def no_fields_def Let_def
          split: option.splits sum.splits prod.splits)
  have 4: "if success (fst (ListDirectory e cur a fs))
    then files (fst (ListDirectory e cur a fs)) \<noteq> None \<and> error (fst (ListDirectory e cur a fs)) = None
    else error (fst (ListDirectory e cur a fs)) \<noteq> None \<and> files (fst (ListDirectory e cur a fs)) = None"
    by (simp add: ListDirectory_def ListDirectory_try_def no_fields_def Let_def
          split: option.splits sum.splits prod.splits)
  have 5: "arg_command a = Some cmd \<and> isValidCommand cmd \<noteq> Inr True \<longrightarrow>
      \<not> success (fst (ExecuteCommand e cur a fs)) \<and> snd (ExecuteCommand e cur a fs) = fs"
    by (auto simp: ExecuteCommand_def ExecuteCommand_try_def no_fields_def split: sum.splits)
  have 6: "arg_command a = Some cmd \<and> isValidCommand cmd = Inr True \<and>
    fst (execSync e cmd (case active_project cur of Some i \<Rightarrow> getProjectPath e i | None \<Rightarrow> process_cwd e) fs) = Inl m \<longrightarrow>
      \<not> success (fst (ExecuteCommand e cur a fs)) \<and> error (fst (ExecuteCommand e cur a fs)) = Some m"
    by (auto simp: ExecuteCommand_def ExecuteCommand_try_def no_fields_def Let_def
          split: sum.splits prod.splits)
  have 7: "fullPath_of e cur (arg_path a) = Inr full \<and> arg_content a = Some c \<and> length c > 1024 * 1024 \<longrightarrow>
      WriteFile e cur a fs
        = (no_fields\<lparr>success := False, error := Some ''File content too large (max 1MB)'',
                     path := arg_path a\<rparr>, fs)"
    by (simp add: WriteFile_def WriteFile_try_def)
  have 8: "fullPath_of e cur (arg_path a) = Inr full \<and> \<not> existsSync (process_cwd e) fs full \<longrightarrow>
      \<not> success (fst (ReadFile e cur a fs)) \<and> \<not> success (fst (ListDirectory e cur a fs))"
    by (auto simp: ReadFile_def ReadFile_try_def ListDirectory_def ListDirectory_try_def
          no_fields_def fullPath_of_def Let_def split: option.splits sum.splits)
  have 9: "fullPath_of e cur (arg_path a) = Inr full \<and> fs_stat (process_cwd e) fs full \<noteq> Some Dir \<longrightarrow>
      \<not> success (fst (ListDirectory e cur a fs))"
    by (auto simp: ListDirectory_def ListDirectory_try_def
          no_fields_def fullPath_of_def Let_def split: option.splits sum.splits)
  show ?thesis
    using 1 2 3 4 5 6 7 8 9 by (intro conjI)
qed

lemma length_big_content: "length big_content = 1024 * 1024 + 1"
  unfolding big_content_def by (simp only: length_replicate)

lemma demo_fullPath_missing:
  "fullPath_of (demo_env tcs) (Some demo_project) (Some ''missing.txt'')
     = Inr ''/app/websites/website_7_k3x9qa/missing.txt''"
  by (simp add: model_defs demo_defs)

lemma executor_bodies_return_results_demo:
  "isValidCommand ''python x'' \<noteq> Inr True \<and>
   \<not> success (fst (ExecuteCommand (demo_env []) (Some demo_project) args_bad demo_fs)) \<and>
   snd (ExecuteCommand (demo_env []) (Some demo_project) args_bad demo_fs) = demo_fs \<and>
   length big_content > 1024 * 1024 \<and>
   WriteFile (demo_env []) (Some demo_project) args_bad demo_fs
     = (no_fields\<lparr>success := False, error := Some ''File content too large (max 1MB)'',
                  path := Some ''missing.txt''\<rparr>, demo_fs) \<and>
   \<not> existsSync ''/app'' demo_fs ''/app/websites/website_7_k3x9qa/missing.txt'' \<and>
   \<not> success (fst (ReadFile (demo_env []) (Some demo_project) args_bad demo_fs)) \<and>
   \<not> success (fst (ListDirectory (demo_env []) (Some demo_project) args_bad demo_fs)) \<and>
   isValidCommand ''cat nofile'' = Inr True \<and>
   error (fst (ExecuteCommand (demo_env []) (Some demo_project) args_cat_missing demo_fs))
     = Some ''Command failed: cat nofile''"
proof -
  have a1: "arg_command args_bad = Some ''python x''" "arg_path args_bad = Some ''missing.txt''"
    "arg_content args_bad = Some big_content"
    by (simp_all add: args_bad_def)
  have v1: "isValidCommand ''python x'' \<noteq> Inr True"
    by (simp add: model_defs)
  have big: "length big_content > 1024 * 1024"
    by (simp add: length_big_content)
  have cw: "process_cwd (demo_env []) = ''/app''"
    by (simp add: demo_env_def)
  have ne: "\<not> existsSync ''/app'' demo_fs ''/app/websites/website_7_k3x9qa/missing.txt''"
    by (simp add: model_defs demo_defs)
  have fsd: "fs_stat ''/app'' demo_fs ''/app/websites/website_7_k3x9qa/missing.txt'' \<noteq> Some Dir"
    by (simp add: model_defs demo_defs)
  note A = executor_bodies_return_results [where e = "demo_env []" and cur = "Some demo_project"
      and a = args_bad and fs = demo_fs and cmd = "''python x''" and c = big_content
      and full = "''/app/websites/website_7_k3x9qa/missing.txt''"]
  have a2: "arg_command args_cat_missing = Some ''cat nofile''"
    by (simp add: args_cat_missing_def)
  have v2: "isValidCommand ''cat nofile'' = Inr True"
    by (simp add: model_defs)
  have ex: "fst (execSync (demo_env []) ''cat nofile''
              (case active_project (Some demo_project) of
                 Some i \<Rightarrow> getProjectPath (demo_env []) i | None \<Rightarrow> process_cwd (demo_env [])) demo_fs)
            = Inl ''Command failed: cat nofile''"
    by (simp add: model_defs demo_defs)
  note B = executor_bodies_return_results [where e = "demo_env []" and cur = "Some demo_project"
      and a = args_cat_missing and fs = demo_fs and cmd = "''cat nofile''"
      and m = "''Command failed: cat nofile''"]
  from A a1 v1 have c5: "\<not> success (fst (ExecuteCommand (demo_env []) (Some demo_project) args_bad demo_fs)) \<and>
      snd (ExecuteCommand (demo_env []) (Some demo_project) args_bad demo_fs) = demo_fs"
    by blast
  from A a1 big demo_fullPath_missing [of "[]"]
  have c7: "WriteFile (demo_env []) (Some demo_project) args_bad demo_fs
     = (no_fields\<lparr>success := False, error := Some ''File content too large (max 1MB)'',
                  path := Some ''missing.txt''\<rparr>, demo_fs)"
    by simp
  from A a1 ne cw demo_fullPath_missing [of "[]"]
  have c8: "\<not> success (fst (ReadFile (demo_env []) (Some demo_project) args_bad demo_fs)) \<and>
      \<not> success (fst (ListDirectory (demo_env []) (Some demo_project) args_bad demo_fs))"
    by simp
  from B a2 v2 ex
  have c6: "error (fst (ExecuteCommand (demo_env []) (Some demo_project) args_cat_missing demo_fs))
     = Some ''Command failed: cat nofile''"
    by blast
  show ?thesis
    using v1 c5 big c7 ne c8 v2 c6 by blast
qed

text \<open>
  C5. The four executors are meant never to let an exception out of the call. Each one
  binds its parameter pattern before its \<open>try\<close> block is entered, so a call whose argument
  is \<open>null\<close> throws a \<open>TypeError\<close> out of the executor instead of returning a result object.
  The loop over the tool calls reaches such a call when the model sends the argument text
  \<open>null\<close>, which \<open>JSON.parse\<close> accepts; there the \<open>catch\<close> of the loop records the message.
\<close>

theorem executor_call_throws_on_null:
  "call_executor ''command'' (ExecuteCommand e cur) None fs
     = (Inl ''Cannot destructure property command of object as it is null.'', fs) \<and>
   call_executor ''path'' (WriteFile e cur) None fs
     = (Inl ''Cannot destructure property path of object as it is null.'', fs) \<and>
   call_executor ''path'' (ReadFile e cur) None fs
     = (Inl ''Cannot destructure property path of object as it is null.'', fs) \<and>
   call_executor ''path'' (ListDirectory e cur) None fs
     = (Inl ''Cannot destructure property path of object as it is null.'', fs) \<and>
   dispatch e cur ''ExecuteCommand'' None fs
     = (Inl ''Cannot destructure property command of object as it is null.'', fs) \<and>
   dispatch e cur ''WriteFile'' None fs
     = (Inl ''Cannot destructure property path of object as it is null.'', fs) \<and>
   dispatch e cur ''ReadFile'' None fs
     = (Inl ''Cannot destructure property path of object as it is null.'', fs) \<and>
   dispatch e cur ''ListDirectory'' None fs
     = (Inl ''Cannot destructure property path of object as it is null.'', fs) \<and>
   JSON_parse (demo_env calls_null) (call_arguments (calls_null ! 0)) = Inr None \<and>
   call_name (calls_null ! 0) = ''ReadFile'' \<and>
   run_call (demo_env calls_null) (Some demo_project) (calls_null ! 0) demo_built
     = ([\<lparr>tool = ''ReadFile'', args = None,
          result = no_fields\<lparr>success := False,
                     error := Some ''Cannot destructure property path of object as it is null.''\<rparr>\<rparr>],
        demo_built)"
  by (simp add: call_executor_def dispatch_def run_call_def caught_entry_def
        demo_env_def demo_parse_def calls_null_def)

section \<open>Paths: properties\<close>

lemma startsWith_prefix: "startsWith s p = prefix p s"
  unfolding startsWith_def prefix_def
  by (metis append_eq_conv_conj)

lemma includes_str_sublist: "includes_str s sub = sublist sub s"
  by (induction s) (auto simp: startsWith_prefix sublist_Cons_right)

lemma hd_split_on_prefix: "prefix (hd (split_on c s)) s"
  by (simp add: hd_split_on takeWhile_is_prefix)

lemma split_on_sublist: "w \<in> set (split_on c s) \<Longrightarrow> sublist w s"
proof (induction s arbitrary: w)
  case Nil
  then show ?case by simp
next
  case (Cons x xs)
  show ?case
  proof (cases "x = c")
    case True
    with Cons show ?thesis by (auto simp: sublist_Cons_right)
  next
    case False
    obtain v vs where sp: "split_on c xs = v # vs"
      using split_on_nonempty [of c xs] by (cases "split_on c xs") auto
    have pv: "prefix v xs" using hd_split_on_prefix [of c xs] sp by simp
    from Cons.prems False sp have "w = x # v \<or> w \<in> set vs" by auto
    then show ?thesis
    proof
      assume "w = x # v"
      with pv show ?thesis by (simp add: prefix_imp_sublist)
    next
      assume "w \<in> set vs"
      with sp Cons.IH [of w] show ?thesis by (auto simp: sublist_Cons_right)
    qed
  qed
qed

lemma split_on_no_sep: "w \<in> set (split_on c s) \<Longrightarrow> c \<notin> set w"
  by (induction s arbitrary: w) (auto split: if_splits list.splits)

lemma path_normalize_nonempty: "path_normalize p \<noteq> []"
  by (auto simp: path_normalize_def Let_def)

lemma path_normalize_absolute: "path_isAbsolute p \<Longrightarrow> path_isAbsolute (path_normalize p)"
  by (auto simp: path_normalize_def path_isAbsolute_def Let_def)


lemma join_with_snoc: "xs \<noteq> [] \<Longrightarrow> join_with sep (xs @ [x]) = join_with sep xs @ sep @ x"
  by (induction sep xs rule: join_with.induct) auto

lemma split_on_append: "split_on c (a @ c # b) = split_on c a @ split_on c b"
proof (induction a)
  case Nil
  show ?case by simp
next
  case (Cons x xs)
  obtain v vs where "split_on c xs = v # vs"
    using split_on_nonempty [of c xs] by (cases "split_on c xs") auto
  with Cons show ?case by auto
qed

lemma split_on_no_sep_id: "c \<notin> set w \<Longrightarrow> split_on c w = [w]"
  by (induction w) auto

lemma split_on_join:
  "xs \<noteq> [] \<Longrightarrow> \<forall>x\<in>set xs. c \<notin> set x \<Longrightarrow> split_on c (join_with [c] xs) = xs"
proof (induction xs rule: rev_induct)
  case Nil
  then show ?case by simp
next
  case (snoc x xs)
  show ?case
  proof (cases "xs = []")
    case True
    with snoc.prems show ?thesis by (simp add: split_on_no_sep_id)
  next
    case False
    with snoc have "split_on c (join_with [c] xs) = xs" by simp
    moreover have "join_with [c] (xs @ [x]) = join_with [c] xs @ c # x"
      using False by (simp add: join_with_snoc)
    ultimately show ?thesis
      using snoc.prems by (simp add: split_on_append split_on_no_sep_id)
  qed
qed

lemma join_with_empty_iff:
  "\<forall>x\<in>set xs. x \<noteq> [] \<Longrightarrow> (join_with sep xs = []) = (xs = [])"
  by (induction sep xs rule: join_with.induct) auto

lemma hd_join_with:
  "xs \<noteq> [] \<Longrightarrow> hd xs \<noteq> [] \<Longrightarrow> hd (join_with sep xs) = hd (hd xs)"
  by (induction sep xs rule: join_with.induct) auto

text \<open>Segments that name an entry.\<close>

lemma nstep_entry: "s \<noteq> [] \<Longrightarrow> s \<noteq> ''.'' \<Longrightarrow> s \<noteq> ''..'' \<Longrightarrow> nstep b res s = res @ [s]"
  by (simp add: nstep_def)

lemma nstep_pop: "res \<noteq> [] \<Longrightarrow> last res \<noteq> ''..'' \<Longrightarrow> nstep b res ''..'' = butlast res"
  by (simp add: nstep_def)

lemma nstep_skip: "s = [] \<or> s = ''.'' \<Longrightarrow> nstep b res s = res"
  by (auto simp: nstep_def)

lemma foldl_nstep_no_dotdot:
  "''..'' \<notin> set ys \<Longrightarrow>
   foldl (nstep b) acc ys = acc @ filter (\<lambda>s. s \<noteq> [] \<and> s \<noteq> ''.'') ys"
  by (induction ys arbitrary: acc) (auto simp: nstep_def)

lemma nstep_set: "set (nstep b res s) \<subseteq> set res \<union> {s}"
  by (auto simp: nstep_def dest: in_set_butlastD)

lemma foldl_nstep_set: "set (foldl (nstep b) acc xs) \<subseteq> set acc \<union> set xs"
proof (induction xs arbitrary: acc)
  case Nil
  show ?case by simp
next
  case (Cons x xs)
  show ?case using Cons [of "nstep b acc x"] nstep_set [of b acc x] by auto
qed

lemma nstep_nonempty_segs:
  "\<forall>s\<in>set res. s \<noteq> [] \<and> s \<noteq> ''.'' \<Longrightarrow> \<forall>s\<in>set (nstep b res x). s \<noteq> [] \<and> s \<noteq> ''.''"
  by (auto simp: nstep_def dest: in_set_butlastD)

lemma foldl_nstep_nonempty_segs:
  "\<forall>s\<in>set acc. s \<noteq> [] \<and> s \<noteq> ''.'' \<Longrightarrow>
   \<forall>s\<in>set (foldl (nstep b) acc xs). s \<noteq> [] \<and> s \<noteq> ''.''"
proof (induction xs arbitrary: acc)
  case Nil
  then show ?case by simp
next
  case (Cons x xs)
  show ?case
    using Cons.IH [OF nstep_nonempty_segs [OF Cons.prems, of b x]] by simp
qed

lemma nstep_False_no_dotdot:
  "''..'' \<notin> set res \<Longrightarrow> ''..'' \<notin> set (nstep False res x)"
  by (auto simp: nstep_def dest: in_set_butlastD)

lemma foldl_nstep_False_no_dotdot:
  "''..'' \<notin> set acc \<Longrightarrow> ''..'' \<notin> set (foldl (nstep False) acc xs)"
proof (induction xs arbitrary: acc)
  case Nil
  then show ?case by simp
next
  case (Cons x xs)
  show ?case
    using Cons.IH [OF nstep_False_no_dotdot [OF Cons.prems, of x]] by simp
qed

text \<open>Resolving a path that was normalised with \<open>..\<close> kept gives what resolving the
  path itself gives.\<close>

lemma foldl_nstep_normalized:
  "foldl (nstep False) acc (foldl (nstep True) [] xs) = foldl (nstep False) acc xs"
proof (induction xs rule: rev_induct)
  case Nil
  show ?case by simp
next
  case (snoc x xs)
  let ?N = "foldl (nstep True) [] xs"
  have shape: "\<forall>s\<in>set ?N. s \<noteq> [] \<and> s \<noteq> ''.''"
    by (rule foldl_nstep_nonempty_segs) simp
  show ?case
  proof (cases "x = ''..'' \<and> ?N \<noteq> [] \<and> last ?N \<noteq> ''..''")
    case True
    then obtain M l where N: "?N = M @ [l]" and l: "l \<noteq> ''..''"
      by (metis append_butlast_last_id)
    with shape have l': "l \<noteq> []" "l \<noteq> ''.''" by auto
    have e1: "foldl (nstep False) acc xs = foldl (nstep False) acc M @ [l]"
      using snoc N l l' by (simp add: nstep_entry)
    have e2: "nstep True ?N x = M"
      using True N by (simp add: nstep_pop)
    have e3: "nstep False (foldl (nstep False) acc xs) x = foldl (nstep False) acc M"
      using True l by (simp add: e1 nstep_pop)
    show ?thesis
      by (simp only: foldl_append foldl.simps e2 e3)
  next
    case False
    then have "nstep True ?N x = ?N @ [x] \<or> nstep True ?N x = ?N \<and> (x = [] \<or> x = ''.'')"
      by (auto simp: nstep_def)
    then show ?thesis
    proof
      assume "nstep True ?N x = ?N @ [x]"
      with snoc show ?thesis by simp
    next
      assume a: "nstep True ?N x = ?N \<and> (x = [] \<or> x = ''.'')"
      then have "nstep False (foldl (nstep False) acc xs) x = foldl (nstep False) acc xs"
        by (auto simp: nstep_def)
      with a snoc show ?thesis by simp
    qed
  qed
qed


lemma foldl_nstep_no_sep:
  "w \<in> set (foldl (nstep b) [] (split_on c p)) \<Longrightarrow> c \<notin> set w"
  using foldl_nstep_set [of b "[]" "split_on c p"] split_on_no_sep [of w c p] by auto

lemma foldl_nstep_segs_nonempty:
  "w \<in> set (foldl (nstep b) [] xs) \<Longrightarrow> w \<noteq> [] \<and> w \<noteq> ''.''"
  using foldl_nstep_nonempty_segs [of "[]" b xs] by simp

lemma path_normalize_absolute_form:
  assumes "p \<noteq> []" and "hd p = CHR ''/''"
  shows "path_normalize p =
     (let X = foldl (nstep False) [] (split_on CHR ''/'' p) in
      if X = [] then ''/''
      else CHR ''/'' # join_with ''/'' X @ (if last p = CHR ''/'' then ''/'' else []))"
proof -
  let ?X = "foldl (nstep False) [] (split_on CHR ''/'' p)"
  have "(join_with ''/'' ?X = []) = (?X = [])"
    by (rule join_with_empty_iff) (use foldl_nstep_segs_nonempty in blast)
  with assms show ?thesis
    by (simp add: path_normalize_def normalizeString_def Let_def)
qed

lemma path_normalize_relative_form:
  assumes "p \<noteq> []" and "hd p \<noteq> CHR ''/''"
  shows "path_normalize p =
     (let X = foldl (nstep True) [] (split_on CHR ''/'' p) in
      if X = [] then (if last p = CHR ''/'' then ''./'' else ''.'')
      else join_with ''/'' X @ (if last p = CHR ''/'' then ''/'' else []))"
proof -
  let ?X = "foldl (nstep True) [] (split_on CHR ''/'' p)"
  have "(join_with ''/'' ?X = []) = (?X = [])"
    by (rule join_with_empty_iff) (use foldl_nstep_segs_nonempty in blast)
  with assms show ?thesis
    by (simp add: path_normalize_def normalizeString_def Let_def)
qed

lemma split_join_segments:
  assumes "X = foldl (nstep b) [] (split_on CHR ''/'' p)" and "X \<noteq> []"
  shows "split_on CHR ''/'' (join_with ''/'' X) = X"
    and "split_on CHR ''/'' (join_with ''/'' X @ ''/'') = X @ [[]]"
proof -
  have ns: "\<forall>x\<in>set X. CHR ''/'' \<notin> set x"
    using assms(1) foldl_nstep_no_sep by blast
  show a: "split_on CHR ''/'' (join_with ''/'' X) = X"
    using split_on_join [OF assms(2) ns] by simp
  show "split_on CHR ''/'' (join_with ''/'' X @ ''/'') = X @ [[]]"
    using split_on_append [of "CHR ''/''" "join_with ''/'' X" "[]"] a by simp
qed

lemma foldl_nstep_entries:
  "foldl (nstep False) acc (foldl (nstep False) [] xs) = acc @ foldl (nstep False) [] xs"
proof -
  let ?X = "foldl (nstep False) [] xs"
  have nd: "''..'' \<notin> set ?X"
    by (rule foldl_nstep_False_no_dotdot) simp
  have "filter (\<lambda>s. s \<noteq> [] \<and> s \<noteq> ''.'') ?X = ?X"
    using foldl_nstep_segs_nonempty [of _ False xs] by (simp add: filter_id_conv)
  with foldl_nstep_no_dotdot [OF nd, of False acc] show ?thesis by simp
qed

lemma resolve_normalize_absolute:
  assumes "p \<noteq> []" and "hd p = CHR ''/''"
  shows "foldl (nstep False) [] (split_on CHR ''/'' (path_normalize p))
         = foldl (nstep False) [] (split_on CHR ''/'' p)"
proof -
  let ?X = "foldl (nstep False) [] (split_on CHR ''/'' p)"
  show ?thesis
  proof (cases "?X = []")
    case True
    then show ?thesis
      using assms by (simp add: path_normalize_absolute_form nstep_def)
  next
    case False
    have sj: "split_on CHR ''/'' (join_with ''/'' ?X) = ?X"
      "split_on CHR ''/'' (join_with ''/'' ?X @ ''/'') = ?X @ [[]]"
      using split_join_segments [OF refl False] by auto
    have pre: "split_on CHR ''/'' (CHR ''/'' # s) = [] # split_on CHR ''/'' s" for s
      by simp
    have "foldl (nstep False) [] ?X = ?X"
      using foldl_nstep_entries [of "[]" "split_on CHR ''/'' p"] by simp
    then show ?thesis
      using assms False sj
      by (simp add: path_normalize_absolute_form Let_def nstep_skip del: split_on.simps add: pre)
  qed
qed

lemma resolve_normalize_relative:
  assumes "p \<noteq> []" and "hd p \<noteq> CHR ''/''"
  shows "foldl (nstep False) acc (split_on CHR ''/'' (path_normalize p))
         = foldl (nstep False) acc (split_on CHR ''/'' p)"
proof -
  let ?X = "foldl (nstep True) [] (split_on CHR ''/'' p)"
  have key: "foldl (nstep False) acc ?X = foldl (nstep False) acc (split_on CHR ''/'' p)"
    by (rule foldl_nstep_normalized)
  show ?thesis
  proof (cases "?X = []")
    case True
    with key have "foldl (nstep False) acc (split_on CHR ''/'' p) = acc" by simp
    with True show ?thesis
      using assms by (simp add: path_normalize_relative_form nstep_def)
  next
    case False
    have sj: "split_on CHR ''/'' (join_with ''/'' ?X) = ?X"
      "split_on CHR ''/'' (join_with ''/'' ?X @ ''/'') = ?X @ [[]]"
      using split_join_segments [OF refl False] by auto
    show ?thesis
      using assms False sj key
      by (simp add: path_normalize_relative_form Let_def nstep_skip del: split_on.simps)
  qed
qed

lemma path_normalize_isAbsolute: "path_isAbsolute (path_normalize p) = path_isAbsolute p"
proof (cases "p = []")
  case True
  then show ?thesis by (simp add: path_normalize_def path_isAbsolute_def)
next
  case False
  show ?thesis
  proof (cases "hd p = CHR ''/''")
    case True
    with False show ?thesis
      by (simp add: path_normalize_absolute_form path_isAbsolute_def Let_def)
  next
    case rel: False
    let ?X = "foldl (nstep True) [] (split_on CHR ''/'' p)"
    have "hd (join_with ''/'' ?X) \<noteq> CHR ''/''" if "?X \<noteq> []"
    proof -
      have "hd ?X \<in> set ?X" using that by simp
      then have "hd ?X \<noteq> []" "CHR ''/'' \<notin> set (hd ?X)"
        using foldl_nstep_segs_nonempty foldl_nstep_no_sep by blast+
      then have "hd (hd ?X) \<noteq> CHR ''/''"
        by (metis hd_in_set)
      with that \<open>hd ?X \<noteq> []\<close> show ?thesis by (simp add: hd_join_with)
    qed
    moreover have "join_with ''/'' ?X \<noteq> []" if "?X \<noteq> []"
      using that join_with_empty_iff [of ?X "''/''"] foldl_nstep_segs_nonempty by blast
    ultimately show ?thesis
      using False rel
      by (auto simp: path_normalize_relative_form path_isAbsolute_def Let_def)
  qed
qed

lemma os_resolve_alt:
  "os_resolve cwd p =
     foldl (nstep False)
       (if path_isAbsolute p then [] else foldl (nstep False) [] (split_on CHR ''/'' cwd))
       (split_on CHR ''/'' p)"
  by (simp add: os_resolve_def split_on_append del: split_on.simps)

lemma os_resolve_normalize: "os_resolve cwd (path_normalize p) = os_resolve cwd p"
proof (cases "p = []")
  case True
  then show ?thesis
    by (simp add: os_resolve_alt path_normalize_def path_isAbsolute_def nstep_def)
next
  case False
  show ?thesis
  proof (cases "hd p = CHR ''/''")
    case True
    with False show ?thesis
      unfolding os_resolve_alt path_normalize_isAbsolute
      by (simp add: path_isAbsolute_def resolve_normalize_absolute del: split_on.simps)
  next
    case rel: False
    with False show ?thesis
      unfolding os_resolve_alt path_normalize_isAbsolute
      by (simp add: resolve_normalize_relative del: split_on.simps)
  qed
qed

lemma path_join_nonempty: "path_join a b \<noteq> []"
  by (simp add: path_join_def Let_def path_normalize_nonempty)

text \<open>Joining onto a directory resolves to the directory's segments followed by what the
  second path adds.\<close>

lemma os_resolve_join:
  assumes "a \<noteq> []"
  shows "os_resolve cwd (path_join a b) = foldl (nstep False) (os_resolve cwd a) (split_on CHR ''/'' b)"
proof (cases "b = []")
  case True
  with assms show ?thesis
    by (simp add: path_join_def os_resolve_normalize nstep_def)
next
  case False
  have abs: "path_isAbsolute (a @ ''/'' @ b) = path_isAbsolute a"
    using assms by (simp add: path_isAbsolute_def)
  have "os_resolve cwd (path_join a b) = os_resolve cwd (a @ ''/'' @ b)"
    using assms False by (simp add: path_join_def os_resolve_normalize)
  also have "\<dots> = foldl (nstep False) (os_resolve cwd a) (split_on CHR ''/'' b)"
    unfolding os_resolve_alt abs
    by (simp add: split_on_append del: split_on.simps)
  finally show ?thesis .
qed


lemma dropWhile_append_all: "\<forall>x\<in>set xs. P x \<Longrightarrow> dropWhile P (xs @ ys) = dropWhile P ys"
  by (induction xs) auto

lemma path_dirname_form:
  assumes z: "z \<noteq> []" "CHR ''/'' \<notin> set z" and Y: "\<forall>y\<in>set Y. y \<noteq> []"
    and t: "t = [] \<or> t = ''/''"
  shows "path_dirname (CHR ''/'' # join_with ''/'' (Y @ [z]) @ t)
         = (if Y = [] then ''/'' else CHR ''/'' # join_with ''/'' Y)"
proof -
  define pre where "pre = (if Y = [] then [] else join_with ''/'' Y @ ''/'')"
  define p where "p = CHR ''/'' # join_with ''/'' (Y @ [z]) @ t"
  have J: "join_with ''/'' (Y @ [z]) = pre @ z"
    by (simp add: join_with_snoc pre_def)
  have p: "p = CHR ''/'' # pre @ z @ t"
    by (simp only: p_def J append_assoc)
  have pne: "p \<noteq> []" "hd p = CHR ''/''" "tl p = pre @ z @ t"
    by (simp_all add: p)
  have pre_cases: "pre = [] \<or> (\<exists>w. pre = w @ ''/'' \<and> w \<noteq> [] \<and> w = join_with ''/'' Y \<and> Y \<noteq> [])"
  proof (cases "Y = []")
    case True
    then show ?thesis by (simp add: pre_def)
  next
    case False
    then have "join_with ''/'' Y \<noteq> []"
      using Y join_with_empty_iff [of Y "''/''"] by blast
    with False show ?thesis by (simp add: pre_def)
  qed
  have d1: "dropWhile (\<lambda>c. c = CHR ''/'') (rev t @ rev z @ rev pre) = rev z @ rev pre"
  proof -
    have "hd (rev z) \<noteq> CHR ''/''"
      using z by (metis hd_rev last_in_set)
    then have "dropWhile (\<lambda>c. c = CHR ''/'') (rev z @ rev pre) = rev z @ rev pre"
      using z by (cases "rev z") auto
    with t show ?thesis by auto
  qed
  have d2: "dropWhile (\<lambda>c. c \<noteq> CHR ''/'') (rev z @ rev pre) = rev pre"
  proof -
    have a: "dropWhile (\<lambda>c. c \<noteq> CHR ''/'') (rev z @ rev pre) = dropWhile (\<lambda>c. c \<noteq> CHR ''/'') (rev pre)"
      using z by (intro dropWhile_append_all) auto
    from pre_cases have "dropWhile (\<lambda>c. c \<noteq> CHR ''/'') (rev pre) = rev pre"
      by auto
    with a show ?thesis by simp
  qed
  have r: "dropWhile (\<lambda>c. c \<noteq> CHR ''/'') (dropWhile (\<lambda>c. c = CHR ''/'') (rev (tl p))) = rev pre"
  proof -
    have "rev (tl p) = rev t @ rev z @ rev pre"
      by (simp only: pne(3) rev_append append_assoc)
    then show ?thesis
      by (simp only: d1 d2)
  qed
  have pd: "path_dirname p =
      (if rev pre = [] then ''/'' else if length (rev pre) = 1 then ''//'' else take (length (rev pre)) p)"
    unfolding path_dirname_def Let_def r using pne(1,2) by simp
  from pre_cases show ?thesis
  proof
    assume e: "pre = []"
    then have "Y = []"
      using pre_def by (metis snoc_eq_iff_butlast)
    with e pd show ?thesis by (simp add: p_def)
  next
    assume "\<exists>w. pre = w @ ''/'' \<and> w \<noteq> [] \<and> w = join_with ''/'' Y \<and> Y \<noteq> []"
    then obtain w where w: "pre = w @ ''/''" "w \<noteq> []" "w = join_with ''/'' Y" "Y \<noteq> []"
      by blast
    have l: "length (rev pre) = Suc (length w)"
      by (simp add: w(1))
    have "take (Suc (length w)) p = CHR ''/'' # w"
      by (simp add: p w(1))
    with pd l w show ?thesis
      unfolding p_def [symmetric] by simp
  qed
qed

lemma os_resolve_dirname:
  assumes "p \<noteq> []" and "hd p = CHR ''/''"
  shows "os_resolve cwd (path_dirname (path_normalize p)) = butlast (os_resolve cwd (path_normalize p))"
proof -
  let ?X = "foldl (nstep False) [] (split_on CHR ''/'' p)"
  have res: "os_resolve cwd (path_normalize p) = ?X"
    unfolding os_resolve_normalize using assms by (simp add: os_resolve_alt path_isAbsolute_def)
  show ?thesis
  proof (cases "?X = []")
    case True
    with assms have "path_normalize p = ''/''"
      by (simp add: path_normalize_absolute_form)
    then show ?thesis
      using res True by (simp add: path_dirname_def os_resolve_alt path_isAbsolute_def nstep_def)
  next
    case False
    then obtain Y z where X: "?X = Y @ [z]"
      by (metis append_butlast_last_id)
    have ent: "\<forall>w\<in>set ?X. w \<noteq> [] \<and> w \<noteq> ''.'' \<and> CHR ''/'' \<notin> set w"
      using foldl_nstep_segs_nonempty foldl_nstep_no_sep by blast
    have nd: "''..'' \<notin> set ?X"
      by (rule foldl_nstep_False_no_dotdot) simp
    have z: "z \<noteq> []" "CHR ''/'' \<notin> set z" and Y: "\<forall>y\<in>set Y. y \<noteq> []"
      using ent X by auto
    have form: "path_normalize p = CHR ''/'' # join_with ''/'' (Y @ [z]) @ (if last p = CHR ''/'' then ''/'' else [])"
      using assms False X by (simp add: path_normalize_absolute_form Let_def del: join_with.simps)
    have dn: "path_dirname (path_normalize p) = (if Y = [] then ''/'' else CHR ''/'' # join_with ''/'' Y)"
      unfolding form by (rule path_dirname_form [OF z Y]) simp
    show ?thesis
    proof (cases "Y = []")
      case True
      with dn res X show ?thesis
        by (simp add: os_resolve_alt path_isAbsolute_def nstep_def)
    next
      case Yne: False
      have "\<forall>y\<in>set Y. CHR ''/'' \<notin> set y" using ent X by auto
      then have sp: "split_on CHR ''/'' (join_with ''/'' Y) = Y"
        using split_on_join [OF Yne, of "CHR ''/''"] by simp
      have "''..'' \<notin> set Y" using nd X by auto
      moreover have "filter (\<lambda>s. s \<noteq> [] \<and> s \<noteq> ''.'') Y = Y"
        using ent X by (simp add: filter_id_conv)
      ultimately have "foldl (nstep False) [] Y = Y"
        using foldl_nstep_no_dotdot [of Y False "[]"] by simp
      with dn Yne res X sp show ?thesis
        by (simp add: os_resolve_alt path_isAbsolute_def nstep_skip del: join_with.simps)
    qed
  qed
qed

section \<open>Path validation\<close>

lemma sanitizePath_cases:
  "sanitizePath p =
     (if path_isAbsolute p \<or> includes_str (path_normalize p) ''..''
      then Inl ''Invalid file path: directory traversal not allowed''
      else Inr (path_normalize p))"
  by (auto simp: sanitizePath_def Let_def path_normalize_isAbsolute)

lemma dotdot_segment_included:
  "''..'' \<in> set (split_on CHR ''/'' q) \<Longrightarrow> includes_str q ''..''"
  by (simp add: includes_str_sublist split_on_sublist)

lemma sanitizePath_rejected_executors:
  assumes "sanitizePath p = Inl m" and "arg_path a = Some p"
  shows "WriteFile e cur a fs = (no_fields\<lparr>success := False, error := Some m, path := Some p\<rparr>, fs)"
    and "ReadFile e cur a fs = (no_fields\<lparr>success := False, error := Some m, path := Some p\<rparr>, fs)"
    and "ListDirectory e cur a fs = (no_fields\<lparr>success := False, error := Some m, path := Some p\<rparr>, fs)"
  using assms
  by (simp_all add: WriteFile_def WriteFile_try_def ReadFile_def ReadFile_try_def
        ListDirectory_def ListDirectory_try_def fullPath_of_def)

text \<open>
  C3, as the code has it. \<open>sanitizePath\<close> rejects every absolute path and every path whose
  normalised form has a \<open>..\<close> segment, and the executor that asked then returns its failure
  with the file system untouched. It tests for \<open>..\<close> anywhere in the normalised text, so
  it also rejects a relative path in which two dots stand inside a name, such as \<open>a..b\<close>;
  every other relative path is returned in normalised form.
\<close>

theorem sanitizePath_rejects_traversal:
  "(path_isAbsolute p \<or> ''..'' \<in> set (split_on CHR ''/'' (path_normalize p)) \<or>
      includes_str (path_normalize p) ''..'' \<longrightarrow>
        sanitizePath p = Inl ''Invalid file path: directory traversal not allowed'') \<and>
   (\<not> path_isAbsolute p \<and> \<not> includes_str (path_normalize p) ''..'' \<longrightarrow>
        sanitizePath p = Inr (path_normalize p)) \<and>
   (sanitizePath p = Inl m \<and> arg_path a = Some p \<longrightarrow>
        WriteFile e cur a fs = (no_fields\<lparr>success := False, error := Some m, path := Some p\<rparr>, fs) \<and>
        ReadFile e cur a fs = (no_fields\<lparr>success := False, error := Some m, path := Some p\<rparr>, fs) \<and>
        ListDirectory e cur a fs = (no_fields\<lparr>success := False, error := Some m, path := Some p\<rparr>, fs))"
  using dotdot_segment_included [of "path_normalize p"] sanitizePath_rejected_executors [of p m a]
  by (auto simp: sanitizePath_cases)

theorem sanitizePath_rejects_traversal_witness:
  "''..'' \<in> set (split_on CHR ''/'' (path_normalize ''css/../../x'')) \<and>
   sanitizePath ''css/../../x'' = Inl ''Invalid file path: directory traversal not allowed'' \<and>
   WriteFile (demo_env []) (Some demo_project)
     \<lparr>arg_command = None, arg_path = Some ''css/../../x'', arg_content = Some ''x''\<rparr> demo_fs
     = (no_fields\<lparr>success := False,
          error := Some ''Invalid file path: directory traversal not allowed'',
          path := Some ''css/../../x''\<rparr>, demo_fs) \<and>
   path_isAbsolute ''/etc/passwd'' \<and>
   sanitizePath ''/etc/passwd'' = Inl ''Invalid file path: directory traversal not allowed'' \<and>
   \<not> path_isAbsolute ''css//./style.css'' \<and> \<not> includes_str (path_normalize ''css//./style.css'') ''..'' \<and>
   sanitizePath ''css//./style.css'' = Inr ''css/style.css''"
proof -
  have n1: "path_normalize ''css/../../x'' = ''../x''"
    by (simp add: path_normalize_def normalizeString_def nstep_def)
  have h1: "''..'' \<in> set (split_on CHR ''/'' (path_normalize ''css/../../x''))"
    by (simp add: n1)
  have r1: "sanitizePath ''css/../../x'' = Inl ''Invalid file path: directory traversal not allowed''"
    using sanitizePath_rejects_traversal [of "''css/../../x''"] h1 by blast
  have w1: "WriteFile (demo_env []) (Some demo_project)
     \<lparr>arg_command = None, arg_path = Some ''css/../../x'', arg_content = Some ''x''\<rparr> demo_fs
     = (no_fields\<lparr>success := False,
          error := Some ''Invalid file path: directory traversal not allowed'',
          path := Some ''css/../../x''\<rparr>, demo_fs)"
    using sanitizePath_rejects_traversal [of "''css/../../x''"
        "''Invalid file path: directory traversal not allowed''"
        "\<lparr>arg_command = None, arg_path = Some ''css/../../x'', arg_content = Some ''x''\<rparr>"
        "demo_env []" "Some demo_project" demo_fs] r1
    by simp
  have h2: "path_isAbsolute ''/etc/passwd''"
    by (simp add: path_isAbsolute_def)
  have r2: "sanitizePath ''/etc/passwd'' = Inl ''Invalid file path: directory traversal not allowed''"
    using sanitizePath_rejects_traversal [of "''/etc/passwd''"] h2 by blast
  have n3: "path_normalize ''css//./style.css'' = ''css/style.css''"
    by (simp add: path_normalize_def normalizeString_def nstep_def)
  have h3: "\<not> path_isAbsolute ''css//./style.css''" "\<not> includes_str (path_normalize ''css//./style.css'') ''..''"
    by (simp_all add: n3 path_isAbsolute_def startsWith_def)
  have r3: "sanitizePath ''css//./style.css'' = Inr ''css/style.css''"
    using sanitizePath_rejects_traversal [of "''css//./style.css''"] h3 n3 by simp
  show ?thesis
    using h1 r1 w1 h2 r2 h3 r3 by blast
qed

text \<open>The claim as written fails: \<open>a..b\<close> is relative and has no \<open>..\<close> segment, yet it is
  rejected.\<close>

theorem sanitizePath_rejects_dotted_name:
  "\<not> (\<forall>p. \<not> path_isAbsolute p \<and> ''..'' \<notin> set (split_on CHR ''/'' (path_normalize p))
          \<longrightarrow> sanitizePath p = Inr (path_normalize p))"
proof
  assume a: "\<forall>p. \<not> path_isAbsolute p \<and> ''..'' \<notin> set (split_on CHR ''/'' (path_normalize p))
          \<longrightarrow> sanitizePath p = Inr (path_normalize p)"
  have n: "path_normalize ''a..b'' = ''a..b''"
    by (simp add: path_normalize_def normalizeString_def nstep_def)
  have "\<not> path_isAbsolute ''a..b''" "''..'' \<notin> set (split_on CHR ''/'' (path_normalize ''a..b''))"
    by (simp_all add: n path_isAbsolute_def)
  with a have "sanitizePath ''a..b'' = Inr (path_normalize ''a..b'')" by blast
  moreover have "sanitizePath ''a..b'' = Inl ''Invalid file path: directory traversal not allowed''"
    by (simp add: sanitizePath_def n startsWith_def path_isAbsolute_def)
  ultimately show False by simp
qed

section \<open>The file system and \<open>WriteFile\<close>: properties\<close>

lemma lookup_update:
  "lookup (AList.update k v fs) p = (if p = [] then Some Dir else if p = k then Some v else lookup fs p)"
  by (simp add: lookup_def update_conv')

lemma lookup_Nil: "lookup fs [] = Some Dir"
  by (simp add: lookup_def)

lemma wf_fs_parent:
  assumes "wf_fs fs" and "lookup fs p = Some n" and "p \<noteq> []"
  shows "lookup fs (butlast p) = Some Dir"
proof -
  from assms(2,3) have "(p, n) \<in> set fs"
    by (simp add: lookup_def map_of_SomeD)
  with assms(1,3) show ?thesis
    by (auto simp: wf_fs_def list_all_iff)
qed

lemma wf_fs_ancestors:
  assumes "wf_fs fs"
  shows "lookup fs p = Some n \<Longrightarrow> k < length p \<Longrightarrow> lookup fs (take k p) = Some Dir"
proof (induction p arbitrary: n rule: rev_induct)
  case Nil
  then show ?case by simp
next
  case (snoc x xs)
  have par: "lookup fs xs = Some Dir"
    using wf_fs_parent [OF assms snoc.prems(1)] by simp
  show ?case
  proof (cases "k < length xs")
    case True
    with snoc.IH [OF par] show ?thesis by simp
  next
    case False
    with snoc.prems(2) have "k = length xs" by simp
    with par show ?thesis by simp
  qed
qed

lemma take_Cons_prefix:
  "(\<exists>k. 0 < k \<and> k \<le> Suc (length ss) \<and> p = pre @ take k (s # ss)) =
   (p = pre @ [s] \<or> (\<exists>k. 0 < k \<and> k \<le> length ss \<and> p = (pre @ [s]) @ take k ss))"
proof
  assume "\<exists>k. 0 < k \<and> k \<le> Suc (length ss) \<and> p = pre @ take k (s # ss)"
  then obtain k where k: "0 < k" "k \<le> Suc (length ss)" "p = pre @ take k (s # ss)" by blast
  then obtain j where j: "k = Suc j" by (cases k) auto
  show "p = pre @ [s] \<or> (\<exists>k. 0 < k \<and> k \<le> length ss \<and> p = (pre @ [s]) @ take k ss)"
  proof (cases j)
    case 0
    with k j show ?thesis by simp
  next
    case (Suc i)
    with k j have "0 < j \<and> j \<le> length ss \<and> p = (pre @ [s]) @ take j ss" by simp
    then show ?thesis by blast
  qed
next
  assume "p = pre @ [s] \<or> (\<exists>k. 0 < k \<and> k \<le> length ss \<and> p = (pre @ [s]) @ take k ss)"
  then show "\<exists>k. 0 < k \<and> k \<le> Suc (length ss) \<and> p = pre @ take k (s # ss)"
  proof
    assume "p = pre @ [s]"
    then have "0 < Suc 0 \<and> Suc 0 \<le> Suc (length ss) \<and> p = pre @ take (Suc 0) (s # ss)" by simp
    then show ?thesis by blast
  next
    assume "\<exists>k. 0 < k \<and> k \<le> length ss \<and> p = (pre @ [s]) @ take k ss"
    then obtain k where "0 < k" "k \<le> length ss" "p = (pre @ [s]) @ take k ss" by blast
    then have "0 < Suc k \<and> Suc k \<le> Suc (length ss) \<and> p = pre @ take (Suc k) (s # ss)" by simp
    then show ?thesis by blast
  qed
qed

text \<open>What a successful \<open>mkdir -p\<close> leaves: the segments walked are directories, everything
  else is as before.\<close>

lemma mkdirs_lookup:
  "mkdirs fs pre ss = Inr fs' \<Longrightarrow>
   lookup fs' p = (if \<exists>k. 0 < k \<and> k \<le> length ss \<and> p = pre @ take k ss then Some Dir else lookup fs p)"
proof (induction ss arbitrary: fs pre)
  case Nil
  then show ?case by simp
next
  case (Cons s ss)
  show ?case
  proof (cases "lookup fs (pre @ [s])")
    case None
    with Cons.prems have "mkdirs (AList.update (pre @ [s]) Dir fs) (pre @ [s]) ss = Inr fs'"
      by simp
    from Cons.IH [OF this] show ?thesis
      unfolding length_Cons take_Cons_prefix by (auto simp: lookup_update lookup_Nil)
  next
    case (Some n)
    show ?thesis
    proof (cases n)
      case (File c)
      with Some Cons.prems show ?thesis by simp
    next
      case Dir
      with Some Cons.prems have "mkdirs fs (pre @ [s]) ss = Inr fs'" by simp
      from Cons.IH [OF this] Some Dir show ?thesis
        unfolding length_Cons take_Cons_prefix by (auto simp: lookup_Nil)
    qed
  qed
qed

lemma mkdirs_succeeds:
  "\<forall>k. 0 < k \<and> k \<le> length ss \<longrightarrow> (\<forall>c. lookup fs (pre @ take k ss) \<noteq> Some (File c)) \<Longrightarrow>
   \<exists>fs'. mkdirs fs pre ss = Inr fs'"
proof (induction ss arbitrary: fs pre)
  case Nil
  then show ?case by simp
next
  case (Cons s ss)
  have first: "\<forall>c. lookup fs (pre @ [s]) \<noteq> Some (File c)"
    using Cons.prems [rule_format, of "Suc 0"] by simp
  have rest: "\<forall>c. lookup fs ((pre @ [s]) @ take k ss) \<noteq> Some (File c)"
    if "0 < k" "k \<le> length ss" for k
    using Cons.prems [rule_format, of "Suc k"] that by simp
  show ?case
  proof (cases "lookup fs (pre @ [s])")
    case None
    have "\<forall>k. 0 < k \<and> k \<le> length ss \<longrightarrow>
            (\<forall>c. lookup (AList.update (pre @ [s]) Dir fs) ((pre @ [s]) @ take k ss) \<noteq> Some (File c))"
      using rest by (auto simp: lookup_update)
    from Cons.IH [OF this] None show ?thesis by simp
  next
    case (Some n)
    with first have n: "n = Dir" by (cases n) auto
    have "\<forall>k. 0 < k \<and> k \<le> length ss \<longrightarrow> (\<forall>c. lookup fs ((pre @ [s]) @ take k ss) \<noteq> Some (File c))"
      using rest by blast
    from Cons.IH [OF this] Some n show ?thesis by simp
  qed
qed

lemma writeFileSync_lookup:
  "writeFileSync cwd fs p d = Inr fs' \<Longrightarrow>
   lookup fs' x = (if x = os_resolve cwd p then Some (File d) else lookup fs x)"
  by (auto simp: writeFileSync_def Let_def lookup_def update_conv' split: if_splits option.splits node.splits)

lemma writeFileSync_succeeds:
  "p \<noteq> [] \<Longrightarrow> os_resolve cwd p \<noteq> [] \<Longrightarrow> lookup fs (os_resolve cwd p) \<noteq> Some Dir \<Longrightarrow>
   lookup fs (butlast (os_resolve cwd p)) = Some Dir \<Longrightarrow> \<not> trailing_slash p \<Longrightarrow>
   writeFileSync cwd fs p d = Inr (AList.update (os_resolve cwd p) (File d) fs)"
  by (simp add: writeFileSync_def Let_def)


lemma last_join_with:
  "xs \<noteq> [] \<Longrightarrow> last xs \<noteq> [] \<Longrightarrow>
   join_with sep xs \<noteq> [] \<and> last (join_with sep xs) = last (last xs)"
  by (induction sep xs rule: join_with.induct) auto

lemma path_dirname_nonempty: "path_dirname p \<noteq> []"
proof (cases "p = []")
  case True
  then show ?thesis by (simp add: path_dirname_def)
next
  case False
  define r where "r = dropWhile (\<lambda>c. c \<noteq> CHR ''/'') (dropWhile (\<lambda>c. c = CHR ''/'') (rev (tl p)))"
  have "path_dirname p =
      (if r = [] then (if hd p = CHR ''/'' then ''/'' else ''.'')
       else if hd p = CHR ''/'' \<and> length r = 1 then ''//'' else take (length r) p)"
    unfolding path_dirname_def Let_def r_def [symmetric] using False by simp
  moreover have "take (length r) p \<noteq> []" if "r \<noteq> []"
    using that False by simp
  ultimately show ?thesis by (simp split: if_splits)
qed

lemma last_segment_no_sep:
  assumes "X = foldl (nstep b) [] (split_on CHR ''/'' p)" and "X \<noteq> []"
  shows "last (join_with ''/'' X) \<noteq> CHR ''/''"
proof -
  have "last X \<in> set X" using assms(2) by simp
  then have l: "last X \<noteq> []" "CHR ''/'' \<notin> set (last X)"
    using assms(1) foldl_nstep_segs_nonempty foldl_nstep_no_sep by blast+
  then have "last (last X) \<noteq> CHR ''/''"
    by (metis last_in_set)
  with assms(2) l(1) show ?thesis using last_join_with [of X "''/''"] by simp
qed

lemma normalize_relative_no_trailing:
  assumes "p \<noteq> []" and "hd p \<noteq> CHR ''/''" and "last p \<noteq> CHR ''/''"
  shows "last (path_normalize p) \<noteq> CHR ''/''"
  using assms last_segment_no_sep [OF refl, of True p]
  by (simp add: path_normalize_relative_form Let_def)

lemma normalize_absolute_no_trailing:
  assumes "p \<noteq> []" and "hd p = CHR ''/''" and "last p \<noteq> CHR ''/''"
    and "foldl (nstep False) [] (split_on CHR ''/'' p) \<noteq> []"
  shows "\<not> trailing_slash (path_normalize p)"
proof -
  let ?X = "foldl (nstep False) [] (split_on CHR ''/'' p)"
  have "join_with ''/'' ?X \<noteq> []"
    using assms(4) join_with_empty_iff [of ?X "''/''"] foldl_nstep_segs_nonempty by blast
  then show ?thesis
    using assms last_segment_no_sep [OF refl, of False p]
    by (simp add: path_normalize_absolute_form Let_def trailing_slash_def)
qed

lemma path_join_absolute:
  assumes "path_isAbsolute a"
  shows "path_isAbsolute (path_join a b)"
proof -
  have a: "a \<noteq> []" "hd a = CHR ''/''" using assms by (auto simp: path_isAbsolute_def)
  have "path_join a b = path_normalize (if b = [] then a else a @ ''/'' @ b)"
    using a by (simp add: path_join_def)
  moreover have "path_isAbsolute (if b = [] then a else a @ ''/'' @ b)"
    using a by (simp add: path_isAbsolute_def)
  ultimately show ?thesis
    by (simp only: path_normalize_isAbsolute)
qed

lemma getProjectPath_absolute:
  "path_isAbsolute (dirname_js e) \<Longrightarrow> path_isAbsolute (getProjectPath e i)"
  by (simp add: getProjectPath_def WEBSITES_DIR_def path_join_absolute)

lemma sanitizePath_Inr:
  assumes "sanitizePath p = Inr q"
  shows "q = path_normalize p" and "\<not> path_isAbsolute p" and "''..'' \<notin> set (split_on CHR ''/'' q)"
    and "q \<noteq> []"
proof -
  show q: "q = path_normalize p" and "\<not> path_isAbsolute p"
    using assms by (auto simp: sanitizePath_cases split: if_splits)
  have "\<not> includes_str q ''..''"
    using assms by (auto simp: sanitizePath_cases split: if_splits)
  then show "''..'' \<notin> set (split_on CHR ''/'' q)"
    using dotdot_segment_included by blast
  show "q \<noteq> []" using q path_normalize_nonempty by simp
qed

text \<open>Where the path of a path-bearing action lands while a project is active.\<close>

lemma project_target:
  assumes sp: "sanitizePath p = Inr q" and P: "P \<noteq> []"
  shows "os_resolve cwd (path_join P q)
         = os_resolve cwd P @ filter (\<lambda>s. s \<noteq> [] \<and> s \<noteq> ''.'') (split_on CHR ''/'' q)"
  using sanitizePath_Inr(3) [OF sp] by (simp add: os_resolve_join [OF P] foldl_nstep_no_dotdot)

lemma project_target_dirname:
  assumes sp: "sanitizePath p = Inr q" and P: "path_isAbsolute P"
  shows "os_resolve cwd (path_dirname (path_join P q)) = butlast (os_resolve cwd (path_join P q))"
proof -
  have q: "q \<noteq> []" using sanitizePath_Inr(4) [OF sp] .
  have Pne: "P \<noteq> []" "hd P = CHR ''/''" using P by (auto simp: path_isAbsolute_def)
  have j: "path_join P q = path_normalize (P @ ''/'' @ q)"
    using q Pne by (simp add: path_join_def)
  show ?thesis
    unfolding j using Pne by (intro os_resolve_dirname) auto
qed

lemma project_target_no_trailing:
  assumes sp: "sanitizePath p = Inr q" and P: "path_isAbsolute P" and lp: "last p \<noteq> CHR ''/''"
    and ne: "os_resolve cwd (path_join P q) \<noteq> []"
  shows "\<not> trailing_slash (path_join P q)"
proof -
  have q: "q \<noteq> []" "q = path_normalize p" "\<not> path_isAbsolute p"
    using sanitizePath_Inr [OF sp] by auto
  have Pne: "P \<noteq> []" "hd P = CHR ''/''" using P by (auto simp: path_isAbsolute_def)
  have j: "path_join P q = path_normalize (P @ ''/'' @ q)"
    using q Pne by (simp add: path_join_def)
  have lq: "last q \<noteq> CHR ''/''"
  proof (cases "p = []")
    case True
    then show ?thesis using q(2) by (simp add: path_normalize_def)
  next
    case False
    with q(3) have "hd p \<noteq> CHR ''/''" by (simp add: path_isAbsolute_def)
    then show ?thesis
      unfolding q(2) using False lp by (simp add: normalize_relative_no_trailing)
  qed
  have "foldl (nstep False) [] (split_on CHR ''/'' (P @ ''/'' @ q)) = os_resolve cwd (path_join P q)"
    unfolding j os_resolve_normalize using Pne by (simp add: os_resolve_alt path_isAbsolute_def)
  with ne have X: "foldl (nstep False) [] (split_on CHR ''/'' (P @ ''/'' @ q)) \<noteq> []" by simp
  show ?thesis
    unfolding j using Pne q(1) lq X by (intro normalize_absolute_no_trailing) auto
qed


lemma WriteFile_unfold:
  assumes "active_project cur = Some i" and "arg_path a = Some p" and "arg_content a = Some c"
    and "sanitizePath p = Inr q" and "length c \<le> 1024 * 1024"
  shows "WriteFile e cur a fs =
     (let full = path_join (getProjectPath e i) q; dir = path_dirname full in
      case (if \<not> existsSync (process_cwd e) fs dir
            then mkdirSync_recursive (process_cwd e) fs dir else Inr fs) of
        Inl m \<Rightarrow> (no_fields\<lparr>success := False, error := Some m, path := Some p\<rparr>, fs)
      | Inr fs1 \<Rightarrow>
          (case writeFileSync (process_cwd e) fs1 full c of
             Inl m \<Rightarrow> (no_fields\<lparr>success := False, error := Some m, path := Some p\<rparr>, fs1)
           | Inr fs2 \<Rightarrow>
               (no_fields\<lparr>success := True, message := Some (''Successfully written to '' @ p),
                          path := Some p, fullPath := Some full, size_r := Some (length c)\<rparr>, fs2)))"
  using assms
  by (simp add: WriteFile_def WriteFile_try_def fullPath_of_def Let_def split: sum.splits)

lemma WriteFile_writes:
  assumes act: "active_project cur = Some i" and abs: "path_isAbsolute (dirname_js e)"
    and ap: "arg_path a = Some p" and ac: "arg_content a = Some c"
    and sp: "sanitizePath p = Inr q" and lp: "last p \<noteq> CHR ''/''"
    and T: "T = os_resolve (process_cwd e) (path_join (getProjectPath e i) q)"
    and below: "T \<noteq> os_resolve (process_cwd e) (getProjectPath e i)"
    and wf: "wf_fs fs"
    and anc: "\<forall>k<length T. \<forall>d. lookup fs (take k T) \<noteq> Some (File d)"
    and tgt: "lookup fs T \<noteq> Some Dir"
    and len: "length c \<le> 1024 * 1024"
  shows "\<exists>fs'. WriteFile e cur a fs =
           (no_fields\<lparr>success := True, message := Some (''Successfully written to '' @ p),
                      path := Some p,
                      fullPath := Some (path_join (getProjectPath e i) q),
                      size_r := Some (length c)\<rparr>, fs') \<and>
         lookup fs' T = Some (File c) \<and>
         (\<forall>k<length T. lookup fs' (take k T) = Some Dir) \<and>
         (\<forall>x. x \<noteq> T \<and> (\<forall>k. x \<noteq> take k T) \<longrightarrow> lookup fs' x = lookup fs x)"
proof -
  let ?cwd = "process_cwd e"
  let ?P = "getProjectPath e i"
  let ?full = "path_join ?P q"
  let ?dir = "path_dirname ?full"
  let ?D = "os_resolve ?cwd ?dir"
  have Pabs: "path_isAbsolute ?P" using abs by (rule getProjectPath_absolute)
  then have Pne: "?P \<noteq> []" by (auto simp: path_isAbsolute_def)
  have "T = os_resolve ?cwd ?P @ filter (\<lambda>s. s \<noteq> [] \<and> s \<noteq> ''.'') (split_on CHR ''/'' q)"
    unfolding T by (rule project_target [OF sp Pne])
  with below have Tne: "T \<noteq> []" by auto
  have D: "?D = butlast T"
    unfolding T by (rule project_target_dirname [OF sp Pabs])
  have nt: "\<not> trailing_slash ?full"
    using project_target_no_trailing [OF sp Pabs lp] Tne T by simp
  have fne: "?full \<noteq> []" by (rule path_join_nonempty)
  have dne: "?dir \<noteq> []" by (rule path_dirname_nonempty)
  have lD: "length ?D < length T" using D Tne by simp
  have tk: "take k ?D = take k T" if "k \<le> length ?D" for k
    using that lD D by (simp add: take_butlast)
  have Dtake: "?D = take (length ?D) T"
    using D by (simp add: butlast_conv_take)
  have DnotFile: "lookup fs ?D \<noteq> Some (File d)" for d
    using anc [rule_format, OF lD, of d] Dtake by simp
  have ex: "existsSync ?cwd fs ?dir = (lookup fs ?D = Some Dir)"
    using dne DnotFile by (auto simp: existsSync_def fs_stat_def split: option.splits node.splits)
  have TnotD: "T \<noteq> take k ?D" for k
  proof
    assume "T = take k ?D"
    then have "length T = length (take k ?D)" by simp
    with lD show False by simp
  qed
  obtain fs1 where fs1: "(if \<not> existsSync ?cwd fs ?dir then mkdirSync_recursive ?cwd fs ?dir else Inr fs) = Inr fs1"
    and l1: "\<forall>x. lookup fs1 x = (if \<exists>k. k \<le> length ?D \<and> x = take k ?D then Some Dir else lookup fs x)"
  proof (cases "lookup fs ?D = Some Dir")
    case True
    have "lookup fs (take k ?D) = Some Dir" if "k \<le> length ?D" for k
    proof (cases "k < length ?D")
      case True
      with wf_fs_ancestors [OF wf \<open>lookup fs ?D = Some Dir\<close>] show ?thesis by simp
    next
      case False
      with that \<open>lookup fs ?D = Some Dir\<close> show ?thesis by simp
    qed
    then have "\<forall>x. lookup fs x = (if \<exists>k. k \<le> length ?D \<and> x = take k ?D then Some Dir else lookup fs x)"
      by auto
    with True ex that show ?thesis by simp
  next
    case False
    have "\<forall>d. lookup fs ([] @ take k ?D) \<noteq> Some (File d)" if "0 < k" "k \<le> length ?D" for k
    proof -
      have "k < length T" using that lD by simp
      with anc tk [OF that(2)] show ?thesis by simp
    qed
    then have "\<forall>k. 0 < k \<and> k \<le> length ?D \<longrightarrow> (\<forall>d. lookup fs ([] @ take k ?D) \<noteq> Some (File d))"
      by blast
    then obtain fsm where m: "mkdirs fs [] ?D = Inr fsm"
      using mkdirs_succeeds by blast
    have "lookup fsm x = (if \<exists>k. k \<le> length ?D \<and> x = take k ?D then Some Dir else lookup fs x)" for x
    proof (cases "x = []")
      case True
      then show ?thesis by (auto simp: lookup_Nil)
    next
      case xne: False
      have "(\<exists>k. 0 < k \<and> k \<le> length ?D \<and> x = [] @ take k ?D) = (\<exists>k. k \<le> length ?D \<and> x = take k ?D)"
        using xne by (auto intro: gr0I)
      with mkdirs_lookup [OF m, of x] show ?thesis by simp
    qed
    with m False ex dne that show ?thesis
      by (simp add: mkdirSync_recursive_def)
  qed
  have w1: "lookup fs1 T \<noteq> Some Dir"
    using l1 TnotD tgt by auto
  have w2: "lookup fs1 (butlast T) = Some Dir"
    using l1 D by auto
  have wr: "writeFileSync ?cwd fs1 ?full c = Inr (AList.update T (File c) fs1)"
    using writeFileSync_succeeds [OF fne, of ?cwd fs1 c] Tne w1 w2 nt T by simp
  let ?fs2 = "AList.update T (File c) fs1"
  have l2: "lookup ?fs2 x = (if x = T then Some (File c) else lookup fs1 x)" for x
    using Tne by (simp add: lookup_update lookup_Nil)
  have r: "WriteFile e cur a fs =
           (no_fields\<lparr>success := True, message := Some (''Successfully written to '' @ p),
                      path := Some p, fullPath := Some ?full, size_r := Some (length c)\<rparr>, ?fs2)"
    unfolding WriteFile_unfold [OF act ap ac sp len] Let_def fs1 by (simp add: wr)
  have c1: "lookup ?fs2 T = Some (File c)" using l2 by simp
  have c2: "lookup ?fs2 (take k T) = Some Dir" if "k < length T" for k
  proof -
    have "take k T \<noteq> T"
    proof
      assume "take k T = T"
      then have "length (take k T) = length T" by simp
      with that show False by simp
    qed
    moreover have "k \<le> length ?D" using that D by simp
    then have "take k T = take k ?D" using tk by simp
    ultimately have "lookup ?fs2 (take k T) = lookup fs1 (take k ?D)"
      using l2 [of "take k T"] by simp
    moreover have "lookup fs1 (take k ?D) = Some Dir"
      using l1 [rule_format, of "take k ?D"] \<open>k \<le> length ?D\<close> by auto
    ultimately show ?thesis by simp
  qed
  have c3: "lookup ?fs2 x = lookup fs x" if "x \<noteq> T" "\<forall>k. x \<noteq> take k T" for x
  proof -
    have n: "\<not> (\<exists>k. k \<le> length ?D \<and> x = take k ?D)"
      using that(2) tk by auto
    have "lookup fs1 x = lookup fs x"
      using l1 [rule_format, of x] n by (simp only: if_False)
    moreover have "lookup ?fs2 x = lookup fs1 x"
      using l2 [of x] that(1) by simp
    ultimately show ?thesis by simp
  qed
  show ?thesis
    using r c1 c2 c3 by (intro exI [of _ ?fs2]) blast
qed


lemma prefix_of_extension:
  assumes "prefix x (R @ rel)" and "\<not> prefix R x"
  shows "\<exists>k\<le>length R. x = take k R"
proof -
  from assms have "prefix x R"
    by (auto simp: prefix_append)
  then have "x = take (length x) R" "length x \<le> length R"
    by (auto simp: prefix_def)
  then show ?thesis by blast
qed

lemma fullPath_of_inside:
  assumes act: "active_project cur = Some i" and full: "fullPath_of e cur (Some p) = Inr full"
  shows "\<exists>q. sanitizePath p = Inr q \<and> full = path_join (getProjectPath e i) q \<and>
           os_resolve cwd full
             = os_resolve cwd (getProjectPath e i) @
               filter (\<lambda>s. s \<noteq> [] \<and> s \<noteq> ''.'') (split_on CHR ''/'' q)"
proof -
  from full act obtain q where q: "sanitizePath p = Inr q" "full = path_join (getProjectPath e i) q"
    by (auto simp: fullPath_of_def split: sum.splits)
  have "getProjectPath e i \<noteq> []"
    by (simp add: getProjectPath_def path_join_nonempty)
  from project_target [OF q(1) this] q show ?thesis by blast
qed

text \<open>In the file system modelled here, which has no symbolic links, \<open>WriteFile\<close> changes
  nothing outside the project directory, provided the directory and the directories above
  it exist.\<close>

lemma WriteFile_frame_main:
  assumes act: "active_project cur = Some i" and abs: "path_isAbsolute (dirname_js e)"
    and R: "R = os_resolve (process_cwd e) (getProjectPath e i)"
    and Rdirs: "\<forall>k\<le>length R. lookup fs (take k R) = Some Dir"
    and out: "\<not> prefix R x"
    and ap: "arg_path a = Some p" and ac: "arg_content a = Some c"
    and sp: "sanitizePath p = Inr q" and len: "length c \<le> 1024 * 1024"
  shows "lookup (snd (WriteFile e cur a fs)) x = lookup fs x"
proof -
  let ?cwd = "process_cwd e"
  let ?P = "getProjectPath e i"
  let ?full = "path_join ?P q"
  let ?dir = "path_dirname ?full"
  let ?D = "os_resolve ?cwd ?dir"
  let ?T = "os_resolve ?cwd ?full"
  let ?mk = "if \<not> existsSync ?cwd fs ?dir then mkdirSync_recursive ?cwd fs ?dir else Inr fs"
  have Pabs: "path_isAbsolute ?P" using abs by (rule getProjectPath_absolute)
  then have Pne: "?P \<noteq> []" by (auto simp: path_isAbsolute_def)
  obtain rel where T: "?T = R @ rel"
    using project_target [OF sp Pne, of ?cwd] R by blast
  have D: "?D = butlast ?T"
    by (rule project_target_dirname [OF sp Pabs])
  have xT: "x \<noteq> ?T" using out T by auto
  have step1: "lookup fs1 x = lookup fs x" if mk: "?mk = Inr fs1" for fs1
  proof (cases "existsSync ?cwd fs ?dir")
    case True
    with mk show ?thesis by simp
  next
    case False
    with mk have m: "mkdirs fs [] ?D = Inr fs1"
      by (simp add: mkdirSync_recursive_def split: if_splits)
    show ?thesis
    proof (cases "\<exists>k. 0 < k \<and> k \<le> length ?D \<and> x = [] @ take k ?D")
      case True
      then obtain k where "x = take k ?D" by auto
      then have "prefix x ?D" by (simp add: take_is_prefix)
      moreover have "prefix ?D ?T" using D by (simp add: butlast_conv_take take_is_prefix)
      ultimately have "prefix x (R @ rel)" using T by (metis prefix_order.order_trans)
      from prefix_of_extension [OF this out] obtain j where "j \<le> length R" "x = take j R" by blast
      with Rdirs have "lookup fs x = Some Dir" by simp
      moreover have "(if \<exists>k. 0 < k \<and> k \<le> length ?D \<and> x = [] @ take k ?D
                  then Some Dir else lookup fs x) = Some Dir"
        using True by (rule if_P)
      then have "lookup fs1 x = Some Dir"
        using mkdirs_lookup [OF m, of x] by (simp only:)
      ultimately show ?thesis by simp
    next
      case False
      then have "(if \<exists>k. 0 < k \<and> k \<le> length ?D \<and> x = [] @ take k ?D
                  then Some Dir else lookup fs x) = lookup fs x"
        by (rule if_not_P)
      with mkdirs_lookup [OF m, of x] show ?thesis by (simp only:)
    qed
  qed
  note unf = WriteFile_unfold [OF act ap ac sp len, of e fs, unfolded Let_def]
  show ?thesis
  proof (cases ?mk)
    case (Inl m)
    then have "snd (WriteFile e cur a fs) = fs"
      unfolding unf by (simp only: sum.case snd_conv)
    then show ?thesis by simp
  next
    case (Inr fs1)
    show ?thesis
    proof (cases "writeFileSync ?cwd fs1 ?full c")
      case (Inl m)
      then have "snd (WriteFile e cur a fs) = fs1"
        unfolding unf Inr by (simp only: sum.case snd_conv)
      with step1 [OF Inr] show ?thesis by simp
    next
      case w: (Inr fs2)
      then have "snd (WriteFile e cur a fs) = fs2"
        unfolding unf Inr by (simp only: sum.case snd_conv)
      moreover have "lookup fs2 x = lookup fs1 x"
        using writeFileSync_lookup [OF w, of x] xT by simp
      ultimately show ?thesis using step1 [OF Inr] by simp
    qed
  qed
qed

lemma WriteFile_frame:
  assumes act: "active_project cur = Some i" and abs: "path_isAbsolute (dirname_js e)"
    and R: "R = os_resolve (process_cwd e) (getProjectPath e i)"
    and Rdirs: "\<forall>k\<le>length R. lookup fs (take k R) = Some Dir"
    and out: "\<not> prefix R x"
  shows "lookup (snd (WriteFile e cur a fs)) x = lookup fs x"
proof (cases "arg_path a")
  case None
  then have "snd (WriteFile e cur a fs) = fs"
    by (simp add: WriteFile_def WriteFile_try_def fullPath_of_def)
  then show ?thesis by simp
next
  case (Some p)
  show ?thesis
  proof (cases "sanitizePath p")
    case (Inl m)
    with Some have "snd (WriteFile e cur a fs) = fs"
      by (simp add: WriteFile_def WriteFile_try_def fullPath_of_def)
    then show ?thesis by simp
  next
    case (Inr q)
    show ?thesis
    proof (cases "arg_content a")
      case None
      with Some Inr act have "snd (WriteFile e cur a fs) = fs"
        by (simp add: WriteFile_def WriteFile_try_def fullPath_of_def)
      then show ?thesis by simp
    next
      case c: (Some c)
      show ?thesis
      proof (cases "length c \<le> 1024 * 1024")
        case True
        show ?thesis
          by (rule WriteFile_frame_main [OF act abs R Rdirs out Some c Inr True])
      next
        case False
        with Some Inr act c have "snd (WriteFile e cur a fs) = fs"
          by (simp add: WriteFile_def WriteFile_try_def fullPath_of_def)
        then show ?thesis by simp
      qed
    qed
  qed
qed

section \<open>Containment in the project directory\<close>

lemma demo_active: "active_project (Some demo_project) = Some demo_project"
  by (simp add: active_project_def demo_project_def)

lemma demo_abs: "path_isAbsolute (dirname_js (demo_env tcs))"
  by (simp add: demo_env_def path_isAbsolute_def)

lemma demo_R:
  "os_resolve (process_cwd (demo_env tcs)) (getProjectPath (demo_env tcs) demo_project) = demo_root"
  by (simp add: model_defs demo_defs)

text \<open>The path of a path-bearing action, and the directory \<open>WriteFile\<close> makes for it.\<close>

lemma fullPath_of_lexical:
  assumes act: "active_project cur = Some i" and full: "fullPath_of e cur (Some p) = Inr full"
  shows "\<exists>q. sanitizePath p = Inr q \<and> q = path_normalize p \<and> \<not> path_isAbsolute p \<and>
            ''..'' \<notin> set (split_on CHR ''/'' q) \<and>
            full = path_join (getProjectPath e i) q \<and>
            os_resolve cwd full
              = os_resolve cwd (getProjectPath e i) @
                filter (\<lambda>s. s \<noteq> [] \<and> s \<noteq> ''.'') (split_on CHR ''/'' q) \<and>
            prefix (os_resolve cwd (getProjectPath e i)) (os_resolve cwd full)"
proof -
  from fullPath_of_inside [OF act full, of cwd] obtain q where
    q: "sanitizePath p = Inr q" "full = path_join (getProjectPath e i) q"
      "os_resolve cwd full = os_resolve cwd (getProjectPath e i) @
         filter (\<lambda>s. s \<noteq> [] \<and> s \<noteq> ''.'') (split_on CHR ''/'' q)"
    by blast
  from q(3) have "prefix (os_resolve cwd (getProjectPath e i)) (os_resolve cwd full)"
    by simp
  with q sanitizePath_Inr(1,2,3) [OF q(1)] show ?thesis by blast
qed

lemma fullPath_of_dirname:
  assumes act: "active_project cur = Some i" and abs: "path_isAbsolute (dirname_js e)"
    and full: "fullPath_of e cur (Some p) = Inr full"
  shows "os_resolve cwd (path_dirname full) = butlast (os_resolve cwd full)"
proof -
  from fullPath_of_inside [OF act full, of cwd] obtain q where
    q: "sanitizePath p = Inr q" "full = path_join (getProjectPath e i) q"
    by blast
  show ?thesis
    unfolding q(2) by (rule project_target_dirname [OF q(1) getProjectPath_absolute [OF abs]])
qed

text \<open>What each executor asks of the file system: \<open>WriteFile\<close> makes the directory of its
  path when it is missing and writes at the path, \<open>ReadFile\<close> reads at its path,
  \<open>ListDirectory\<close> lists at its path, and the two change nothing. \<open>ExecuteCommand\<close> hands the
  validated command to the shell with the project directory as working directory.\<close>

lemma WriteFile_calls:
  "snd (WriteFile e cur a fs) = fs \<or>
   (\<exists>p full. arg_path a = Some p \<and> fullPath_of e cur (Some p) = Inr full \<and>
      (mkdirSync_recursive (process_cwd e) fs (path_dirname full) = Inr (snd (WriteFile e cur a fs)) \<or>
       (\<exists>c made. arg_content a = Some c \<and>
          (made = fs \<or> mkdirSync_recursive (process_cwd e) fs (path_dirname full) = Inr made) \<and>
          writeFileSync (process_cwd e) made full c = Inr (snd (WriteFile e cur a fs)) \<and>
          fullPath (fst (WriteFile e cur a fs)) = Some full)))"
proof (cases "fullPath_of e cur (arg_path a)")
  case (Inl m)
  then show ?thesis by (simp add: WriteFile_def WriteFile_try_def)
next
  case (Inr full)
  then obtain p where p: "arg_path a = Some p"
    by (cases "arg_path a") (simp_all add: fullPath_of_def)
  show ?thesis
  proof (cases "arg_content a")
    case None
    with Inr show ?thesis by (simp add: WriteFile_def WriteFile_try_def)
  next
    case (Some c)
    show ?thesis
    proof (cases "length c > 1024 * 1024")
      case True
      with Inr Some show ?thesis by (simp add: WriteFile_def WriteFile_try_def)
    next
      case False
      let ?dir = "path_dirname full"
      let ?mk = "if \<not> existsSync (process_cwd e) fs ?dir
                 then mkdirSync_recursive (process_cwd e) fs ?dir else Inr fs"
      show ?thesis
      proof (cases ?mk)
        case (Inl m)
        with Inr Some False show ?thesis
          by (simp add: WriteFile_def WriteFile_try_def Let_def)
      next
        case mk: (Inr made)
        then have made: "made = fs \<or> mkdirSync_recursive (process_cwd e) fs ?dir = Inr made"
          by (auto split: if_splits)
        show ?thesis
        proof (cases "writeFileSync (process_cwd e) made full c")
          case (Inl m)
          with Inr Some False mk have "snd (WriteFile e cur a fs) = made"
            by (simp add: WriteFile_def WriteFile_try_def Let_def)
          with made p Inr show ?thesis by auto
        next
          case wr: (Inr fs2)
          with Inr Some False mk have "snd (WriteFile e cur a fs) = fs2"
            "fullPath (fst (WriteFile e cur a fs)) = Some full"
            by (simp_all add: WriteFile_def WriteFile_try_def Let_def no_fields_def)
          with made p Inr Some wr show ?thesis by auto
        qed
      qed
    qed
  qed
qed

lemma ReadFile_calls:
  "snd (ReadFile e cur a fs) = fs"
  "content (fst (ReadFile e cur a fs)) = Some x \<Longrightarrow>
     \<exists>p full. arg_path a = Some p \<and> fullPath_of e cur (Some p) = Inr full \<and>
        readFileSync (process_cwd e) fs full = Inr x"
proof -
  show "snd (ReadFile e cur a fs) = fs"
    by (simp add: ReadFile_def split: sum.splits)
  assume c: "content (fst (ReadFile e cur a fs)) = Some x"
  then obtain full where full: "fullPath_of e cur (arg_path a) = Inr full"
    by (cases "fullPath_of e cur (arg_path a)")
       (simp_all add: ReadFile_def ReadFile_try_def no_fields_def)
  then obtain p where p: "arg_path a = Some p"
    by (cases "arg_path a") (simp_all add: fullPath_of_def)
  from c full have "readFileSync (process_cwd e) fs full = Inr x"
    by (auto simp: ReadFile_def ReadFile_try_def no_fields_def split: sum.splits if_splits)
  with p full show "\<exists>p full. arg_path a = Some p \<and> fullPath_of e cur (Some p) = Inr full \<and>
        readFileSync (process_cwd e) fs full = Inr x"
    by auto
qed

lemma ListDirectory_calls:
  "snd (ListDirectory e cur a fs) = fs"
  "files (fst (ListDirectory e cur a fs)) = Some fl \<Longrightarrow>
     \<exists>full ents.
        fullPath_of e cur (Some (case arg_path a of None \<Rightarrow> ''.'' | Some p \<Rightarrow> p)) = Inr full \<and>
        readdirSync (process_cwd e) fs full = Inr ents \<and>
        fl = map (\<lambda>(n, d). \<lparr>entry_name = n,
                     entry_type = (if d then ''directory'' else ''file''),
                     entry_path = path_join (case arg_path a of None \<Rightarrow> ''.'' | Some p \<Rightarrow> p) n\<rparr>) ents"
proof -
  show "snd (ListDirectory e cur a fs) = fs"
    by (simp add: ListDirectory_def Let_def split: sum.splits)
  let ?d = "case arg_path a of None \<Rightarrow> ''.'' | Some p \<Rightarrow> p"
  assume c: "files (fst (ListDirectory e cur a fs)) = Some fl"
  then obtain full where full: "fullPath_of e cur (Some ?d) = Inr full"
    by (cases "fullPath_of e cur (Some ?d)")
       (simp_all add: ListDirectory_def ListDirectory_try_def no_fields_def Let_def)
  from c full obtain ents where "readdirSync (process_cwd e) fs full = Inr ents"
    "fl = map (\<lambda>(n, d). \<lparr>entry_name = n,
                     entry_type = (if d then ''directory'' else ''file''),
                     entry_path = path_join ?d n\<rparr>) ents"
    by (auto simp: ListDirectory_def ListDirectory_try_def no_fields_def Let_def
             split: sum.splits if_splits)
  with full show "\<exists>full ents.
        fullPath_of e cur (Some ?d) = Inr full \<and>
        readdirSync (process_cwd e) fs full = Inr ents \<and>
        fl = map (\<lambda>(n, d). \<lparr>entry_name = n,
                     entry_type = (if d then ''directory'' else ''file''),
                     entry_path = path_join ?d n\<rparr>) ents"
    by blast
qed

lemma ExecuteCommand_calls:
  assumes "active_project cur = Some i" and "arg_command a = Some cmd"
    and "isValidCommand cmd = Inr True"
  shows "snd (ExecuteCommand e cur a fs) = snd (execSync e cmd (getProjectPath e i) fs)"
    and "output_r (fst (ExecuteCommand e cur a fs))
           = (case fst (execSync e cmd (getProjectPath e i) fs) of
                Inl m \<Rightarrow> None | Inr out \<Rightarrow> Some (trim out))"
  using assms
  by (simp_all add: ExecuteCommand_def ExecuteCommand_try_def Let_def no_fields_def
        split: prod.splits sum.splits)

text \<open>
  C1, as the code has it. While a project is active, the one path that \<open>WriteFile\<close>,
  \<open>ReadFile\<close> or \<open>ListDirectory\<close> gives to the file system is the project directory joined
  with the normalised requested path, which is relative and has no \<open>..\<close> segment. Read
  segment by segment this path lies inside the project directory, and the directory that
  \<open>WriteFile\<close> makes for it is its parent. \<open>ReadFile\<close> returns what the file system reads
  at that path, \<open>ListDirectory\<close> what it lists there, and neither changes anything; what
  \<open>WriteFile\<close> changes is what making that directory and writing at that path change. The
  containment is one of path texts: the code resolves no symbolic link, so where a link
  lies below the project directory the file system follows it to wherever it points.
  \<open>ExecuteCommand\<close> hands the validated command text to the shell with the project directory
  as working directory; the paths the command names are not checked.
\<close>

theorem path_tools_stay_inside:
  assumes "active_project cur = Some i" and "path_isAbsolute (dirname_js e)"
  shows "(\<forall>p full. fullPath_of e cur (Some p) = Inr full \<longrightarrow>
            (\<exists>q. sanitizePath p = Inr q \<and> q = path_normalize p \<and> \<not> path_isAbsolute p \<and>
                 ''..'' \<notin> set (split_on CHR ''/'' q) \<and>
                 full = path_join (getProjectPath e i) q \<and>
                 os_resolve (process_cwd e) full
                   = os_resolve (process_cwd e) (getProjectPath e i) @
                     filter (\<lambda>s. s \<noteq> [] \<and> s \<noteq> ''.'') (split_on CHR ''/'' q) \<and>
                 prefix (os_resolve (process_cwd e) (getProjectPath e i))
                        (os_resolve (process_cwd e) full) \<and>
                 os_resolve (process_cwd e) (path_dirname full)
                   = butlast (os_resolve (process_cwd e) full))) \<and>
         (snd (WriteFile e cur a fs) = fs \<or>
          (\<exists>p full. arg_path a = Some p \<and> fullPath_of e cur (Some p) = Inr full \<and>
             (mkdirSync_recursive (process_cwd e) fs (path_dirname full)
                = Inr (snd (WriteFile e cur a fs)) \<or>
              (\<exists>c made. arg_content a = Some c \<and>
                 (made = fs \<or> mkdirSync_recursive (process_cwd e) fs (path_dirname full) = Inr made) \<and>
                 writeFileSync (process_cwd e) made full c = Inr (snd (WriteFile e cur a fs)) \<and>
                 fullPath (fst (WriteFile e cur a fs)) = Some full)))) \<and>
         snd (ReadFile e cur a fs) = fs \<and>
         (\<forall>x. content (fst (ReadFile e cur a fs)) = Some x \<longrightarrow>
            (\<exists>p full. arg_path a = Some p \<and> fullPath_of e cur (Some p) = Inr full \<and>
               readFileSync (process_cwd e) fs full = Inr x)) \<and>
         snd (ListDirectory e cur a fs) = fs \<and>
         (\<forall>fl. files (fst (ListDirectory e cur a fs)) = Some fl \<longrightarrow>
            (\<exists>full ents.
               fullPath_of e cur (Some (case arg_path a of None \<Rightarrow> ''.'' | Some p \<Rightarrow> p)) = Inr full \<and>
               readdirSync (process_cwd e) fs full = Inr ents \<and>
               fl = map (\<lambda>(n, d). \<lparr>entry_name = n,
                            entry_type = (if d then ''directory'' else ''file''),
                            entry_path = path_join (case arg_path a of None \<Rightarrow> ''.'' | Some p \<Rightarrow> p) n\<rparr>)
                      ents)) \<and>
         (\<forall>cmd. arg_command a = Some cmd \<and> isValidCommand cmd = Inr True \<longrightarrow>
            snd (ExecuteCommand e cur a fs) = snd (execSync e cmd (getProjectPath e i) fs) \<and>
            output_r (fst (ExecuteCommand e cur a fs))
              = (case fst (execSync e cmd (getProjectPath e i) fs) of
                   Inl m \<Rightarrow> None | Inr out \<Rightarrow> Some (trim out)))"
proof -
  have 1: "\<exists>q. sanitizePath p = Inr q \<and> q = path_normalize p \<and> \<not> path_isAbsolute p \<and>
                 ''..'' \<notin> set (split_on CHR ''/'' q) \<and>
                 full = path_join (getProjectPath e i) q \<and>
                 os_resolve (process_cwd e) full
                   = os_resolve (process_cwd e) (getProjectPath e i) @
                     filter (\<lambda>s. s \<noteq> [] \<and> s \<noteq> ''.'') (split_on CHR ''/'' q) \<and>
                 prefix (os_resolve (process_cwd e) (getProjectPath e i))
                        (os_resolve (process_cwd e) full) \<and>
                 os_resolve (process_cwd e) (path_dirname full)
                   = butlast (os_resolve (process_cwd e) full)"
    if "fullPath_of e cur (Some p) = Inr full" for p full
    using fullPath_of_lexical [OF assms(1) that, of "process_cwd e"]
      fullPath_of_dirname [OF assms that, of "process_cwd e"] by blast
  note 2 = WriteFile_calls [of e cur a fs]
  note 3 = ReadFile_calls(1) [of e cur a fs]
  have 4: "\<exists>p full. arg_path a = Some p \<and> fullPath_of e cur (Some p) = Inr full \<and>
               readFileSync (process_cwd e) fs full = Inr x"
    if "content (fst (ReadFile e cur a fs)) = Some x" for x
    using that by (rule ReadFile_calls(2))
  note 5 = ListDirectory_calls(1) [of e cur a fs]
  have 6: "\<exists>full ents.
               fullPath_of e cur (Some (case arg_path a of None \<Rightarrow> ''.'' | Some p \<Rightarrow> p)) = Inr full \<and>
               readdirSync (process_cwd e) fs full = Inr ents \<and>
               fl = map (\<lambda>(n, d). \<lparr>entry_name = n,
                            entry_type = (if d then ''directory'' else ''file''),
                            entry_path = path_join (case arg_path a of None \<Rightarrow> ''.'' | Some p \<Rightarrow> p) n\<rparr>)
                      ents"
    if "files (fst (ListDirectory e cur a fs)) = Some fl" for fl
    using that by (rule ListDirectory_calls(2))
  have 7: "snd (ExecuteCommand e cur a fs) = snd (execSync e cmd (getProjectPath e i) fs) \<and>
            output_r (fst (ExecuteCommand e cur a fs))
              = (case fst (execSync e cmd (getProjectPath e i) fs) of
                   Inl m \<Rightarrow> None | Inr out \<Rightarrow> Some (trim out))"
    if "arg_command a = Some cmd \<and> isValidCommand cmd = Inr True" for cmd
    using ExecuteCommand_calls [OF assms(1), of a cmd e fs] that by blast
  show ?thesis
    using 1 2 3 4 5 6 7 by (intro conjI allI impI) blast+
qed


theorem path_tools_stay_inside_witness:
  "active_project (Some demo_project) = Some demo_project \<and>
   path_isAbsolute (dirname_js (demo_env [])) \<and>
   fullPath_of (demo_env []) (Some demo_project) (Some ''css/./style.css'')
     = Inr ''/app/websites/website_7_k3x9qa/css/style.css'' \<and>
   sanitizePath ''css/./style.css'' = Inr ''css/style.css'' \<and>
   prefix demo_root
     (os_resolve (process_cwd (demo_env [])) ''/app/websites/website_7_k3x9qa/css/style.css'') \<and>
   os_resolve (process_cwd (demo_env []))
       (path_dirname ''/app/websites/website_7_k3x9qa/css/style.css'')
     = butlast (os_resolve (process_cwd (demo_env [])) ''/app/websites/website_7_k3x9qa/css/style.css'') \<and>
   content (fst (ReadFile (demo_env []) (Some demo_project) args_all demo_site)) = Some ''<p>old</p>'' \<and>
   readFileSync (process_cwd (demo_env [])) demo_site ''/app/websites/website_7_k3x9qa/index.html''
     = Inr ''<p>old</p>'' \<and>
   files (fst (ListDirectory (demo_env []) (Some demo_project) args_none demo_site))
     = Some [\<lparr>entry_name = ''index.html'', entry_type = ''file'', entry_path = ''index.html''\<rparr>] \<and>
   (\<exists>ents. readdirSync (process_cwd (demo_env [])) demo_site ''/app/websites/website_7_k3x9qa''
            = Inr ents \<and> map fst ents = [''index.html'']) \<and>
   arg_command args_all = Some ''cat index.html'' \<and> isValidCommand ''cat index.html'' = Inr True \<and>
   snd (ExecuteCommand (demo_env []) (Some demo_project) args_all demo_site)
     = snd (execSync (demo_env []) ''cat index.html'' ''/app/websites/website_7_k3x9qa'' demo_site) \<and>
   output_r (fst (ExecuteCommand (demo_env []) (Some demo_project) args_all demo_site))
     = Some ''<p>old</p>''"
proof -
  let ?e = "demo_env []"
  let ?cur = "Some demo_project"
  have fp: "fullPath_of ?e ?cur (Some ''css/./style.css'')
     = Inr ''/app/websites/website_7_k3x9qa/css/style.css''"
    by (simp add: model_defs demo_defs)
  have fi: "fullPath_of ?e ?cur (Some ''index.html'') = Inr ''/app/websites/website_7_k3x9qa/index.html''"
    by (simp add: model_defs demo_defs)
  have fd: "fullPath_of ?e ?cur (Some ''.'') = Inr ''/app/websites/website_7_k3x9qa''"
    by (simp add: model_defs demo_defs)
  have gp: "getProjectPath ?e demo_project = ''/app/websites/website_7_k3x9qa''"
    by (simp add: model_defs demo_defs)
  have ap: "arg_path args_all = Some ''index.html''" "arg_command args_all = Some ''cat index.html''"
    "arg_path args_none = None"
    by (simp_all add: args_all_def args_none_def)
  have v: "isValidCommand ''cat index.html'' = Inr True"
    by (simp add: model_defs)
  have rd: "content (fst (ReadFile ?e ?cur args_all demo_site)) = Some ''<p>old</p>''"
    by (simp add: model_defs demo_defs)
  have ls: "files (fst (ListDirectory ?e ?cur args_none demo_site))
     = Some [\<lparr>entry_name = ''index.html'', entry_type = ''file'', entry_path = ''index.html''\<rparr>]"
    by (simp add: model_defs demo_defs)
  have ex: "fst (execSync ?e ''cat index.html'' ''/app/websites/website_7_k3x9qa'' demo_site)
              = Inr ''<p>old</p>''"
    by (simp add: model_defs demo_defs)
  note A = path_tools_stay_inside [OF demo_active demo_abs, of "[]" args_all demo_site]
  note B = path_tools_stay_inside [OF demo_active demo_abs, of "[]" args_none demo_site]
  note A1 = A [THEN conjunct1, rule_format]
  note A4 = A [THEN conjunct2, THEN conjunct2, THEN conjunct2, THEN conjunct1, rule_format]
  note A7 = A [THEN conjunct2, THEN conjunct2, THEN conjunct2, THEN conjunct2, THEN conjunct2,
               THEN conjunct2, rule_format]
  note B6 = B [THEN conjunct2, THEN conjunct2, THEN conjunct2, THEN conjunct2, THEN conjunct2,
               THEN conjunct1, rule_format]
  from A1 [OF fp] obtain q where q: "sanitizePath ''css/./style.css'' = Inr q"
    "''/app/websites/website_7_k3x9qa/css/style.css'' = path_join (getProjectPath ?e demo_project) q"
    "prefix (os_resolve (process_cwd ?e) (getProjectPath ?e demo_project))
            (os_resolve (process_cwd ?e) ''/app/websites/website_7_k3x9qa/css/style.css'')"
    "os_resolve (process_cwd ?e) (path_dirname ''/app/websites/website_7_k3x9qa/css/style.css'')
       = butlast (os_resolve (process_cwd ?e) ''/app/websites/website_7_k3x9qa/css/style.css'')"
    by blast
  have sq: "sanitizePath ''css/./style.css'' = Inr ''css/style.css''"
    by (simp add: model_defs)
  have c1: "prefix demo_root
     (os_resolve (process_cwd ?e) ''/app/websites/website_7_k3x9qa/css/style.css'')"
    using q(3) by (simp only: demo_R)
  from A4 [OF rd] obtain p full where pf: "arg_path args_all = Some p"
    "fullPath_of ?e ?cur (Some p) = Inr full"
    "readFileSync (process_cwd ?e) demo_site full = Inr ''<p>old</p>''"
    by blast
  have c2: "readFileSync (process_cwd ?e) demo_site ''/app/websites/website_7_k3x9qa/index.html''
     = Inr ''<p>old</p>''"
    using pf ap(1) fi by simp
  from B6 [OF ls] obtain full2 ents where le:
    "fullPath_of ?e ?cur (Some (case arg_path args_none of None \<Rightarrow> ''.'' | Some p \<Rightarrow> p)) = Inr full2"
    "readdirSync (process_cwd ?e) demo_site full2 = Inr ents"
    "[\<lparr>entry_name = ''index.html'', entry_type = ''file'', entry_path = ''index.html''\<rparr>]
       = map (\<lambda>(n, d). \<lparr>entry_name = n,
                    entry_type = (if d then ''directory'' else ''file''),
                    entry_path = path_join (case arg_path args_none of None \<Rightarrow> ''.'' | Some p \<Rightarrow> p) n\<rparr>)
              ents"
    by (elim exE conjE) (rule that; assumption)
  have f2: "full2 = ''/app/websites/website_7_k3x9qa''"
    using le(1) fd ap(3) by simp
  have "map entry_name [\<lparr>entry_name = ''index.html'', entry_type = ''file'', entry_path = ''index.html''\<rparr>]
          = map fst ents"
    unfolding le(3) by (simp add: case_prod_unfold comp_def)
  then have me: "map fst ents = [''index.html'']" by simp
  have c3: "\<exists>ents. readdirSync (process_cwd ?e) demo_site ''/app/websites/website_7_k3x9qa''
            = Inr ents \<and> map fst ents = [''index.html'']"
    using le(2) me unfolding f2 by (intro exI [of _ ents] conjI)
  from A7 [of "''cat index.html''"] ap(2) v have
    x: "snd (ExecuteCommand ?e ?cur args_all demo_site)
          = snd (execSync ?e ''cat index.html'' (getProjectPath ?e demo_project) demo_site)"
      "output_r (fst (ExecuteCommand ?e ?cur args_all demo_site))
          = (case fst (execSync ?e ''cat index.html'' (getProjectPath ?e demo_project) demo_site) of
               Inl m \<Rightarrow> None | Inr out \<Rightarrow> Some (trim out))"
    by blast+
  have c4: "snd (ExecuteCommand ?e ?cur args_all demo_site)
     = snd (execSync ?e ''cat index.html'' ''/app/websites/website_7_k3x9qa'' demo_site)"
    using x(1) unfolding gp .
  have c5: "output_r (fst (ExecuteCommand ?e ?cur args_all demo_site)) = Some ''<p>old</p>''"
    using x(2) unfolding gp ex by (simp add: trim_def is_js_space_def)
  show ?thesis
    using demo_active demo_abs fp sq c1 q(4) rd c2 ls c3 ap(2) v c4 c5 by (intro conjI)
qed

text \<open>The claim as written fails for \<open>ExecuteCommand\<close>: \<open>cat /etc/passwd\<close> passes validation
  and the call returns the content of a file outside the project directory.\<close>

theorem command_reads_outside_project:
  "isValidCommand ''cat /etc/passwd'' = Inr True \<and>
   fst (ExecuteCommand (demo_env []) (Some demo_project) args_cat_passwd demo_built)
     = no_fields\<lparr>success := True, output_r := Some ''root:x:0:0'', command := Some ''cat /etc/passwd''\<rparr> \<and>
   lookup demo_built [''etc'', ''passwd''] = Some (File ''root:x:0:0'') \<and>
   os_resolve (process_cwd (demo_env [])) (getProjectPath (demo_env []) demo_project) = demo_root \<and>
   \<not> prefix demo_root [''etc'', ''passwd'']"
  by (simp add: model_defs demo_defs)

section \<open>The size ceiling of \<open>WriteFile\<close>\<close>

lemma utf8_length_over_content: "utf8_length over_content = 1024 * 1024 + 1"
  by (simp add: utf8_length_def over_content_def sum_list_replicate)

lemma length_over_content: "length over_content = 1024 * 1024"
  by (simp add: over_content_def)

lemma demo_sanitize_index: "sanitizePath ''index.html'' = Inr ''index.html''"
  by (simp add: model_defs)

lemma demo_target:
  "os_resolve (process_cwd (demo_env tcs)) (path_join (getProjectPath (demo_env tcs) demo_project) ''index.html'')
   = demo_root @ [''index.html'']"
  by (simp add: model_defs demo_defs)

lemma demo_wf: "wf_fs demo_fs" "wf_fs demo_built"
  by (simp_all add: wf_fs_def lookup_def demo_fs_def demo_built_def)

lemma lt_4_cases: "k < (4::nat) \<Longrightarrow> k = 0 \<or> k = 1 \<or> k = 2 \<or> k = 3"
  by arith

lemma demo_no_file_on_way:
  "\<forall>k<length (demo_root @ [''index.html'']). \<forall>d. lookup demo_fs (take k (demo_root @ [''index.html''])) \<noteq> Some (File d)"
proof (intro allI impI)
  fix k d assume "k < length (demo_root @ [''index.html''])"
  then have "k < 4" by (simp add: demo_root_def)
  then have "k = 0 \<or> k = 1 \<or> k = 2 \<or> k = 3" by (rule lt_4_cases)
  then show "lookup demo_fs (take k (demo_root @ [''index.html''])) \<noteq> Some (File d)"
    by (auto simp: demo_root_def demo_fs_def lookup_def)
qed

lemma demo_target_free: "lookup demo_fs (demo_root @ [''index.html'']) \<noteq> Some Dir"
  by (simp add: demo_root_def demo_fs_def lookup_def)

lemma demo_target_below:
  "demo_root @ [''index.html''] \<noteq> os_resolve (process_cwd (demo_env tcs)) (getProjectPath (demo_env tcs) demo_project)"
  by (simp add: demo_R)

text \<open>
  C4. \<open>WriteFile\<close> is meant to refuse content of more than 1 MiB, and its error message
  and its log line count in bytes. The code compares \<open>content.length\<close>, the number of UTF-16
  code units, with 1024 * 1024 and reports that number as the size. Content of
  1024 * 1024 - 1 letters and one e-acute (code unit 233) has 1024 * 1024 code units and
  is one byte over the ceiling when written as UTF-8, yet \<open>WriteFile\<close> succeeds, writes
  the file and reports 1024 * 1024. Content of 1024 * 1024 + 1 letters is refused.
\<close>

theorem WriteFile_counts_code_units:
  "length over_content = 1024 * 1024 \<and>
   utf8_length over_content = 1024 * 1024 + 1 \<and>
   (\<exists>fs'. WriteFile (demo_env []) (Some demo_project) args_over demo_fs =
            (no_fields\<lparr>success := True,
               message := Some ''Successfully written to index.html'', path := Some ''index.html'',
               fullPath := Some ''/app/websites/website_7_k3x9qa/index.html'',
               size_r := Some (1024 * 1024)\<rparr>, fs') \<and>
          lookup fs' (demo_root @ [''index.html'']) = Some (File over_content)) \<and>
   length big_content = 1024 * 1024 + 1 \<and>
   WriteFile (demo_env []) (Some demo_project)
      \<lparr>arg_command = None, arg_path = Some ''index.html'', arg_content = Some big_content\<rparr> demo_fs =
     (no_fields\<lparr>success := False, error := Some ''File content too large (max 1MB)'',
        path := Some ''index.html''\<rparr>, demo_fs)"
proof -
  have fp: "path_join (getProjectPath (demo_env []) demo_project) ''index.html''
            = ''/app/websites/website_7_k3x9qa/index.html''"
    by (simp add: model_defs demo_defs)
  have lp: "last ''index.html'' \<noteq> CHR ''/''" by simp
  have l1: "length over_content \<le> 1024 * 1024" by (simp add: length_over_content)
  have a1: "arg_path args_over = Some ''index.html''" "arg_content args_over = Some over_content"
    by (simp_all add: args_over_def)
  from WriteFile_writes [OF demo_active demo_abs a1 demo_sanitize_index lp
      demo_target [symmetric] demo_target_below demo_wf(1) demo_no_file_on_way demo_target_free l1,
      of "[]"]
  obtain fs' where w: "WriteFile (demo_env []) (Some demo_project) args_over demo_fs =
            (no_fields\<lparr>success := True,
               message := Some (''Successfully written to '' @ ''index.html''), path := Some ''index.html'',
               fullPath := Some (path_join (getProjectPath (demo_env []) demo_project) ''index.html''),
               size_r := Some (length over_content)\<rparr>, fs')"
    "lookup fs' (demo_root @ [''index.html'']) = Some (File over_content)"
    by blast
  have ok: "\<exists>fs'. WriteFile (demo_env []) (Some demo_project) args_over demo_fs =
            (no_fields\<lparr>success := True,
               message := Some ''Successfully written to index.html'', path := Some ''index.html'',
               fullPath := Some ''/app/websites/website_7_k3x9qa/index.html'',
               size_r := Some (1024 * 1024)\<rparr>, fs') \<and>
          lookup fs' (demo_root @ [''index.html'']) = Some (File over_content)"
    using w by (intro exI [of _ fs']) (simp add: fp length_over_content)
  have big: "WriteFile (demo_env []) (Some demo_project)
      \<lparr>arg_command = None, arg_path = Some ''index.html'', arg_content = Some big_content\<rparr> demo_fs =
     (no_fields\<lparr>success := False, error := Some ''File content too large (max 1MB)'',
        path := Some ''index.html''\<rparr>, demo_fs)"
    by (simp add: WriteFile_def WriteFile_try_def fullPath_of_def demo_sanitize_index demo_active
          length_big_content)
  show ?thesis
    using length_over_content utf8_length_over_content ok length_big_content big
    by (intro conjI)
qed

section \<open>The preview URL\<close>

lemma index_path_resolves:
  "os_resolve cwd (path_join (getProjectPath e i) ''index.html'')
   = os_resolve cwd (getProjectPath e i) @ [''index.html'']"
proof -
  have "getProjectPath e i \<noteq> []"
    by (simp add: getProjectPath_def path_join_nonempty)
  from os_resolve_join [OF this, of cwd "''index.html''"] show ?thesis
    by (simp add: nstep_def)
qed

lemma existsSync_cong:
  "lookup fs1 (os_resolve cwd p) = lookup fs (os_resolve cwd p) \<Longrightarrow>
   existsSync cwd fs1 p = existsSync cwd fs p"
  by (simp add: existsSync_def fs_stat_def)

text \<open>Making the project directory does not make an \<open>index.html\<close> in it.\<close>

lemma mkdir_keeps_index:
  assumes "mkdirSync_recursive cwd fs (getProjectPath e i) = Inr made"
  shows "existsSync cwd made (path_join (getProjectPath e i) ''index.html'')
         = existsSync cwd fs (path_join (getProjectPath e i) ''index.html'')"
proof -
  let ?R = "os_resolve cwd (getProjectPath e i)"
  from assms have m: "mkdirs fs [] ?R = Inr made"
    by (simp add: mkdirSync_recursive_def split: if_splits)
  have "\<not> (\<exists>k. 0 < k \<and> k \<le> length ?R \<and> ?R @ [''index.html''] = [] @ take k ?R)"
  proof
    assume "\<exists>k. 0 < k \<and> k \<le> length ?R \<and> ?R @ [''index.html''] = [] @ take k ?R"
    then obtain k where "?R @ [''index.html''] = take k ?R" by auto
    then have "length (?R @ [''index.html'']) = length (take k ?R)" by simp
    then show False by simp
  qed
  then have "(if \<exists>k. 0 < k \<and> k \<le> length ?R \<and> ?R @ [''index.html''] = [] @ take k ?R
              then Some Dir else lookup fs (?R @ [''index.html''])) = lookup fs (?R @ [''index.html''])"
    by (rule if_not_P)
  with mkdirs_lookup [OF m, of "?R @ [''index.html'']"]
  have "lookup made (?R @ [''index.html'']) = lookup fs (?R @ [''index.html''])"
    by (simp only:)
  then show ?thesis
    by (intro existsSync_cong) (simp add: index_path_resolves)
qed

text \<open>
  C7, as the code has it. In a build that answers 200, \<open>hasIndexFile\<close> is the result of
  \<open>existsSync\<close> on \<open>index.html\<close> in the project directory after the actions have run, true
  for a file as for a directory of that name, and \<open>previewUrl\<close> is set exactly when it is
  true. A build whose completion asks for no action answers 200 with \<open>success: true\<close>,
  \<open>hasIndexFile: false\<close> and \<open>previewUrl: null\<close>, provided the fresh project directory did
  not hold an \<open>index.html\<close> already.
\<close>

theorem preview_iff_index_exists:
  "(fst (build e u fs) = \<lparr>status = 200, body = BuildBody b\<rparr> \<longrightarrow>
      hasIndexFile b
        = existsSync (process_cwd e) (snd (build e u fs))
            (path_join (getProjectPath e (projectId b)) ''index.html'') \<and>
      (previewUrl b \<noteq> None) = hasIndexFile b \<and>
      previewUrl b = (if hasIndexFile b
                      then Some (''http://localhost:5000/'' @ projectId b @ ''/'') else None)) \<and>
   (s \<noteq> [] \<and> length s \<le> 2000 \<and>
    mkdirSync_recursive (process_cwd e) fs (getProjectPath e (generateProjectId e)) = Inr made \<and>
    groq_create e s = Inr (Some msg) \<and> (tool_calls msg = None \<or> tool_calls msg = Some []) \<and>
    \<not> existsSync (process_cwd e) fs
         (path_join (getProjectPath e (generateProjectId e)) ''index.html'') \<longrightarrow>
      (\<exists>b0. build e (JStr s) fs = (\<lparr>status = 200, body = BuildBody b0\<rparr>, made) \<and> ok_success b0 \<and>
            \<not> hasIndexFile b0 \<and> previewUrl b0 = None \<and> executionResults b0 = [] \<and>
            toolCallsExecuted b0 = 0))"
proof -
  have 1: "hasIndexFile b
        = existsSync (process_cwd e) (snd (build e u fs))
            (path_join (getProjectPath e (projectId b)) ''index.html'') \<and>
      (previewUrl b \<noteq> None) = hasIndexFile b \<and>
      previewUrl b = (if hasIndexFile b
                      then Some (''http://localhost:5000/'' @ projectId b @ ''/'') else None)"
    if h: "fst (build e u fs) = \<lparr>status = 200, body = BuildBody b\<rparr>"
  proof -
    from h obtain t where u: "u = JStr t" and bp: "fst (build_project e t fs) = \<lparr>status = 200, body = BuildBody b\<rparr>"
      and bb: "build e u fs = build_project e t fs"
      by (cases u) (auto simp: build_def error_response_def split: if_splits)
    from bp show ?thesis
      unfolding bb
      by (auto simp: build_project_def Let_def error_response_def PREVIEW_PORT_def
            split: sum.splits option.splits if_splits)
  qed
  have 2: "\<exists>b0. build e (JStr s) fs = (\<lparr>status = 200, body = BuildBody b0\<rparr>, made) \<and> ok_success b0 \<and>
            \<not> hasIndexFile b0 \<and> previewUrl b0 = None \<and> executionResults b0 = [] \<and>
            toolCallsExecuted b0 = 0"
    if h: "s \<noteq> []" "length s \<le> 2000"
      "mkdirSync_recursive (process_cwd e) fs (getProjectPath e (generateProjectId e)) = Inr made"
      "groq_create e s = Inr (Some msg)" "tool_calls msg = None \<or> tool_calls msg = Some []"
      "\<not> existsSync (process_cwd e) fs (path_join (getProjectPath e (generateProjectId e)) ''index.html'')"
  proof -
    have ne: "\<not> existsSync (process_cwd e) made
                (path_join (getProjectPath e (generateProjectId e)) ''index.html'')"
      using mkdir_keeps_index [OF h(3)] h(6) by simp
    from h(5) show ?thesis
    proof
      assume "tool_calls msg = None"
      with h(1-4) ne show ?thesis
        by (simp add: build_valid_prompt build_project_def Let_def)
    next
      assume "tool_calls msg = Some []"
      with h(1-4) ne show ?thesis
        by (simp add: build_valid_prompt build_project_def Let_def)
    qed
  qed
  show ?thesis using 1 2 by blast
qed

theorem preview_iff_index_exists_witness:
  "(\<exists>b0. build (demo_env []) (JStr ''Build a page'') demo_fs
           = (\<lparr>status = 200, body = BuildBody b0\<rparr>, demo_built) \<and> ok_success b0 \<and>
         \<not> hasIndexFile b0 \<and> previewUrl b0 = None \<and> executionResults b0 = []) \<and>
   \<not> existsSync (process_cwd (demo_env [])) demo_fs
        (path_join (getProjectPath (demo_env []) (generateProjectId (demo_env []))) ''index.html'')"
proof -
  have h1: "''Build a page'' \<noteq> []" and h2: "length ''Build a page'' \<le> 2000" by simp_all
  have h3: "mkdirSync_recursive (process_cwd (demo_env [])) demo_fs
      (getProjectPath (demo_env []) (generateProjectId (demo_env []))) = Inr demo_built"
    using demo_mkdir [of "[]"] by (simp add: demo_fs_def demo_built_def)
  have h4: "groq_create (demo_env []) ''Build a page''
      = Inr (Some \<lparr>msg_content = Some ''Site built.'', tool_calls = Some []\<rparr>)"
    by (rule demo_groq)
  have h5: "tool_calls \<lparr>msg_content = Some ''Site built.'', tool_calls = Some []\<rparr> = None \<or>
            tool_calls \<lparr>msg_content = Some ''Site built.'', tool_calls = Some []\<rparr> = Some []"
    by simp
  have h6: "\<not> existsSync (process_cwd (demo_env [])) demo_fs
        (path_join (getProjectPath (demo_env []) (generateProjectId (demo_env []))) ''index.html'')"
    by (simp add: model_defs demo_defs)
  from preview_iff_index_exists [of "demo_env []" "JStr ''Build a page''" demo_fs _ "''Build a page''"
      demo_built "\<lparr>msg_content = Some ''Site built.'', tool_calls = Some []\<rparr>"]
    h1 h2 h3 h4 h5 h6
  have "\<exists>b0. build (demo_env []) (JStr ''Build a page'') demo_fs
           = (\<lparr>status = 200, body = BuildBody b0\<rparr>, demo_built) \<and> ok_success b0 \<and>
         \<not> hasIndexFile b0 \<and> previewUrl b0 = None \<and> executionResults b0 = [] \<and>
            toolCallsExecuted b0 = 0"
    by blast
  with h6 show ?thesis by blast
qed

text \<open>The claim as written fails: after \<open>WriteFile\<close> of \<open>index.html/a.txt\<close> the project root
  holds a directory \<open>index.html\<close> and no file of that name, yet \<open>hasIndexFile\<close> is true and
  \<open>previewUrl\<close> is set.\<close>

theorem preview_for_index_directory:
  "\<exists>b fs'. build (demo_env calls_nested) (JStr ''Build a page'') demo_fs
            = (\<lparr>status = 200, body = BuildBody b\<rparr>, fs') \<and>
          hasIndexFile b \<and> previewUrl b = Some ''http://localhost:5000/website_7_k3x9qa/'' \<and>
          lookup fs' (demo_root @ [''index.html'']) = Some Dir \<and>
          lookup fs' (demo_root @ [''index.html'', ''a.txt'']) = Some (File ''x'')"
  by (simp add: model_defs demo_defs)

end
